(* ===== verification/Bt_Prelude.thy ===== *)
theory Bt_Prelude
  imports Main "HOL-Library.Word"
begin

text \<open>
  Shared vocabulary of the development: bytes, the ways a C function can fail, heap buffers whose
  bytes may be uninitialised, and the process state (\<open>world\<close>) that the tracker's functions thread:
  the Redis server behind hiredis, the outcomes of \<open>rand()\<close> and the outcomes of \<open>malloc()\<close>.

  The collections \<open>bt_defs\<close> (definitions to unfold when a function is executed) and \<open>wire\<close>
  (facts about byte layouts) carry most component proofs.
\<close>

named_theorems bt_defs \<open>definitions unfolded when a tracker function is executed\<close>
named_theorems wire \<open>facts about byte layouts\<close>

section \<open>Bytes and C strings\<close>

type_synonym byte = "8 word"
type_synonym bytes = "8 word list"

lemma unat_byte_less: "unat (b :: byte) < 256"
  by (rule order_less_le_trans [OF unsigned_less]) simp

lemma unat_byte_div_less: "unat (b :: byte) div 16 < 16"
  using unat_byte_less [of b] by simp

text \<open>The bytes of a C string literal, without the terminating NUL.\<close>

definition str :: "string \<Rightarrow> bytes" where
  "str s = map of_char s"

lemma str_simps [simp]:
  "str [] = []"
  "str (c # s) = of_char c # str s"
  by (simp_all add: str_def)

lemma length_str [simp]: "length (str s) = length s"
  by (simp add: str_def)

section \<open>Failures\<close>

text \<open>\<open>exit.h\<close>: the exit codes.\<close>

datatype bt_exit =
    BT_EXIT_OK
  | BT_EXIT_CONFIG_ERROR
  | BT_EXIT_NETWORK_ERROR
  | BT_EXIT_MALLOC_ERROR
  | BT_EXIT_REDIS

text \<open>
  A C function that does not return normally either calls \<open>exit\<close> or runs into undefined behaviour;
  the latter is recorded by its cause.
\<close>

datatype fault =
    Null_Dereference
  | Read_Out_Of_Bounds
  | Write_Out_Of_Bounds
  | Indeterminate_Value
  | Exit bt_exit

type_synonym 'a result = "fault + 'a"

definition bindE :: "'a result \<Rightarrow> ('a \<Rightarrow> 'b result) \<Rightarrow> 'b result" where
  "bindE m f = (case m of Inl e \<Rightarrow> Inl e | Inr x \<Rightarrow> f x)"

lemma bindE_simps [simp]:
  "bindE (Inl e) f = Inl e"
  "bindE (Inr x) f = f x"
  by (simp_all add: bindE_def)

lemma bindE_eq_Inr: "bindE m f = Inr y \<longleftrightarrow> (\<exists>x. m = Inr x \<and> f x = Inr y)"
  by (cases m) auto

lemma bindE_eq_Inl: "bindE m f = Inl e \<longleftrightarrow> m = Inl e \<or> (\<exists>x. m = Inr x \<and> f x = Inl e)"
  by (cases m) auto

lemma bindE_cong [fundef_cong]:
  "m = m' \<Longrightarrow> (\<And>x. m' = Inr x \<Longrightarrow> f x = f' x) \<Longrightarrow> bindE m f = bindE m' f'"
  by (cases m') auto

lemma bindE_assoc: "bindE (bindE m f) g = bindE m (\<lambda>x. bindE (f x) g)"
  by (cases m) auto

text \<open>Dereferencing a pointer that may be \<open>NULL\<close>.\<close>

definition deref :: "'a option \<Rightarrow> 'a result" where
  "deref p = (case p of None \<Rightarrow> Inl Null_Dereference | Some x \<Rightarrow> Inr x)"

lemma deref_simps [simp]:
  "deref None = Inl Null_Dereference"
  "deref (Some x) = Inr x"
  by (simp_all add: deref_def)

lemma deref_eq_Inr [simp]: "deref p = Inr x \<longleftrightarrow> p = Some x"
  by (cases p) auto

text \<open>Performing a list of operations one after the other.\<close>

primrec run_all :: "('i \<Rightarrow> 'w \<Rightarrow> 'w result) \<Rightarrow> 'i list \<Rightarrow> 'w \<Rightarrow> 'w result" where
  "run_all f [] w = Inr w"
| "run_all f (i # is) w = bindE (f i w) (run_all f is)"

text \<open>
  An operation that, while an invariant holds, succeeds, keeps the invariant and acts on an
  abstraction of the state as a specification says; then so does any sequence of operations.
\<close>

locale simulation =
  fixes opn :: "'i \<Rightarrow> 'w \<Rightarrow> 'w result" and ok :: "'i \<Rightarrow> bool" and inv :: "'w \<Rightarrow> bool"
    and abs :: "'w \<Rightarrow> 'a" and spec :: "'i \<Rightarrow> 'a \<Rightarrow> 'a"
  assumes refines: "inv w \<Longrightarrow> ok i \<Longrightarrow> \<exists>w'. opn i w = Inr w' \<and> inv w' \<and> abs w' = spec i (abs w)"
begin

lemma run_all_refines:
  assumes "inv w" "\<forall>i \<in> set is. ok i"
  shows "\<exists>w'. run_all opn is w = Inr w' \<and> inv w' \<and> abs w' = fold spec is (abs w)"
  using assms
proof (induction "is" arbitrary: w)
  case (Cons i "is")
  then obtain w1 where "opn i w = Inr w1" "inv w1" "abs w1 = spec i (abs w)"
    using refines [of w i] by auto
  then show ?case using Cons.IH [of w1] Cons.prems(2) by simp
qed simp

end

section \<open>Memory\<close>

text \<open>
  A heap block is a list of bytes, \<open>None\<close> where the byte has not been written since \<open>malloc\<close>.
  Every access is checked against the length of the block.
\<close>

type_synonym buffer = "byte option list"

definition memcpy_to :: "buffer \<Rightarrow> nat \<Rightarrow> bytes \<Rightarrow> buffer result" where
  "memcpy_to buf off bs =
     (if off + length bs \<le> length buf
      then Inr (take off buf @ map Some bs @ drop (off + length bs) buf)
      else Inl Write_Out_Of_Bounds)"

definition read_bytes :: "bytes \<Rightarrow> nat \<Rightarrow> nat \<Rightarrow> bytes result" where
  "read_bytes buf off n =
     (if off + n \<le> length buf then Inr (take n (drop off buf)) else Inl Read_Out_Of_Bounds)"

lemma memcpy_to_append [wire]:
  "off = length xs \<Longrightarrow> length bs = length ys \<Longrightarrow>
   memcpy_to (xs @ ys @ zs) off bs = Inr (xs @ map Some bs @ zs)"
  by (simp add: memcpy_to_def)

text \<open>Filling a block from the front.\<close>

lemma memcpy_to_fill:
  assumes "off = length pre" "length bs \<le> length room"
  shows "memcpy_to (map Some pre @ room) off bs = Inr (map Some (pre @ bs) @ drop (length bs) room)"
  using assms by (simp add: memcpy_to_def)

lemma memcpy_to_front:
  "length bs \<le> n \<Longrightarrow> memcpy_to (replicate n None) 0 bs = Inr (map Some bs @ replicate (n - length bs) None)"
  by (simp add: memcpy_to_def)

lemma memcpy_to_overflow: "length buf < off + length bs \<Longrightarrow> memcpy_to buf off bs = Inl Write_Out_Of_Bounds"
  by (simp add: memcpy_to_def)

lemma memcpy_to_length: "memcpy_to buf off bs = Inr buf' \<Longrightarrow> length buf' = length buf"
  by (auto simp: memcpy_to_def split: if_splits)

lemma read_bytes_append [wire]:
  "off = length xs \<Longrightarrow> n = length ys \<Longrightarrow> read_bytes (xs @ ys @ zs) off n = Inr ys"
  by (simp add: read_bytes_def)

lemma read_bytes_ok: "off + n \<le> length buf \<Longrightarrow> read_bytes buf off n = Inr (take n (drop off buf))"
  by (simp add: read_bytes_def)

lemma read_bytes_length: "read_bytes buf off n = Inr bs \<Longrightarrow> length bs = n"
  by (auto simp: read_bytes_def split: if_splits)

text \<open>Reading back a block that was only partly written.\<close>

definition read_block :: "buffer \<Rightarrow> nat \<Rightarrow> nat \<Rightarrow> bytes result" where
  "read_block buf off n =
     (if length buf < off + n then Inl Read_Out_Of_Bounds
      else if None \<in> set (take n (drop off buf)) then Inl Indeterminate_Value
      else Inr (map the (take n (drop off buf))))"

lemma read_block_append [wire]:
  "off = length xs \<Longrightarrow> n = length ys \<Longrightarrow> read_block (xs @ map Some ys @ zs) off n = Inr ys"
  by (auto simp: read_block_def o_def)

lemma read_block_written:
  assumes "off + n \<le> length bs"
  shows "read_block (map Some bs @ rest) off n = Inr (take n (drop off bs))"
proof -
  have "take n (drop off (map Some bs @ rest)) = map Some (take n (drop off bs))"
    using assms by (simp add: drop_map take_map)
  moreover have "None \<notin> set (map Some xs)" for xs :: bytes by auto
  ultimately show ?thesis using assms by (simp add: read_block_def o_def del: set_map)
qed

text \<open>The characters of a C string: everything before the first NUL.\<close>

definition c_str :: "buffer \<Rightarrow> bytes" where
  "c_str buf = map the (takeWhile (\<lambda>b. b \<noteq> Some 0) buf)"

lemma c_str_append [wire]: "0 \<notin> set s \<Longrightarrow> c_str (map Some s @ Some 0 # rest) = s"
  by (subst c_str_def, subst takeWhile_append2) (auto simp: o_def)

text \<open>A block all of whose bytes have been written holds these bytes.\<close>

definition initialised :: "buffer \<Rightarrow> bool" where
  "initialised buf \<longleftrightarrow> None \<notin> set buf"

lemma initialised_Some [simp]: "initialised (map Some bs)"
  by (auto simp: initialised_def)

section \<open>The process state\<close>

text \<open>
  \<open>server\<close> is the Redis server with its connections, an arbitrary type: Redis and hiredis are not
  part of the repository. \<open>rand_seq\<close> is the sequence of values \<open>rand()\<close> returns and \<open>malloc_seq\<close>
  says which calls of \<open>malloc()\<close> succeed; each sequence has a position that a call advances.
  \<open>uninit i\<close> is the value an unwritten heap byte at offset \<open>i\<close> turns out to hold when it is sent.
\<close>

record 's world =
  server :: 's
  rand_seq :: "nat \<Rightarrow> nat"
  rand_pos :: nat
  malloc_seq :: "nat \<Rightarrow> bool"
  malloc_pos :: nat
  uninit :: "nat \<Rightarrow> byte"

text \<open>The bytes that leave the process when a block is sent.\<close>

definition sent_bytes :: "'s world \<Rightarrow> buffer \<Rightarrow> bytes" where
  "sent_bytes w buf =
     map (\<lambda>(i, b). case b of Some x \<Rightarrow> x | None \<Rightarrow> uninit w i) (enumerate 0 buf)"

lemma length_sent_bytes [simp]: "length (sent_bytes w buf) = length buf"
  by (simp add: sent_bytes_def)

lemma sent_bytes_initialised: "sent_bytes w (map Some bs @ buf) = bs @
    map (\<lambda>(i, b). case b of Some x \<Rightarrow> x | None \<Rightarrow> uninit w i) (enumerate (length bs) buf)"
proof -
  have "map (\<lambda>(i, b). case b of Some x \<Rightarrow> x | None \<Rightarrow> uninit w i) (enumerate n (map Some bs)) = bs" for n
    by (induction bs arbitrary: n) auto
  then show ?thesis by (simp add: sent_bytes_def enumerate_append_eq)
qed

lemma sent_bytes_map_Some [simp]: "sent_bytes w (map Some bs) = bs"
  using sent_bytes_initialised [of w bs "[]"] by simp

definition c_rand :: "'s world \<Rightarrow> nat \<times> 's world" where
  "c_rand w = (rand_seq w (rand_pos w), w\<lparr>rand_pos := Suc (rand_pos w)\<rparr>)"

definition malloc :: "nat \<Rightarrow> 's world \<Rightarrow> buffer option \<times> 's world" where
  "malloc n w =
     (if malloc_seq w (malloc_pos w) then Some (replicate n None) else None,
      w\<lparr>malloc_pos := Suc (malloc_pos w)\<rparr>)"

text \<open>\<open>malloc\<close> whose result is used without a check: a failure is a null dereference.\<close>

definition malloc_unchecked :: "nat \<Rightarrow> 's world \<Rightarrow> (buffer \<times> 's world) result" where
  "malloc_unchecked n w = (let (p, w') = malloc n w in bindE (deref p) (\<lambda>buf. Inr (buf, w')))"

text \<open>\<open>malloc\<close> followed by \<open>if (NULL == p) exit(BT_EXIT_MALLOC_ERROR)\<close>.\<close>

definition malloc_or_exit :: "nat \<Rightarrow> 's world \<Rightarrow> (buffer \<times> 's world) result" where
  "malloc_or_exit n w =
     (let (p, w') = malloc n w
      in case p of None \<Rightarrow> Inl (Exit BT_EXIT_MALLOC_ERROR) | Some buf \<Rightarrow> Inr (buf, w'))"

text \<open>The environment never runs out of memory.\<close>

definition memory_available :: "'s world \<Rightarrow> bool" where
  "memory_available w \<longleftrightarrow> (\<forall>i. malloc_seq w i)"

lemma malloc_unchecked_available [simp]:
  "memory_available w \<Longrightarrow>
   malloc_unchecked n w = Inr (replicate n None, w\<lparr>malloc_pos := Suc (malloc_pos w)\<rparr>)"
  by (simp add: malloc_unchecked_def malloc_def memory_available_def)

lemma malloc_or_exit_available [simp]:
  "memory_available w \<Longrightarrow>
   malloc_or_exit n w = Inr (replicate n None, w\<lparr>malloc_pos := Suc (malloc_pos w)\<rparr>)"
  by (simp add: malloc_or_exit_def malloc_def memory_available_def)

lemma memory_available_upd [simp]:
  "memory_available (w\<lparr>server := s\<rparr>) = memory_available w"
  "memory_available (w\<lparr>rand_pos := n\<rparr>) = memory_available w"
  "memory_available (w\<lparr>malloc_pos := n\<rparr>) = memory_available w"
  by (simp_all add: memory_available_def)

text \<open>A concrete environment for examples.\<close>

definition quiet_world :: "'s \<Rightarrow> 's world" where
  "quiet_world s = \<lparr>server = s, rand_seq = (\<lambda>_. 0), rand_pos = 0, malloc_seq = (\<lambda>_. True),
     malloc_pos = 0, uninit = (\<lambda>_. 0xEE)\<rparr>"

lemma quiet_world_env [simp]:
  "memory_available (quiet_world s)" "server (quiet_world s) = s"
  by (simp_all add: quiet_world_def memory_available_def)

section \<open>Lists\<close>

lemma append_eq_same_length:
  "length xs = length us \<Longrightarrow> xs @ ys = us @ vs \<longleftrightarrow> xs = us \<and> ys = vs"
  by simp

lemma take_drop_split4:
  assumes "a + b \<le> length xs"
  obtains us vs ws where "xs = us @ vs @ ws" "length us = a" "length vs = b"
proof
  show "xs = take a xs @ take b (drop a xs) @ drop (a + b) xs"
    by (metis append_take_drop_id drop_drop add.commute)
qed (use assms in auto)

lemma images_of_list:
  assumes "set ys \<subseteq> f ` A"
  obtains xs where "ys = map f xs" "set xs \<subseteq> A"
  using assms
proof (induction ys arbitrary: thesis)
  case (Cons y ys)
  then obtain xs where "ys = map f xs" "set xs \<subseteq> A" by auto
  moreover obtain x where "y = f x" "x \<in> A" using Cons.prems(2) by auto
  ultimately show ?case using Cons.prems(1) [of "x # xs"] by simp
qed simp

end
