(* ===== verification/Bt_Conf.thy ===== *)
theory Bt_Conf
  imports Bt_Prelude
begin

text \<open>
  \<open>conf.h\<close> and \<open>conf.c\<close>: the configuration and how it is filled from a key file. GLib's key file
  parser is not part of the repository: it is the parameter \<open>gkf\<close>, through which \<open>bt_load_config\<close>
  loads a file and looks keys up.
\<close>

section \<open>Configuration data\<close>

datatype bt_restriction =
    BT_RESTRICTION_NONE
  | BT_RESTRICTION_WHITELIST
  | BT_RESTRICTION_BLACKLIST

record bt_config_t =
  bttracker_addr :: "bytes option"
  bttracker_port :: "16 word"
  bttracker_log_level_mask :: "32 word"
  thread_max :: "16 word"
  thread_max_idle_time :: "32 word"
  announce_wait_time :: "32 word"
  announce_peer_ttl :: "32 word"
  announce_max_numwant :: "16 word"
  redis_socket_path :: "bytes option"
  redis_host :: "bytes option"
  redis_port :: "16 word"
  redis_timeout :: "32 word"
  redis_db :: "16 word"
  redis_key_prefix :: "bytes option"
  info_hash_restriction :: bt_restriction

text \<open>The priorities of \<open>syslog.h\<close>.\<close>

definition LOG_EMERG :: "32 word" where "LOG_EMERG = 0"
definition LOG_ALERT :: "32 word" where "LOG_ALERT = 1"
definition LOG_CRIT :: "32 word" where "LOG_CRIT = 2"
definition LOG_ERR :: "32 word" where "LOG_ERR = 3"
definition LOG_WARNING :: "32 word" where "LOG_WARNING = 4"
definition LOG_NOTICE :: "32 word" where "LOG_NOTICE = 5"
definition LOG_INFO :: "32 word" where "LOG_INFO = 6"
definition LOG_DEBUG :: "32 word" where "LOG_DEBUG = 7"

lemmas log_level_defs =
  LOG_EMERG_def LOG_ALERT_def LOG_CRIT_def LOG_ERR_def LOG_WARNING_def LOG_NOTICE_def
  LOG_INFO_def LOG_DEBUG_def

section \<open>Loading\<close>

text \<open>
  The calls of GLib the loader makes: loading a file yields a key file or fails; a missing string is
  \<open>NULL\<close>; an integer is a C \<open>int\<close>.
\<close>

record 'k gkeyfile_api =
  g_key_file_load_from_file :: "bytes \<Rightarrow> 'k option"
  g_key_file_get_string :: "'k \<Rightarrow> string \<Rightarrow> string \<Rightarrow> bytes option"
  g_key_file_get_integer :: "'k \<Rightarrow> string \<Rightarrow> string \<Rightarrow> 32 word"

text \<open>The chains of \<open>strcmp\<close>; comparing a \<open>NULL\<close> string is a null dereference.\<close>

definition restriction_of_string :: "bytes option \<Rightarrow> bt_restriction result" where
  "restriction_of_string p =
     bindE (deref p) (\<lambda>s.
       if s = str ''whitelist'' then Inr BT_RESTRICTION_WHITELIST
       else if s = str ''blacklist'' then Inr BT_RESTRICTION_BLACKLIST
       else Inr BT_RESTRICTION_NONE)"

definition log_level_of_string :: "bytes option \<Rightarrow> 32 word result" where
  "log_level_of_string p =
     bindE (deref p) (\<lambda>s.
       if s = str ''DEBUG'' then Inr LOG_DEBUG
       else if s = str ''INFO'' then Inr LOG_INFO
       else if s = str ''NOTICE'' then Inr LOG_NOTICE
       else if s = str ''WARNING'' then Inr LOG_WARNING
       else if s = str ''ERR'' then Inr LOG_ERR
       else if s = str ''CRIT'' then Inr LOG_CRIT
       else if s = str ''ALERT'' then Inr LOG_ALERT
       else if s = str ''EMERG'' then Inr LOG_EMERG
       else Inr LOG_INFO)"

text \<open>
  \<open>bt_load_config\<close> returns whether the file could be loaded, and the configuration it filled; the
  integers are truncated to the widths of the fields they are assigned to.
\<close>

definition bt_load_config ::
    "'k gkeyfile_api \<Rightarrow> bytes \<Rightarrow> bt_config_t \<Rightarrow> (bool \<times> bt_config_t) result" where
  "bt_load_config gkf filename config =
     (case g_key_file_load_from_file gkf filename of
        None \<Rightarrow> Inr (False, config)
      | Some keyfile \<Rightarrow>
          let get_string = g_key_file_get_string gkf keyfile;
              get_integer = g_key_file_get_integer gkf keyfile;
              config1 = config\<lparr>
                bttracker_addr := get_string ''BtTracker'' ''Address'',
                bttracker_port := ucast (get_integer ''BtTracker'' ''Port''),
                thread_max := ucast (get_integer ''Threading'' ''MaxThreads''),
                thread_max_idle_time := get_integer ''Threading'' ''MaxIdleTime'',
                announce_wait_time := get_integer ''Announce'' ''WaitTime'',
                announce_peer_ttl := get_integer ''Announce'' ''PeerTTL'',
                announce_max_numwant := ucast (get_integer ''Announce'' ''MaxNumWant'')\<rparr>
          in bindE (restriction_of_string (get_string ''Announce'' ''InfoHashRestriction'')) (\<lambda>restriction.
             bindE (log_level_of_string (get_string ''BtTracker'' ''LogLevel'')) (\<lambda>level.
             Inr (True, config1\<lparr>
                info_hash_restriction := restriction,
                bttracker_log_level_mask := level,
                redis_socket_path := get_string ''Redis'' ''SocketPath'',
                redis_host := get_string ''Redis'' ''Host'',
                redis_port := ucast (get_integer ''Redis'' ''Port''),
                redis_timeout := get_integer ''Redis'' ''Timeout'',
                redis_db := ucast (get_integer ''Redis'' ''DB''),
                redis_key_prefix := get_string ''Redis'' ''KeyPrefix''\<rparr>))))"

section \<open>Properties\<close>

lemma restriction_of_string_None [simp]: "restriction_of_string None = Inl Null_Dereference"
  by (simp add: restriction_of_string_def)

lemma log_level_of_string_None [simp]: "log_level_of_string None = Inl Null_Dereference"
  by (simp add: log_level_of_string_def)

lemma restriction_of_string_Some:
  "\<exists>r. restriction_of_string (Some s) = Inr r \<and>
     (r = BT_RESTRICTION_WHITELIST \<longleftrightarrow> s = str ''whitelist'') \<and>
     (r = BT_RESTRICTION_BLACKLIST \<longleftrightarrow> s = str ''blacklist'')"
  by (simp add: restriction_of_string_def)

text \<open>The names of the priorities of syslog, in the order of their numbers.\<close>

definition priority_names :: "string list" where
  "priority_names =
     [''EMERG'', ''ALERT'', ''CRIT'', ''ERR'', ''WARNING'', ''NOTICE'', ''INFO'', ''DEBUG'']"

text \<open>The priority a name stands for; every other name stands for \<open>INFO\<close>.\<close>

definition names_priority :: "bytes \<Rightarrow> 32 word \<Rightarrow> bool" where
  "names_priority s level \<longleftrightarrow>
     (if s \<in> str ` set priority_names then s = str (priority_names ! unat level) \<and> unat level < 8
      else level = LOG_INFO)"

lemma log_level_of_string_Some: "\<exists>l. log_level_of_string (Some s) = Inr l \<and> names_priority s l"
  by (auto simp: log_level_of_string_def names_priority_def priority_names_def log_level_defs)

text \<open>Which key of the file each field holds, independently of the order of assignments.\<close>

definition config_of_keys :: "'k gkeyfile_api \<Rightarrow> 'k \<Rightarrow> bt_restriction \<Rightarrow> 32 word \<Rightarrow> bt_config_t" where
  "config_of_keys gkf kf restriction level =
     \<lparr>bttracker_addr = g_key_file_get_string gkf kf ''BtTracker'' ''Address'',
      bttracker_port = ucast (g_key_file_get_integer gkf kf ''BtTracker'' ''Port''),
      bttracker_log_level_mask = level,
      thread_max = ucast (g_key_file_get_integer gkf kf ''Threading'' ''MaxThreads''),
      thread_max_idle_time = g_key_file_get_integer gkf kf ''Threading'' ''MaxIdleTime'',
      announce_wait_time = g_key_file_get_integer gkf kf ''Announce'' ''WaitTime'',
      announce_peer_ttl = g_key_file_get_integer gkf kf ''Announce'' ''PeerTTL'',
      announce_max_numwant = ucast (g_key_file_get_integer gkf kf ''Announce'' ''MaxNumWant''),
      redis_socket_path = g_key_file_get_string gkf kf ''Redis'' ''SocketPath'',
      redis_host = g_key_file_get_string gkf kf ''Redis'' ''Host'',
      redis_port = ucast (g_key_file_get_integer gkf kf ''Redis'' ''Port''),
      redis_timeout = g_key_file_get_integer gkf kf ''Redis'' ''Timeout'',
      redis_db = ucast (g_key_file_get_integer gkf kf ''Redis'' ''DB''),
      redis_key_prefix = g_key_file_get_string gkf kf ''Redis'' ''KeyPrefix'',
      info_hash_restriction = restriction\<rparr>"

lemma bt_load_config_Some:
  assumes "g_key_file_load_from_file gkf filename = Some kf"
    and "restriction_of_string (g_key_file_get_string gkf kf ''Announce'' ''InfoHashRestriction'') = Inr r"
    and "log_level_of_string (g_key_file_get_string gkf kf ''BtTracker'' ''LogLevel'') = Inr l"
  shows "bt_load_config gkf filename config = Inr (True, config_of_keys gkf kf r l)"
  using assms by (cases config) (simp add: bt_load_config_def Let_def config_of_keys_def)

text \<open>
  C29. A file that can be loaded yields a configuration exactly when it names both an
  \<open>InfoHashRestriction\<close> and a \<open>LogLevel\<close>; without either, the comparison with the known names
  dereferences \<open>NULL\<close>. The configuration does not depend on what the structure held before. It
  restricts info hashes by a whitelist or a blacklist exactly when the file names that list, and its
  log level is the number of the priority of syslog the file names, or that of \<open>INFO\<close> if it names none.
\<close>

theorem bt_load_config_outcome:
  assumes "g_key_file_load_from_file gkf filename = Some keyfile"
  shows "case (g_key_file_get_string gkf keyfile ''Announce'' ''InfoHashRestriction'',
               g_key_file_get_string gkf keyfile ''BtTracker'' ''LogLevel'') of
           (Some name, Some level_name) \<Rightarrow>
             \<exists>restriction level.
               bt_load_config gkf filename config = Inr (True, config_of_keys gkf keyfile restriction level) \<and>
               (restriction = BT_RESTRICTION_WHITELIST \<longleftrightarrow> name = str ''whitelist'') \<and>
               (restriction = BT_RESTRICTION_BLACKLIST \<longleftrightarrow> name = str ''blacklist'') \<and>
               names_priority level_name level
         | _ \<Rightarrow> bt_load_config gkf filename config = Inl Null_Dereference"
proof (cases "g_key_file_get_string gkf keyfile ''Announce'' ''InfoHashRestriction''")
  case None
  then show ?thesis using assms by (simp add: bt_load_config_def Let_def)
next
  case name: (Some name)
  obtain r where r: "restriction_of_string (Some name) = Inr r"
      "r = BT_RESTRICTION_WHITELIST \<longleftrightarrow> name = str ''whitelist''"
      "r = BT_RESTRICTION_BLACKLIST \<longleftrightarrow> name = str ''blacklist''"
    using restriction_of_string_Some by blast
  show ?thesis
  proof (cases "g_key_file_get_string gkf keyfile ''BtTracker'' ''LogLevel''")
    case None
    then show ?thesis using assms name r(1) by (simp add: bt_load_config_def Let_def)
  next
    case level: (Some level_name)
    obtain l where l: "log_level_of_string (Some level_name) = Inr l" "names_priority level_name l"
      using log_level_of_string_Some by blast
    have "bt_load_config gkf filename config = Inr (True, config_of_keys gkf keyfile r l)"
      using assms name level r(1) l(1) by (intro bt_load_config_Some) auto
    then show ?thesis using name level r(2,3) l(2) by auto
  qed
qed

text \<open>
  The configuration of \<open>write_tmp_config\<close> in \<open>test/conf_tests.c\<close>, as the key file that GLib reads
  from it.
\<close>

definition test_strings :: "((string \<times> string) \<times> string) list" where
  "test_strings =
     [((''BtTracker'', ''LogLevel''), ''INFO''), ((''BtTracker'', ''Address''), ''0.0.0.0''),
      ((''Announce'', ''InfoHashRestriction''), ''none''),
      ((''Redis'', ''SocketPath''), ''/tmp/redis.sock''), ((''Redis'', ''Host''), ''127.0.0.1''),
      ((''Redis'', ''KeyPrefix''), ''bttracker'')]"

definition test_integers :: "((string \<times> string) \<times> 32 word) list" where
  "test_integers =
     [((''BtTracker'', ''Port''), 1234), ((''Threading'', ''MaxThreads''), 4),
      ((''Threading'', ''MaxIdleTime''), 300), ((''Announce'', ''WaitTime''), 1800),
      ((''Announce'', ''PeerTTL''), 1920), ((''Announce'', ''MaxNumWant''), 80),
      ((''Redis'', ''Port''), 6379), ((''Redis'', ''Timeout''), 500), ((''Redis'', ''DB''), 1)]"

definition test_gkf :: "unit gkeyfile_api" where
  "test_gkf = \<lparr>g_key_file_load_from_file = (\<lambda>_. Some ()),
     g_key_file_get_string = (\<lambda>_ group key. map_option str (map_of test_strings (group, key))),
     g_key_file_get_integer =
       (\<lambda>_ group key. case map_of test_integers (group, key) of None \<Rightarrow> 0 | Some n \<Rightarrow> n)\<rparr>"

definition test_config :: bt_config_t where
  "test_config = \<lparr>bttracker_addr = Some (str ''0.0.0.0''), bttracker_port = 1234,
     bttracker_log_level_mask = LOG_INFO, thread_max = 4, thread_max_idle_time = 300,
     announce_wait_time = 1800, announce_peer_ttl = 1920, announce_max_numwant = 80,
     redis_socket_path = Some (str ''/tmp/redis.sock''), redis_host = Some (str ''127.0.0.1''),
     redis_port = 6379, redis_timeout = 500, redis_db = 1,
     redis_key_prefix = Some (str ''bttracker''), info_hash_restriction = BT_RESTRICTION_NONE\<rparr>"

text \<open>The values \<open>test_load_config_valid_file\<close> asserts.\<close>

lemma test_load_config_valid_file:
  "bt_load_config test_gkf filename config = Inr (True, test_config)"
  by (cases config)
    (simp add: bt_load_config_def test_gkf_def test_strings_def test_integers_def test_config_def
      restriction_of_string_def log_level_of_string_def)

theorem bt_load_config_outcome_witness:
  "\<exists>restriction level. bt_load_config test_gkf [] test_config = Inr (True, test_config) \<and>
     test_config = config_of_keys test_gkf () restriction level \<and>
     restriction \<noteq> BT_RESTRICTION_WHITELIST \<and> names_priority (str ''INFO'') level"
proof -
  have "g_key_file_load_from_file test_gkf [] = Some ()"
    "g_key_file_get_string test_gkf () ''Announce'' ''InfoHashRestriction'' = Some (str ''none'')"
    "g_key_file_get_string test_gkf () ''BtTracker'' ''LogLevel'' = Some (str ''INFO'')"
    by (simp_all add: test_gkf_def test_strings_def)
  then show ?thesis
    using bt_load_config_outcome [of test_gkf "[]" "()" test_config]
    by (auto simp: test_load_config_valid_file)
qed

end
