(* ===== verification/Bt_Byteorder.thy ===== *)
theory Bt_Byteorder
  imports Bt_Prelude
begin

text \<open>
  Byte order: how the integers of the program lie in memory on the little-endian host the tracker
  is built for, the conversion functions of \<open>byteorder.h\<close> and \<open>arpa/inet.h\<close>, and the network
  (big-endian) encoding the protocol prescribes. The locale \<open>fixed_codec\<close> is the interface every
  fixed-width encoding offers to the packet layouts of \<open>net.c\<close> and \<open>data.c\<close>.
\<close>

unbundle bit_operations_syntax

section \<open>Integers in memory\<close>

text \<open>The value of a load from consecutive bytes, lowest address least significant.\<close>

fun le_word :: "bytes \<Rightarrow> 'a::len word" where
  "le_word [] = 0"
| "le_word (b # bs) = ucast b OR push_bit 8 (le_word bs)"

text \<open>The bytes a store writes.\<close>

definition le_bytes :: "nat \<Rightarrow> 'a::len word \<Rightarrow> bytes" where
  "le_bytes n w = map (\<lambda>i. ucast (drop_bit (8 * i) w)) [0..<n]"

definition be_word :: "bytes \<Rightarrow> 'a::len word" where
  "be_word bs = le_word (rev bs)"

definition be_bytes :: "nat \<Rightarrow> 'a::len word \<Rightarrow> bytes" where
  "be_bytes n w = rev (le_bytes n w)"

lemma length_le_bytes [simp]: "length (le_bytes n w) = n"
  by (simp add: le_bytes_def)

lemma length_be_bytes [simp]: "length (be_bytes n w) = n"
  by (simp add: be_bytes_def)

lemma bit_le_word:
  "bit (le_word bs :: 'a::len word) n \<longleftrightarrow>
     n < LENGTH('a) \<and> n < 8 * length bs \<and> bit (bs ! (n div 8)) (n mod 8)"
proof (induction bs arbitrary: n)
  case Nil
  then show ?case by simp
next
  case (Cons b bs)
  show ?case
  proof (cases "n < 8")
    case True
    then show ?thesis by (auto simp: bit_simps)
  next
    case False
    then obtain m where m: "n = m + 8" by (metis add.commute le_Suc_ex not_less)
    have "\<not> bit b n" using False by (simp add: bit_word.rep_eq not_less impossible_bit)
    moreover have "(m + 8) div 8 - Suc 0 = m div 8" by simp
    ultimately show ?thesis using m by (auto simp: bit_simps Cons.IH)
  qed
qed

lemma nth_le_bytes: "i < n \<Longrightarrow> le_bytes n w ! i = ucast (drop_bit (8 * i) w)"
  by (simp add: le_bytes_def)

lemma le_word_le_bytes:
  fixes w :: "'a::len word"
  assumes "LENGTH('a) = 8 * n"
  shows "le_word (le_bytes n w) = w"
proof (rule bit_word_eqI)
  fix i assume i: "i < LENGTH('a)"
  then have "i div 8 < n" using assms by simp
  then show "bit (le_word (le_bytes n w) :: 'a word) i = bit w i"
    using i assms by (simp add: bit_le_word nth_le_bytes bit_simps)
qed

lemma le_bytes_le_word:
  assumes "LENGTH('a::len) = 8 * length bs"
  shows "le_bytes (length bs) (le_word bs :: 'a word) = bs"
proof (rule nth_equalityI)
  fix i assume "i < length (le_bytes (length bs) (le_word bs :: 'a word))"
  then have i: "i < length bs" by simp
  show "le_bytes (length bs) (le_word bs :: 'a word) ! i = bs ! i"
  proof (rule bit_word_eqI)
    fix k assume "k < LENGTH(8)"
    then have k: "k < 8" by simp
    then have "8 * i + k < 8 * length bs" "(8 * i + k) div 8 = i" "(8 * i + k) mod 8 = k"
      using i by auto
    then show "bit (le_bytes (length bs) (le_word bs :: 'a word) ! i) k = bit (bs ! i) k"
      using i k assms by (simp add: nth_le_bytes bit_simps bit_le_word)
  qed
qed simp

lemma le_bytes_inject:
  "LENGTH('a::len) = 8 * n \<Longrightarrow> le_bytes n v = le_bytes n w \<longleftrightarrow> v = (w :: 'a word)"
  by (metis le_word_le_bytes)

lemma be_word_be_bytes: "LENGTH('a::len) = 8 * n \<Longrightarrow> be_word (be_bytes n (w :: 'a word)) = w"
  by (simp add: be_word_def be_bytes_def le_word_le_bytes)

lemma be_bytes_be_word:
  "LENGTH('a::len) = 8 * length bs \<Longrightarrow> be_bytes (length bs) (be_word bs :: 'a word) = bs"
  using le_bytes_le_word [of "rev bs", where 'a = 'a] by (simp add: be_word_def be_bytes_def)

section \<open>Byte swapping\<close>

text \<open>
  \<open>byteorder.h\<close> maps \<open>ntohll\<close> and \<open>htonll\<close> to glibc's \<open>bswap_64\<close>; \<open>ntohl\<close>, \<open>htonl\<close>, \<open>ntohs\<close> and
  \<open>htons\<close> swap on a little-endian host. The swaps are the shift-and-mask expressions of the C
  library.
\<close>

definition bswap_16 :: "16 word \<Rightarrow> 16 word" where
  "bswap_16 x = drop_bit 8 x OR push_bit 8 x"

definition bswap_32 :: "32 word \<Rightarrow> 32 word" where
  "bswap_32 x =
     drop_bit 24 x OR (drop_bit 8 x AND 0xff00) OR (push_bit 8 x AND 0xff0000) OR push_bit 24 x"

definition bswap_64 :: "64 word \<Rightarrow> 64 word" where
  "bswap_64 x =
     drop_bit 56 x OR (drop_bit 40 x AND 0xff00) OR (drop_bit 24 x AND 0xff0000)
     OR (drop_bit 8 x AND 0xff000000) OR (push_bit 8 x AND 0xff00000000)
     OR (push_bit 24 x AND 0xff0000000000) OR (push_bit 40 x AND 0xff000000000000)
     OR push_bit 56 x"

definition ntohs :: "16 word \<Rightarrow> 16 word" where "ntohs n = bswap_16 n"
definition htons :: "16 word \<Rightarrow> 16 word" where "htons n = bswap_16 n"
definition ntohl :: "32 word \<Rightarrow> 32 word" where "ntohl n = bswap_32 n"
definition htonl :: "32 word \<Rightarrow> 32 word" where "htonl n = bswap_32 n"
definition ntohll :: "64 word \<Rightarrow> 64 word" where "ntohll a = bswap_64 a"
definition htonll :: "64 word \<Rightarrow> 64 word" where "htonll a = bswap_64 a"

text \<open>The masks of the swaps as bit intervals.\<close>

lemma byte_masks:
  "(0xff00 :: 'a::len word) = push_bit 8 (mask 8)"
  "(0xff0000 :: 'a::len word) = push_bit 16 (mask 8)"
  "(0xff000000 :: 'a::len word) = push_bit 24 (mask 8)"
  "(0xff00000000 :: 'a::len word) = push_bit 32 (mask 8)"
  "(0xff0000000000 :: 'a::len word) = push_bit 40 (mask 8)"
  "(0xff000000000000 :: 'a::len word) = push_bit 48 (mask 8)"
  by (simp_all add: mask_eq_exp_minus_1 push_bit_eq_mult)

lemma le_bytes_bswap_16: "le_bytes 2 (bswap_16 x) = rev (le_bytes 2 x)"
  by (auto simp: le_bytes_def bswap_16_def upt_rec intro!: bit_word_eqI) (auto simp: bit_simps)

lemma le_bytes_bswap_32: "le_bytes 4 (bswap_32 x) = rev (le_bytes 4 x)"
  by (auto simp: le_bytes_def bswap_32_def upt_rec byte_masks intro!: bit_word_eqI)
    (auto simp: bit_simps)

lemma le_bytes_bswap_64: "le_bytes 8 (bswap_64 x) = rev (le_bytes 8 x)"
  by (auto simp: le_bytes_def bswap_64_def upt_rec byte_masks intro!: bit_word_eqI)
    (auto simp: bit_simps)

text \<open>Swapping a loaded integer reads the same bytes in the opposite order.\<close>

lemma bswap_le_word:
  "length bs = 2 \<Longrightarrow> bswap_16 (le_word bs) = be_word bs"
  "length bs = 4 \<Longrightarrow> bswap_32 (le_word bs) = be_word bs"
  "length bs = 8 \<Longrightarrow> bswap_64 (le_word bs) = be_word bs"
proof -
  show "bswap_16 (le_word bs) = be_word bs" if "length bs = 2"
    using that le_bytes_le_word [of bs, where 'a = 16] le_bytes_le_word [of "rev bs", where 'a = 16]
    by (simp add: be_word_def le_bytes_bswap_16 flip: le_bytes_inject [of 2, where 'a = 16, simplified])
  show "bswap_32 (le_word bs) = be_word bs" if "length bs = 4"
    using that le_bytes_le_word [of bs, where 'a = 32] le_bytes_le_word [of "rev bs", where 'a = 32]
    by (simp add: be_word_def le_bytes_bswap_32 flip: le_bytes_inject [of 4, where 'a = 32, simplified])
  show "bswap_64 (le_word bs) = be_word bs" if "length bs = 8"
    using that le_bytes_le_word [of bs, where 'a = 64] le_bytes_le_word [of "rev bs", where 'a = 64]
    by (simp add: be_word_def le_bytes_bswap_64 flip: le_bytes_inject [of 8, where 'a = 64, simplified])
qed

lemmas net_defs = ntohs_def htons_def ntohl_def htonl_def ntohll_def htonll_def

text \<open>What is stored after a host-to-network conversion is the big-endian encoding.\<close>

lemma le_bytes_hton [wire]:
  "le_bytes 2 (htons v) = be_bytes 2 v"
  "le_bytes 4 (htonl w) = be_bytes 4 w"
  "le_bytes 8 (htonll x) = be_bytes 8 x"
  by (simp_all add: net_defs be_bytes_def le_bytes_bswap_16 le_bytes_bswap_32 le_bytes_bswap_64)

text \<open>What a network-to-host conversion yields of a loaded integer is its big-endian value.\<close>

lemma ntoh_le_word [wire]:
  "length bs = 2 \<Longrightarrow> ntohs (le_word bs) = be_word bs"
  "length bs = 4 \<Longrightarrow> ntohl (le_word bs) = be_word bs"
  "length bs = 8 \<Longrightarrow> ntohll (le_word bs) = be_word bs"
  by (simp_all add: net_defs bswap_le_word)

lemma be_word_be_bytes_sizes [wire]:
  "be_word (be_bytes 2 v) = (v :: 16 word)"
  "be_word (be_bytes 4 w) = (w :: 32 word)"
  "be_word (be_bytes 8 x) = (x :: 64 word)"
  by (simp_all add: be_word_be_bytes)

section \<open>Fixed-width codecs\<close>

text \<open>
  The interface of a fixed-width field: an encoder, a decoder and their width, inverse to each
  other. The packet layouts rely on nothing else.
\<close>

locale fixed_codec =
  fixes width :: nat and enc :: "'a \<Rightarrow> bytes" and dec :: "bytes \<Rightarrow> 'a"
  assumes length_enc: "length (enc x) = width"
    and dec_enc: "dec (enc x) = x"
    and enc_dec: "length bs = width \<Longrightarrow> enc (dec bs) = bs"
begin

lemma enc_inject: "enc x = enc y \<longleftrightarrow> x = y"
  by (metis dec_enc)

lemma read_enc:
  "off = length xs \<Longrightarrow> bindE (read_bytes (xs @ enc x @ ys) off width) (\<lambda>bs. Inr (dec bs)) = Inr x"
  by (simp add: read_bytes_append length_enc dec_enc)

lemma enc_append_inject: "enc x @ xs = enc y @ ys \<longleftrightarrow> x = y \<and> xs = ys"
  by (simp add: append_eq_same_length length_enc enc_inject)

lemma length_enc_list: "length (concat (map enc xs)) = width * length xs"
  by (induction xs) (auto simp: length_enc)

lemma enc_list_inject:
  "length xs = length ys \<Longrightarrow> concat (map enc xs) = concat (map enc ys) \<longleftrightarrow> xs = ys"
  by (induction xs ys rule: list_induct2) (auto simp: enc_append_inject)

end

text \<open>The conversions the code applies to each field are such codecs.\<close>

interpretation net16: fixed_codec 2 "\<lambda>v. le_bytes 2 (htons v)" "\<lambda>bs. ntohs (le_word bs)"
  using be_bytes_be_word [where 'a = 16] by unfold_locales (simp_all add: wire)

interpretation net32: fixed_codec 4 "\<lambda>w. le_bytes 4 (htonl w)" "\<lambda>bs. ntohl (le_word bs)"
  using be_bytes_be_word [where 'a = 32] by unfold_locales (simp_all add: wire)

interpretation net64: fixed_codec 8 "\<lambda>x. le_bytes 8 (htonll x)" "\<lambda>bs. ntohll (le_word bs)"
  using be_bytes_be_word [where 'a = 64] by unfold_locales (simp_all add: wire)

text \<open>A load from memory, checked against the length of the block.\<close>

definition load :: "nat \<Rightarrow> bytes \<Rightarrow> nat \<Rightarrow> 'a::len word result" where
  "load n buf off = bindE (read_bytes buf off n) (\<lambda>bs. Inr (le_word bs))"

text \<open>
  C30. What the conversion of a 16-, 32- or 64-bit number to network byte order leaves in memory is its
  big-endian encoding; loading a big-endian encoding from memory and converting it to host byte order
  yields the number, so the two conversions are inverse to each other.
\<close>

theorem network_byte_order:
  "(le_bytes 2 (htons v) = be_bytes 2 v \<and> ntohs (le_word (be_bytes 2 v)) = v \<and> ntohs (htons v) = v \<and> htons (ntohs v) = v) \<and>
   (le_bytes 4 (htonl w) = be_bytes 4 w \<and> ntohl (le_word (be_bytes 4 w)) = w \<and> ntohl (htonl w) = w \<and> htonl (ntohl w) = w) \<and>
   (le_bytes 8 (htonll x) = be_bytes 8 x \<and> ntohll (le_word (be_bytes 8 x)) = x \<and> ntohll (htonll x) = x \<and> htonll (ntohll x) = x)"
proof (intro conjI)
  show "htons (ntohs v) = v" using net16.dec_enc [of v] by (simp add: le_word_le_bytes net_defs)
  show "htonl (ntohl w) = w" using net32.dec_enc [of w] by (simp add: le_word_le_bytes net_defs)
  show "htonll (ntohll x) = x" using net64.dec_enc [of x] by (simp add: le_word_le_bytes net_defs)
  show "ntohs (htons v) = v" using net16.dec_enc [of v] by (simp add: le_word_le_bytes)
  show "ntohl (htonl w) = w" using net32.dec_enc [of w] by (simp add: le_word_le_bytes)
  show "ntohll (htonll x) = x" using net64.dec_enc [of x] by (simp add: le_word_le_bytes)
qed (simp_all add: wire)

text \<open>The numbers of the repository's own test of the 64-bit conversions.\<close>

lemma byteorder_test:
  "htonll 4497486125440 = (- 9216317402361102336 :: 64 word)"
  "ntohll (- 9216317402361102336) = (4497486125440 :: 64 word)"
  by (simp_all add: net_defs bswap_64_def)

end
