(* ===== verification/Bt_Random.thy ===== *)
theory Bt_Random
  imports Complex_Main "HOL-Library.Log_Nat" Bt_Byteorder
begin

text \<open>
  \<open>random.c\<close>: random connection identifiers and random indices. \<open>randr\<close> computes in \<open>double\<close>, so
  the IEEE binary64 rounding of each operation is written out; the range of its result depends on
  it.
\<close>

unbundle bit_operations_syntax

section \<open>Random connection identifiers\<close>

text \<open>\<open>(char)((rand() & 0x0FF0) >> 4)\<close>\<close>

definition rand_byte :: "nat \<Rightarrow> byte" where
  "rand_byte r = of_nat (drop_bit 4 (r AND 0x0FF0))"

text \<open>The loop over the bytes of \<open>ran\<close>, lowest address first.\<close>

fun random_bytes :: "nat \<Rightarrow> 's world \<Rightarrow> bytes \<times> 's world" where
  "random_bytes 0 w = ([], w)"
| "random_bytes (Suc n) w =
     (let (r, w1) = c_rand w; (bs, w2) = random_bytes n w1 in (rand_byte r # bs, w2))"

definition bt_random_int64 :: "'s world \<Rightarrow> 64 word \<times> 's world" where
  "bt_random_int64 w = (let (bs, w') = random_bytes 8 w in (le_word bs, w'))"

lemma random_bytes_eq:
  "random_bytes n w =
     (map (\<lambda>i. rand_byte (rand_seq w (rand_pos w + i))) [0..<n], w\<lparr>rand_pos := rand_pos w + n\<rparr>)"
proof (induction n arbitrary: w)
  case 0
  then show ?case by simp
next
  case (Suc n)
  have "map (\<lambda>i. rand_byte (rand_seq w (rand_pos w + i))) [0..<Suc n] =
      rand_byte (rand_seq w (rand_pos w)) #
      map (\<lambda>i. rand_byte (rand_seq w (Suc (rand_pos w) + i))) [0..<n]"
    by (simp add: upt_conv_Cons o_def del: upt_Suc flip: map_Suc_upt)
  then show ?case
    by (simp add: Suc c_rand_def Let_def del: upt_Suc)
qed

lemma rand_byte_shift: "rand_byte (16 * unat b) = b"
proof -
  have shift: "16 * unat b = push_bit 4 (unat b)" "(0x0FF0 :: nat) = push_bit 4 (mask 8)"
    by (simp_all add: push_bit_eq_mult mask_eq_exp_minus_1)
  have "rand_byte (16 * unat b) = of_nat (drop_bit 4 (push_bit 4 (unat b AND mask 8)))"
    by (simp only: rand_byte_def shift push_bit_and)
  also have "drop_bit 4 (push_bit 4 (unat b AND mask 8)) = take_bit 8 (unat b)"
    by (simp add: take_bit_eq_mask drop_bit_eq_div push_bit_eq_mult)
  also have "take_bit 8 (unat b) = unat b"
    using unsigned_less [of b] by (simp add: take_bit_nat_eq_self_iff)
  finally show ?thesis by simp
qed

text \<open>
  Every 64-bit connection identifier can be generated, already by a \<open>rand()\<close> of 12 bits of
  precision as the comment in \<open>bt_random_int64\<close> assumes, and generating one consumes eight calls of
  \<open>rand()\<close> and touches nothing else.
\<close>

lemma bt_random_int64_surj:
  "\<exists>draws. (\<forall>i. draws i < 2 ^ 12) \<and>
     (\<forall>w :: 's world. bt_random_int64 (w\<lparr>rand_seq := draws, rand_pos := 0\<rparr>) =
        (conn_id, w\<lparr>rand_seq := draws, rand_pos := 8\<rparr>))"
proof (intro exI conjI allI)
  let ?draws = "\<lambda>i. 16 * unat ((if i < 8 then le_bytes 8 conn_id ! i else 0) :: byte)"
  show "?draws i < 2 ^ 12" for i
    using unsigned_less [of "(if i < 8 then le_bytes 8 conn_id ! i else 0) :: byte"] by simp
  fix w :: "'s world"
  have "map (\<lambda>i. rand_byte (?draws i)) [0..<8] = map (\<lambda>i. le_bytes 8 conn_id ! i) [0..<8]"
    by (intro map_cong refl) (simp add: rand_byte_shift del: mult_numeral_left)
  also have "\<dots> = le_bytes 8 conn_id"
    using map_nth [of "le_bytes 8 conn_id"] by simp
  finally show "bt_random_int64 (w\<lparr>rand_seq := ?draws, rand_pos := 0\<rparr>) =
      (conn_id, w\<lparr>rand_seq := ?draws, rand_pos := 8\<rparr>)"
    by (simp add: bt_random_int64_def random_bytes_eq le_word_le_bytes)
qed

section \<open>Double precision\<close>

text \<open>
  Round to nearest, ties to even, with a significand of 53 bits. The numbers \<open>randr\<close> computes are
  zero or between \<open>2\<^sup>-\<^sup>3\<^sup>1\<close> and \<open>2\<^sup>3\<^sup>3\<close>, so neither overflow nor subnormals arise.
\<close>

definition ilog2 :: "rat \<Rightarrow> int" where
  "ilog2 x =
     (let (p, q) = quotient_of x; k = int (floorlog 2 (nat p)) - int (floorlog 2 (nat q))
      in if 2 powi k \<le> x then k else k - 1)"

definition round_even :: "rat \<Rightarrow> int" where
  "round_even x =
     (let f = \<lfloor>x\<rfloor>; d = x - of_int f
      in if d < 1 / 2 then f else if 1 / 2 < d then f + 1 else if even f then f else f + 1)"

definition round_double :: "rat \<Rightarrow> rat" where
  "round_double x =
     (if x = 0 then 0
      else let u = 2 powi (ilog2 x - 52) in of_int (round_even (x / u)) * u)"

lemma ilog2_bounds:
  assumes "0 < x"
  shows "2 powi ilog2 x \<le> x" and "x < 2 powi (ilog2 x + 1)"
proof -
  obtain p q where pq: "quotient_of x = (p, q)" by fastforce
  have q: "0 < q" using quotient_of_denom_pos [OF pq] .
  have x: "x = of_int p / of_int q" using quotient_of_div [OF pq] .
  have p: "0 < p" using assms q unfolding x by (simp add: zero_less_divide_iff)
  define a b where "a = floorlog 2 (nat p) - 1" and "b = floorlog 2 (nat q) - 1"
  have fa: "floorlog 2 (nat p) = Suc a" and fb: "floorlog 2 (nat q) = Suc b"
    using p q floorlog_eq_zero_iff [of 2 "nat p"] floorlog_eq_zero_iff [of 2 "nat q"]
    by (auto simp: a_def b_def)
  have na: "2 ^ a \<le> nat p \<and> nat p < 2 ^ Suc a" and nb: "2 ^ b \<le> nat q \<and> nat q < 2 ^ Suc b"
    using floorlog_bounds [of "nat p" 2] floorlog_bounds [of "nat q" 2] p q fa fb by auto
  have ra: "(2 :: rat) ^ a \<le> of_int p" "of_int p < (2 :: rat) ^ Suc a"
    and rb: "(2 :: rat) ^ b \<le> of_int q" "of_int q < (2 :: rat) ^ Suc b"
    using na nb p q
    by (metis int_nat_eq less_imp_le of_int_of_nat_eq of_nat_le_iff of_nat_less_iff of_nat_numeral of_nat_power)+
  let ?k = "int a - int b"
  have up: "x < 2 powi (?k + 1)"
  proof -
    have "of_int p / of_int q < (2 :: rat) ^ Suc a / 2 ^ b"
      using ra rb p q by (intro frac_less) auto
    then show ?thesis by (simp add: x power_int_diff power_int_add mult.commute)
  qed
  have lo: "2 powi (?k - 1) < x"
  proof -
    have "(2 :: rat) ^ a / 2 ^ Suc b < of_int p / of_int q"
      using ra rb p q by (intro frac_less2) auto
    then show ?thesis by (simp add: x power_int_diff)
  qed
  have il: "ilog2 x = (if 2 powi ?k \<le> x then ?k else ?k - 1)"
    by (simp add: ilog2_def pq fa fb)
  show "2 powi ilog2 x \<le> x" using lo by (auto simp: il)
  show "x < 2 powi (ilog2 x + 1)" using up by (auto simp: il)
qed

lemma round_even_mono: "x \<le> y \<Longrightarrow> round_even x \<le> round_even y"
proof -
  assume xy: "x \<le> y"
  then have f: "\<lfloor>x\<rfloor> \<le> \<lfloor>y\<rfloor>" by (rule floor_mono)
  show ?thesis
  proof (cases "\<lfloor>x\<rfloor> = \<lfloor>y\<rfloor>")
    case True
    with xy show ?thesis by (auto simp: round_even_def Let_def)
  next
    case False
    with f have "\<lfloor>x\<rfloor> + 1 \<le> \<lfloor>y\<rfloor>" by simp
    moreover have "round_even x \<le> \<lfloor>x\<rfloor> + 1" "\<lfloor>y\<rfloor> \<le> round_even y"
      by (auto simp: round_even_def Let_def)
    ultimately show ?thesis by linarith
  qed
qed

lemma round_even_of_int [simp]: "round_even (of_int k) = k"
  by (simp add: round_even_def)

text \<open>A scaled significand stays between \<open>2\<^sup>5\<^sup>2\<close> and \<open>2\<^sup>5\<^sup>3\<close>.\<close>

lemma round_double_binade:
  assumes "0 < x"
  shows "2 powi ilog2 x \<le> round_double x" and "round_double x \<le> 2 powi (ilog2 x + 1)"
proof -
  let ?u = "(2 :: rat) powi (ilog2 x - 52)"
  have u: "0 < ?u" by simp
  have eq: "round_double x = of_int (round_even (x / ?u)) * ?u"
    using assms by (simp add: round_double_def Let_def)
  have split: "(2 :: rat) powi ilog2 x = of_int (2 ^ 52) * ?u"
    "(2 :: rat) powi (ilog2 x + 1) = of_int (2 ^ 53) * ?u"
    by (simp_all add: power_int_diff power_int_add)
  have "of_int (2 ^ 52) \<le> x / ?u" "x / ?u \<le> of_int (2 ^ 53)"
    using ilog2_bounds [OF assms] u unfolding split by (simp_all add: field_simps)
  then have "2 ^ 52 \<le> round_even (x / ?u)" "round_even (x / ?u) \<le> 2 ^ 53"
    using round_even_mono [of "of_int (2 ^ 52)" "x / ?u"]
      round_even_mono [of "x / ?u" "of_int (2 ^ 53)"] by (simp_all only: round_even_of_int)
  then show "2 powi ilog2 x \<le> round_double x" "round_double x \<le> 2 powi (ilog2 x + 1)"
    unfolding eq split using u by (simp_all only: mult_le_cancel_right_pos of_int_le_iff)
qed

lemma round_double_mono:
  assumes "0 \<le> x" "x \<le> y"
  shows "round_double x \<le> round_double y"
proof (cases "x = 0 \<or> ilog2 x = ilog2 y")
  case True
  then consider "x = 0" "y = 0" | "x = 0" "0 < y" | "0 < x" "ilog2 x = ilog2 y"
    using assms by fastforce
  then show ?thesis
  proof cases
    case 2
    then show ?thesis
      using round_double_binade(1) [of y] by (simp add: round_double_def order.trans [rotated])
  next
    case 3
    let ?u = "(2 :: rat) powi (ilog2 y - 52)"
    have "x / ?u \<le> y / ?u" using assms by (simp add: divide_right_mono)
    then show ?thesis
      using 3 assms by (simp add: round_double_def Let_def round_even_mono)
  qed simp
next
  case False
  then have pos: "0 < x" "0 < y" and ne: "ilog2 x \<noteq> ilog2 y" using assms by auto
  have "(2 :: rat) powi ilog2 x < 2 powi (ilog2 y + 1)"
    using ilog2_bounds(1) [OF pos(1)] ilog2_bounds(2) [OF pos(2)] assms by simp
  then have "ilog2 x < ilog2 y + 1"
    by (metis linorder_not_less power_int_increasing one_le_numeral order.strict_iff_not)
  with ne have "ilog2 x + 1 \<le> ilog2 y" by simp
  then have "(2 :: rat) powi (ilog2 x + 1) \<le> 2 powi ilog2 y" by (simp add: power_int_increasing)
  then show ?thesis
    using round_double_binade(2) [OF pos(1)] round_double_binade(1) [OF pos(2)] by linarith
qed

text \<open>Multiples of \<open>2\<^sup>-\<^sup>3\<^sup>1\<close> with at most 53 significant bits are represented exactly.\<close>

lemma round_double_exact:
  assumes "k < 2 ^ 53"
  shows "round_double (of_nat k / 2 ^ 31) = of_nat k / 2 ^ 31"
proof (cases "k = 0")
  case True
  then show ?thesis by (simp add: round_double_def)
next
  case False
  let ?x = "of_nat k / 2 ^ 31 :: rat"
  have pos: "0 < ?x" using False by simp
  have "of_nat k < (of_nat (2 ^ 53) :: rat)" using assms by (simp only: of_nat_less_iff)
  then have "?x < 2 powi 22" by (simp add: field_simps)
  then have "(2 :: rat) powi ilog2 ?x < 2 powi 22" using ilog2_bounds(1) [OF pos] by simp
  then have "ilog2 ?x < 22"
    by (metis linorder_not_less power_int_increasing one_le_numeral order.strict_iff_not)
  then obtain j where j: "ilog2 ?x = 21 - int j"
    by (intro that [of "nat (21 - ilog2 ?x)"]) simp
  have "?x / 2 powi (ilog2 ?x - 52) = of_int (int k * 2 ^ j)"
    unfolding j by (simp add: power_int_diff power_int_minus field_simps)
  then have "round_double ?x = of_int (int k * 2 ^ j) * 2 powi (ilog2 ?x - 52)"
    using False unfolding round_double_def Let_def by (simp only: round_even_of_int) simp
  then show ?thesis unfolding j by (simp add: power_int_diff)
qed

section \<open>Random indices\<close>

definition RAND_MAX :: nat where
  "RAND_MAX = 2147483647"

text \<open>
  \<open>double scaled = (double) rand() / RAND_MAX; return (max - min+1) * scaled + min;\<close>
  The difference wraps around as \<open>uint32_t\<close> arithmetic does; the result is truncated.
\<close>

definition randr :: "32 word \<Rightarrow> 32 word \<Rightarrow> 's world \<Rightarrow> 32 word \<times> 's world" where
  "randr lo hi w =
     (let (r, w') = c_rand w;
          scaled = round_double (of_nat r / of_nat RAND_MAX);
          scaled_range = round_double (of_nat (unat (hi - lo + 1)) * scaled)
      in (word_of_int \<lfloor>round_double (scaled_range + of_nat (unat lo))\<rfloor>, w'))"

lemma range_size:
  assumes "lo \<le> hi" "unat hi < 2 ^ 22 - 1"
  shows "unat (hi - lo + 1 :: 32 word) = unat hi - unat lo + 1"
proof -
  have "unat (hi - lo) = unat hi - unat lo" using assms(1) by (rule unat_sub)
  then have "unat (hi - lo) + 1 < 2 ^ 32" using assms(2) by simp
  then show ?thesis
    using unat_add_lem [of "hi - lo" 1] \<open>unat (hi - lo) = unat hi - unat lo\<close> by simp
qed

text \<open>The exact values between which the rounded ones lie.\<close>

lemma scaled_below_one:
  assumes "r < RAND_MAX"
  shows "0 \<le> round_double (of_nat r / of_nat RAND_MAX)"
    and "round_double (of_nat r / of_nat RAND_MAX) \<le> of_nat (2 ^ 31 - 1) / 2 ^ 31"
proof -
  show "0 \<le> round_double (of_nat r / of_nat RAND_MAX)"
    using round_double_mono [of 0 "of_nat r / of_nat RAND_MAX"] by (simp add: round_double_def)
  have "of_nat r \<le> (of_nat (RAND_MAX - 1) :: rat)" using assms by (simp only: of_nat_le_iff)
  then have "of_nat r / of_nat RAND_MAX \<le> (of_nat (2 ^ 31 - 1) / 2 ^ 31 :: rat)"
    by (simp add: RAND_MAX_def field_simps)
  then have "round_double (of_nat r / of_nat RAND_MAX) \<le> round_double (of_nat (2 ^ 31 - 1) / 2 ^ 31)"
    by (intro round_double_mono) simp_all
  then show "round_double (of_nat r / of_nat RAND_MAX) \<le> of_nat (2 ^ 31 - 1) / 2 ^ 31"
    using round_double_exact [of "2 ^ 31 - 1"] by simp
qed

lemma round_double_of_nat:
  assumes "n \<le> 2 ^ 22 - 1"
  shows "round_double (of_nat n) = of_nat n"
  using round_double_exact [of "n * 2 ^ 31"] assms by simp

lemma rounded_index_bounds:
  fixes n l :: nat
  assumes r: "r < RAND_MAX" and n: "0 < n" "n + l < 2 ^ 22"
  defines "v \<equiv> round_double (round_double (of_nat n * round_double (of_nat r / of_nat RAND_MAX)) + of_nat l)"
  shows "of_nat l \<le> v" and "v < of_nat (n + l)"
proof -
  let ?s = "round_double (of_nat r / of_nat RAND_MAX)"
  let ?p = "round_double (of_nat n * ?s)"
  note s = scaled_below_one [OF r]
  have p0: "0 \<le> ?p"
    using round_double_mono [of 0 "of_nat n * ?s"] s(1) by (simp add: round_double_def)
  then show "of_nat l \<le> v"
    using round_double_mono [of "of_nat l" "?p + of_nat l"] n(2)
    by (simp add: v_def round_double_of_nat)
  have "of_nat n * ?s \<le> of_nat n * (of_nat (2 ^ 31 - 1) / 2 ^ 31)"
    using s(2) by (intro mult_left_mono) auto
  also have "\<dots> = of_nat (n * (2 ^ 31 - 1)) / 2 ^ 31" by simp
  finally have "?p \<le> round_double (of_nat (n * (2 ^ 31 - 1)) / 2 ^ 31)"
    using s(1) by (intro round_double_mono) auto
  also have "\<dots> = of_nat (n * (2 ^ 31 - 1)) / 2 ^ 31"
    using n by (intro round_double_exact) simp
  finally have p: "?p + of_nat l \<le> of_nat (n * (2 ^ 31 - 1)) / 2 ^ 31 + of_nat l" by simp
  also have "\<dots> = of_nat (n * (2 ^ 31 - 1) + l * 2 ^ 31) / 2 ^ 31" by (simp add: field_simps)
  finally have "v \<le> round_double (of_nat (n * (2 ^ 31 - 1) + l * 2 ^ 31) / 2 ^ 31)"
    unfolding v_def using p0 by (intro round_double_mono) auto
  also have "\<dots> = of_nat (n * (2 ^ 31 - 1) + l * 2 ^ 31) / 2 ^ 31"
    using n by (intro round_double_exact) simp
  also have "\<dots> < of_nat (n + l)" using n by (simp add: field_simps)
  finally show "v < of_nat (n + l)" .
qed

lemma rounded_index_max:
  assumes "n + l < 2 ^ 22"
  shows "round_double (round_double (of_nat n * round_double (of_nat RAND_MAX / of_nat RAND_MAX)) + of_nat l)
    = of_nat (n + l)"
proof -
  have "of_nat RAND_MAX / of_nat RAND_MAX = (of_nat 1 :: rat)" by (simp add: RAND_MAX_def)
  moreover have "round_double (of_nat 1) = of_nat 1" by (rule round_double_of_nat) simp
  ultimately have one: "round_double (of_nat RAND_MAX / of_nat RAND_MAX) = of_nat 1"
    by (simp only:)
  show ?thesis using assms by (simp only: one round_double_of_nat flip: of_nat_mult of_nat_add)
qed

lemma unat_word_of_int_range:
  assumes "0 \<le> k" "k < 2 ^ 32"
  shows "unat (word_of_int k :: 32 word) = nat k"
  using assms by (simp add: unat_eq_nat_uint uint_word_of_int)

lemma randr_bounds:
  assumes "lo \<le> hi" "unat hi < 2 ^ 22 - 1" "rand_seq w (rand_pos w) < RAND_MAX"
  shows "lo \<le> fst (randr lo hi w) \<and> fst (randr lo hi w) \<le> hi"
proof -
  define n l r where "n = unat (hi - lo + 1)" and "l = unat lo" and "r = rand_seq w (rand_pos w)"
  define v where
    "v = round_double (round_double (of_nat n * round_double (of_nat r / of_nat RAND_MAX)) + of_nat l)"
  have n: "n + l = unat hi + 1" "0 < n"
    using range_size [OF assms(1,2)] assms(1) by (simp_all add: word_le_nat_alt n_def l_def)
  then have "of_nat l \<le> v" "v < of_nat (unat hi + 1)"
    using rounded_index_bounds [of r n l] assms(2,3) by (simp_all add: r_def v_def)
  then have v: "int l \<le> \<lfloor>v\<rfloor>" "\<lfloor>v\<rfloor> \<le> int (unat hi)"
    by (simp_all add: le_floor_iff floor_le_iff del: of_nat_unat)
  moreover have "fst (randr lo hi w) = word_of_int \<lfloor>v\<rfloor>"
    by (simp add: randr_def c_rand_def Let_def n_def l_def r_def v_def)
  moreover have "int (unat hi) < 2 ^ 32" using assms(2) by (simp del: of_nat_unat)
  then have "unat (word_of_int \<lfloor>v\<rfloor> :: 32 word) = nat \<lfloor>v\<rfloor>"
    using v by (intro unat_word_of_int_range) linarith+
  ultimately show ?thesis
    by (simp add: word_le_nat_alt nat_le_iff le_nat_iff l_def del: of_nat_unat)
qed



text \<open>
  C40. When \<open>rand()\<close> returns \<open>RAND_MAX\<close>, \<open>randr\<close> exceeds the documented inclusive upper bound by
  one.
\<close>

theorem randr_overshoots:
  assumes "lo \<le> hi" "unat hi < 2 ^ 22 - 1" "rand_seq w (rand_pos w) = RAND_MAX"
  shows "fst (randr lo hi w) = hi + 1"
proof -
  have n: "unat (hi - lo + 1) + unat lo = unat hi + 1"
    using range_size [OF assms(1,2)] assms(1) by (simp add: word_le_nat_alt)
  have "fst (randr lo hi w) = word_of_int \<lfloor>of_nat (unat (hi - lo + 1) + unat lo) :: rat\<rfloor>"
    using rounded_index_max [of "unat (hi - lo + 1)" "unat lo"] n assms(2,3)
    by (simp add: randr_def c_rand_def Let_def del: of_nat_unat of_nat_add)
  also have "\<dots> = of_nat (unat hi + 1)"
    by (simp only: n floor_of_nat of_int_of_nat_eq)
  also have "\<dots> = hi + 1" by simp
  finally show ?thesis .
qed

theorem randr_overshoots_witness:
  "fst (randr 3 10 (quiet_world ()\<lparr>rand_seq := \<lambda>_. RAND_MAX\<rparr>)) = 11"
  using randr_overshoots [of 3 10 "quiet_world ()\<lparr>rand_seq := \<lambda>_. RAND_MAX\<rparr>"] by simp

end
