(* ===== verification/Bt_Redis.thy ===== *)
theory Bt_Redis
  imports Bt_Byteorder
begin

text \<open>
  The interface to Redis. Neither the server nor the hiredis client library is part of the
  repository: the functions of hiredis the tracker calls are the fields of a record that every
  function of \<open>data.c\<close> takes as its first argument, and the locales below state, as the
  documentation of the commands does, what the tracker relies on.
\<close>

section \<open>Replies and commands\<close>

datatype reply_type =
    REDIS_REPLY_STRING
  | REDIS_REPLY_ARRAY
  | REDIS_REPLY_INTEGER
  | REDIS_REPLY_NIL
  | REDIS_REPLY_STATUS
  | REDIS_REPLY_ERROR

text \<open>
  The reply structure of hiredis. The C code reads \<open>str\<close>, \<open>integer\<close> and \<open>elements\<close> without always
  looking at the type first, so all the fields are there whatever the type; \<open>elements\<close> is the
  length of the list of elements, and \<open>str\<close> is \<open>NULL\<close> (\<open>None\<close>) in a reply that carries no text.
\<close>

datatype redisReply =
  redisReply (rtype: reply_type) (rinteger: int) (rstr: "bytes option") (relement: "redisReply list")

definition string_reply :: "bytes \<Rightarrow> redisReply" where
  "string_reply s = redisReply REDIS_REPLY_STRING 0 (Some s) []"

definition status_reply :: "bytes \<Rightarrow> redisReply" where
  "status_reply s = redisReply REDIS_REPLY_STATUS 0 (Some s) []"

definition error_reply :: "bytes \<Rightarrow> redisReply" where
  "error_reply s = redisReply REDIS_REPLY_ERROR 0 (Some s) []"

definition nil_reply :: redisReply where
  "nil_reply = redisReply REDIS_REPLY_NIL 0 None []"

definition integer_reply :: "int \<Rightarrow> redisReply" where
  "integer_reply n = redisReply REDIS_REPLY_INTEGER n None []"

definition array_reply :: "redisReply list \<Rightarrow> redisReply" where
  "array_reply rs = redisReply REDIS_REPLY_ARRAY 0 None rs"

lemmas reply_defs =
  string_reply_def status_reply_def error_reply_def nil_reply_def integer_reply_def array_reply_def

text \<open>
  The commands of the tracker's format strings, with the arguments hiredis interpolates into them;
  a \<open>%d\<close> argument is the integer it prints.
\<close>

datatype redis_command =
    PING
  | SELECT int
  | SETEX bytes int bytes
  | GET bytes
  | DEL bytes
  | RENAME bytes bytes
  | HINCRBY bytes bytes int
  | HGET bytes bytes
  | SISMEMBER bytes bytes
  | KEYS bytes

section \<open>The functions of hiredis\<close>

text \<open>
  \<open>'c\<close> is the type of connection handles (\<open>redisContext *\<close>), \<open>'s\<close> the state of the server and its
  connections. A reply of \<open>None\<close> is a \<open>NULL\<close> reply of \<open>redisCommand\<close>, or a result other than
  \<open>REDIS_OK\<close> of \<open>redisGetReply\<close>. A time-out is given in seconds and microseconds.
\<close>

record ('c, 's) hiredis_api =
  redisConnectUnixWithTimeout :: "bytes \<Rightarrow> int \<times> int \<Rightarrow> 's \<Rightarrow> 'c option \<times> 's"
  redisConnectWithTimeout :: "bytes option \<Rightarrow> int \<Rightarrow> int \<times> int \<Rightarrow> 's \<Rightarrow> 'c option \<times> 's"
  redis_err :: "'c \<Rightarrow> 's \<Rightarrow> bool"
  redisFree :: "'c \<Rightarrow> 's \<Rightarrow> 's"
  redisCommand :: "'c \<Rightarrow> redis_command \<Rightarrow> 's \<Rightarrow> redisReply option \<times> 's"
  redisAppendCommand :: "'c \<Rightarrow> redis_command \<Rightarrow> 's \<Rightarrow> 's"
  redisGetReply :: "'c \<Rightarrow> 's \<Rightarrow> redisReply option \<times> 's"

text \<open>The same calls on the process state.\<close>

definition redis_command :: "('c, 's) hiredis_api \<Rightarrow> 'c \<Rightarrow> redis_command \<Rightarrow> 's world \<Rightarrow>
    redisReply option \<times> 's world" where
  "redis_command api c cmd w =
     (let (r, s) = redisCommand api c cmd (server w) in (r, w\<lparr>server := s\<rparr>))"

definition append_command :: "('c, 's) hiredis_api \<Rightarrow> 'c \<Rightarrow> redis_command \<Rightarrow> 's world \<Rightarrow> 's world" where
  "append_command api c cmd w = w\<lparr>server := redisAppendCommand api c cmd (server w)\<rparr>"

definition get_reply :: "('c, 's) hiredis_api \<Rightarrow> 'c \<Rightarrow> 's world \<Rightarrow> redisReply option \<times> 's world" where
  "get_reply api c w = (let (r, s) = redisGetReply api c (server w) in (r, w\<lparr>server := s\<rparr>))"

section \<open>Documented behaviour of the commands\<close>

text \<open>
  The database a connection has selected: every live key with its value and, if it is to expire,
  the number of seconds it has left.
\<close>

datatype redis_value =
    RString bytes
  | RHash "bytes \<rightharpoonup> bytes"
  | RSet "bytes set"

type_synonym redis_db = "bytes \<rightharpoonup> redis_value \<times> nat option"

text \<open>Integers are stored as decimal text.\<close>

fun digits_of_nat :: "nat \<Rightarrow> bytes" where
  "digits_of_nat n =
     (if n < 10 then [of_nat (48 + n)] else digits_of_nat (n div 10) @ [of_nat (48 + n mod 10)])"

declare digits_of_nat.simps [simp del]

definition decimal :: "int \<Rightarrow> bytes" where
  "decimal k = (if k < 0 then 45 # digits_of_nat (nat (- k)) else digits_of_nat (nat k))"

definition is_int64 :: "int \<Rightarrow> bool" where
  "is_int64 k \<longleftrightarrow> - (2 ^ 63) \<le> k \<and> k < 2 ^ 63"

text \<open>A pattern without the special characters of glob patterns: \<open>*\<close>, \<open>?\<close>, \<open>[\<close> and backslash.\<close>

definition glob_free :: "bytes \<Rightarrow> bool" where
  "glob_free p \<longleftrightarrow> 42 \<notin> set p \<and> 63 \<notin> set p \<and> 91 \<notin> set p \<and> 92 \<notin> set p"

lemma glob_free_simps [simp]:
  "glob_free []"
  "glob_free (b # p) \<longleftrightarrow> b \<noteq> 42 \<and> b \<noteq> 63 \<and> b \<noteq> 91 \<and> b \<noteq> 92 \<and> glob_free p"
  "glob_free (p @ q) \<longleftrightarrow> glob_free p \<and> glob_free q"
  by (auto simp: glob_free_def)

definition keys_with_prefix :: "redis_db \<Rightarrow> bytes \<Rightarrow> bytes set" where
  "keys_with_prefix d p = {k \<in> dom d. \<exists>rest. k = p @ rest}"

text \<open>
  \<open>redis_ok d cmd r d'\<close>: executing \<open>cmd\<close> on the database \<open>d\<close> answers \<open>r\<close> and leaves \<open>d'\<close>. An error
  reply carries an unspecified message. The order of the keys \<open>KEYS\<close> returns is unspecified, and
  patterns with special characters elsewhere than in a final \<open>*\<close> are not described.
\<close>

inductive redis_ok :: "redis_db \<Rightarrow> redis_command \<Rightarrow> redisReply \<Rightarrow> redis_db \<Rightarrow> bool" where
  ping: "redis_ok d PING (status_reply (str ''PONG'')) d"
| setex: "0 < t \<Longrightarrow>
    redis_ok d (SETEX k t v) (status_reply (str ''OK'')) (d(k \<mapsto> (RString v, Some (nat t))))"
| setex_invalid: "t \<le> 0 \<Longrightarrow> redis_ok d (SETEX k t v) (error_reply m) d"
| get: "d k = Some (RString v, t) \<Longrightarrow> redis_ok d (GET k) (string_reply v) d"
| get_missing: "d k = None \<Longrightarrow> redis_ok d (GET k) nil_reply d"
| get_wrongtype: "d k = Some (x, t) \<Longrightarrow> (\<forall>v. x \<noteq> RString v) \<Longrightarrow> redis_ok d (GET k) (error_reply m) d"
| del: "redis_ok d (DEL k) (integer_reply (if k \<in> dom d then 1 else 0)) (d(k := None))"
| rename: "d k = Some e \<Longrightarrow>
    redis_ok d (RENAME k k') (status_reply (str ''OK'')) ((d(k := None))(k' \<mapsto> e))"
| rename_missing: "d k = None \<Longrightarrow> redis_ok d (RENAME k k') (error_reply m) d"
| hincrby: "d k = Some (RHash h, t) \<Longrightarrow> h f = Some (decimal n) \<Longrightarrow> is_int64 n \<Longrightarrow> is_int64 (n + i) \<Longrightarrow>
    redis_ok d (HINCRBY k f i) (integer_reply (n + i)) (d(k \<mapsto> (RHash (h(f \<mapsto> decimal (n + i))), t)))"
| hincrby_overflow: "d k = Some (RHash h, t) \<Longrightarrow> h f = Some (decimal n) \<Longrightarrow>
    \<not> (is_int64 n \<and> is_int64 (n + i)) \<Longrightarrow> redis_ok d (HINCRBY k f i) (error_reply m) d"
| hincrby_new_field: "d k = Some (RHash h, t) \<Longrightarrow> h f = None \<Longrightarrow>
    redis_ok d (HINCRBY k f i) (integer_reply i) (d(k \<mapsto> (RHash (h(f \<mapsto> decimal i)), t)))"
| hincrby_new_key: "d k = None \<Longrightarrow>
    redis_ok d (HINCRBY k f i) (integer_reply i) (d(k \<mapsto> (RHash [f \<mapsto> decimal i], None)))"
| hincrby_not_integer: "d k = Some (RHash h, t) \<Longrightarrow> h f = Some v \<Longrightarrow> (\<forall>n. v \<noteq> decimal n) \<Longrightarrow>
    redis_ok d (HINCRBY k f i) (error_reply m) d"
| hincrby_wrongtype: "d k = Some (x, t) \<Longrightarrow> (\<forall>h. x \<noteq> RHash h) \<Longrightarrow>
    redis_ok d (HINCRBY k f i) (error_reply m) d"
| hget: "d k = Some (RHash h, t) \<Longrightarrow> h f = Some v \<Longrightarrow> redis_ok d (HGET k f) (string_reply v) d"
| hget_missing: "d k = None \<or> (\<exists>h t. d k = Some (RHash h, t) \<and> h f = None) \<Longrightarrow>
    redis_ok d (HGET k f) nil_reply d"
| hget_wrongtype: "d k = Some (x, t) \<Longrightarrow> (\<forall>h. x \<noteq> RHash h) \<Longrightarrow> redis_ok d (HGET k f) (error_reply m) d"
| sismember: "d k = None \<and> n = 0 \<or> (\<exists>A t. d k = Some (RSet A, t) \<and> n = (if x \<in> A then 1 else 0)) \<Longrightarrow>
    redis_ok d (SISMEMBER k x) (integer_reply n) d"
| sismember_wrongtype: "d k = Some (y, t) \<Longrightarrow> (\<forall>A. y \<noteq> RSet A) \<Longrightarrow>
    redis_ok d (SISMEMBER k x) (error_reply m) d"
| keys: "glob_free p \<Longrightarrow> distinct ks \<Longrightarrow> set ks = keys_with_prefix d p \<Longrightarrow>
    redis_ok d (KEYS (p @ [42])) (array_reply (map string_reply ks)) d"
| keys_glob: "(\<nexists>p. glob_free p \<and> q = p @ [42]) \<Longrightarrow> redis_ok d (KEYS q) r d"

inductive_cases redis_ok_PING [elim!]: "redis_ok d PING r d'"
inductive_cases redis_ok_SETEX [elim!]: "redis_ok d (SETEX k t v) r d'"
inductive_cases redis_ok_GET [elim!]: "redis_ok d (GET k) r d'"
inductive_cases redis_ok_DEL [elim!]: "redis_ok d (DEL k) r d'"
inductive_cases redis_ok_RENAME [elim!]: "redis_ok d (RENAME k k') r d'"
inductive_cases redis_ok_HINCRBY [elim]: "redis_ok d (HINCRBY k f i) r d'"
inductive_cases redis_ok_HGET [elim]: "redis_ok d (HGET k f) r d'"
inductive_cases redis_ok_SISMEMBER [elim]: "redis_ok d (SISMEMBER k x) r d'"
inductive_cases redis_ok_KEYS: "redis_ok d (KEYS q) r d'"

lemma redis_ok_KEYS_prefix:
  assumes "redis_ok d (KEYS (p @ [42])) r d'" "glob_free p"
  obtains ks where "r = array_reply (map string_reply ks)" "distinct ks"
    "set ks = keys_with_prefix d p" "d' = d"
  using assms by (auto elim!: redis_ok_KEYS)

section \<open>The contracts\<close>

text \<open>
  A connection to a server that answers. \<open>view c s\<close> is the database connection \<open>c\<close> has selected and
  \<open>pending c s\<close> the commands it has sent and not yet read the replies of. Nothing else changes the
  database while the tracker works: no other client writes and no key expires between two of its
  commands. \<open>SELECT\<close>, which changes the database under \<open>view\<close>, is left out.
\<close>

locale redis_connection =
  fixes api :: "('c, 's) hiredis_api"
    and view :: "'c \<Rightarrow> 's \<Rightarrow> redis_db"
    and pending :: "'c \<Rightarrow> 's \<Rightarrow> redis_command list"
  assumes command: "pending c s = [] \<Longrightarrow> (\<nexists>n. cmd = SELECT n) \<Longrightarrow>
      \<exists>r s'. redisCommand api c cmd s = (Some r, s') \<and>
        redis_ok (view c s) cmd r (view c s') \<and> pending c s' = []"
    and append: "view c (redisAppendCommand api c cmd s) = view c s"
      "pending c (redisAppendCommand api c cmd s) = pending c s @ [cmd]"
    and reply: "pending c s = cmd # cmds \<Longrightarrow> (\<nexists>n. cmd = SELECT n) \<Longrightarrow>
      \<exists>r s'. redisGetReply api c s = (Some r, s') \<and>
        redis_ok (view c s) cmd r (view c s') \<and> pending c s' = cmds"

text \<open>
  The server behind several connections. \<open>stores s n\<close> is its database number \<open>n\<close>, \<open>databases\<close> the numbers
  it has, and \<open>selected c s\<close> the database an established connection works on. A command on one
  connection does not touch another one; a new connection is not one of the established ones and
  starts on database 0; \<open>SELECT\<close> changes the database of its connection when there is one of this
  number.
\<close>

definition other_connections :: "('c \<Rightarrow> 's \<Rightarrow> int option) \<Rightarrow> ('c \<Rightarrow> 's \<Rightarrow> redis_command list) \<Rightarrow>
    'c \<Rightarrow> 's \<Rightarrow> 's \<Rightarrow> bool" where
  "other_connections selected pending c s s' \<longleftrightarrow>
     (\<forall>d. d \<noteq> c \<longrightarrow> selected d s' = selected d s \<and> pending d s' = pending d s)"

definition select_free :: "redis_command list \<Rightarrow> bool" where
  "select_free cmds \<longleftrightarrow> (\<forall>n. SELECT n \<notin> set cmds)"

lemma select_free_simps [simp]:
  "select_free []" "select_free (cmd # cmds) \<longleftrightarrow> (\<nexists>n. cmd = SELECT n) \<and> select_free cmds"
  "select_free (cmds @ cmds') \<longleftrightarrow> select_free cmds \<and> select_free cmds'"
  by (auto simp: select_free_def)

locale redis_service = redis_connection api view pending
  for api :: "('c, 's) hiredis_api" and view :: "'c \<Rightarrow> 's \<Rightarrow> redis_db" and pending :: "'c \<Rightarrow> 's \<Rightarrow> redis_command list" +
  fixes selected :: "'c \<Rightarrow> 's \<Rightarrow> int option"
    and stores :: "'s \<Rightarrow> int \<Rightarrow> redis_db"
    and databases :: "int set"
  assumes shared: "selected c s = Some n \<Longrightarrow> view c s = stores s n"
    and command_frame: "select_free (pending c s) \<Longrightarrow> (\<nexists>n. cmd = SELECT n) \<Longrightarrow> redisCommand api c cmd s = (r, s') \<Longrightarrow>
      other_connections selected pending c s s' \<and> selected c s' = selected c s \<and> select_free (pending c s')"
    and append_frame: "redisAppendCommand api c cmd s = s' \<Longrightarrow>
      other_connections selected pending c s s' \<and> selected c s' = selected c s"
    and reply_frame: "select_free (pending c s) \<Longrightarrow> redisGetReply api c s = (r, s') \<Longrightarrow>
      other_connections selected pending c s s' \<and> selected c s' = selected c s \<and> select_free (pending c s')"
    and connect_fails: "redisConnectUnixWithTimeout api path tv s = (None, s') \<or>
        redisConnectWithTimeout api host portnr tv s = (None, s') \<Longrightarrow>
      stores s' = stores s \<and> selected d s' = selected d s \<and> pending d s' = pending d s"
    and connect: "redisConnectUnixWithTimeout api path tv s = (Some c, s') \<or>
        redisConnectWithTimeout api host portnr tv s = (Some c, s') \<Longrightarrow>
      stores s' = stores s \<and> other_connections selected pending c s s' \<and> selected c s = None \<and>
      (redis_err api c s' \<or> selected c s' = Some 0 \<and> pending c s' = [])"
    and free: "stores (redisFree api c s) = stores s \<and> other_connections selected pending c s (redisFree api c s)"
    and select: "selected c s = Some m \<Longrightarrow> pending c s = [] \<Longrightarrow> redisCommand api c (SELECT n) s = (r, s') \<Longrightarrow>
      stores s' = stores s \<and> other_connections selected pending c s s' \<and> pending c s' = [] \<and>
      selected c s' = Some (if n \<in> databases then n else m)"

end
