(* ===== verification/Bt_Types.thy ===== *)
theory Bt_Types
  imports Bt_Byteorder
begin

text \<open>
  The structures of \<open>data.h\<close>. The header macros \<open>_BT_REQUEST_HEADER_\<close> and \<open>_BT_RESPONSE_HEADER_\<close>
  become record extension. Integers keep their width; the sign of an \<open>int32_t\<close> only matters where
  the code compares, and is read there with \<open>sint\<close>.
\<close>

section \<open>Enumerations\<close>

text \<open>
  The enumerations hold whatever 32-bit number came over the wire, so they are numbers with the
  names of \<open>data.h\<close>.
\<close>

type_synonym bt_action = "32 word"

definition BT_ACTION_CONNECT :: bt_action where [simp]: "BT_ACTION_CONNECT = 0"
definition BT_ACTION_ANNOUNCE :: bt_action where [simp]: "BT_ACTION_ANNOUNCE = 1"
definition BT_ACTION_SCRAPE :: bt_action where [simp]: "BT_ACTION_SCRAPE = 2"
definition BT_ACTION_ERROR :: bt_action where [simp]: "BT_ACTION_ERROR = 3"

type_synonym bt_announce_event = "32 word"

definition BT_EVENT_NONE :: bt_announce_event where [simp]: "BT_EVENT_NONE = 0"
definition BT_EVENT_COMPLETED :: bt_announce_event where [simp]: "BT_EVENT_COMPLETED = 1"
definition BT_EVENT_STARTED :: bt_announce_event where [simp]: "BT_EVENT_STARTED = 2"
definition BT_EVENT_STOPPED :: bt_announce_event where [simp]: "BT_EVENT_STOPPED = 3"

section \<open>Requests\<close>

record bt_req_t =
  connection_id :: "64 word"
  action :: bt_action
  transaction_id :: "32 word"

record bt_announce_req_t = bt_req_t +
  ipv4_addr :: "32 word"
  port :: "16 word"
  info_hash :: bytes
  peer_id :: bytes
  downloaded :: "64 word"
  left :: "64 word"
  uploaded :: "64 word"
  key :: "32 word"
  num_want :: "32 word"
  event :: bt_announce_event

text \<open>
  \<open>int8_t *info_hash[20]\<close> declares an array of twenty pointers: a block of 160 bytes on a 64-bit
  host, into which the info hashes are copied as bytes.
\<close>

record bt_scrape_req_t = bt_req_t +
  info_hash_len :: "64 word"
  scrape_info_hash :: buffer

definition scrape_info_hash_size :: nat where
  "scrape_info_hash_size = 20 * 8"

section \<open>Responses\<close>

record bt_resp_t =
  resp_action :: bt_action
  resp_transaction_id :: "32 word"

record bt_connection_resp_t = bt_resp_t +
  resp_connection_id :: "64 word"

record bt_announce_resp_t = bt_resp_t +
  interval :: "32 word"
  leechers :: "32 word"
  seeders :: "32 word"

record bt_torrent_stats_t =
  st_seeders :: "32 word"
  st_downloads :: "32 word"
  st_leechers :: "32 word"

record bt_scrape_resp_t = bt_resp_t +
  scrape_entries :: "bt_torrent_stats_t list"

record bt_response_buffer_t =
  resp_length :: nat
  resp_data :: buffer

definition sizeof_bt_response_buffer_t :: nat where
  "sizeof_bt_response_buffer_t = 16"

definition sizeof_bt_torrent_stats_t :: nat where
  "sizeof_bt_torrent_stats_t = 12"

section \<open>Peers\<close>

text \<open>The address of a client as \<open>recvfrom\<close> fills it, both members in network byte order.\<close>

record sockaddr_in =
  sin_port :: "16 word"
  s_addr :: "32 word"

record bt_peer_addr_t =
  addr_ipv4_addr :: "32 word"
  addr_port :: "16 word"

lemma bt_peer_addr_t_eta [simp]: "\<lparr>addr_ipv4_addr = addr_ipv4_addr a, addr_port = addr_port a\<rparr> = a"
  by (cases a) simp

record bt_peer_t =
  peer_key :: "32 word"
  peer_ipv4_addr :: "32 word"
  peer_downloaded :: "64 word"
  peer_uploaded :: "64 word"
  peer_left :: "64 word"
  peer_port :: "16 word"

text \<open>
  The 40 bytes of a \<open>bt_peer_t\<close> in memory on a 64-bit host: the fields in their order at their
  alignment, and six bytes of padding behind the port that nothing writes.
\<close>

definition peer_fields :: "bt_peer_t \<Rightarrow> bytes" where
  "peer_fields p =
     le_bytes 4 (peer_key p) @ le_bytes 4 (peer_ipv4_addr p) @ le_bytes 8 (peer_downloaded p) @
     le_bytes 8 (peer_uploaded p) @ le_bytes 8 (peer_left p) @ le_bytes 2 (peer_port p)"

definition peer_image :: "bt_peer_t \<Rightarrow> buffer" where
  "peer_image p = map Some (peer_fields p) @ replicate 6 None"

definition sizeof_bt_peer_t :: nat where
  "sizeof_bt_peer_t = 40"

lemma length_peer_fields [simp]: "length (peer_fields p) = 34"
  by (simp add: peer_fields_def)

lemma length_peer_image: "length (peer_image p) = sizeof_bt_peer_t"
  by (simp add: peer_image_def sizeof_bt_peer_t_def)

end
