(* ===== verification/Bt_Data.thy ===== *)
theory Bt_Data
  imports Bt_Conf Bt_Random Bt_Redis Bt_Types
begin

text \<open>
  \<open>data.c\<close>: the operations on the data the tracker keeps in Redis. Each takes the hiredis functions
  (\<open>api\<close>), the connection, the configuration and the process state, as the C function does, and
  returns the new process state; \<open>fault\<close> values stand for the undefined behaviour the C function
  would run into. Log messages are left out.
\<close>

unbundle bit_operations_syntax

section \<open>Info hashes as text\<close>

definition hex_str :: bytes where
  "hex_str = str ''0123456789abcdef''"

text \<open>
  \<open>hex_str[(bin[i] >> 4) & 0xF]\<close> and \<open>hex_str[bin[i] & 0x0F]\<close>, where \<open>bin[i]\<close> is an \<open>int8_t\<close> that is
  promoted to \<open>int\<close> first.
\<close>

definition hex_high :: "byte \<Rightarrow> byte" where
  "hex_high b = hex_str ! unat (signed_drop_bit 4 (scast b :: 32 word) AND 0xF)"

definition hex_low :: "byte \<Rightarrow> byte" where
  "hex_low b = hex_str ! unat ((scast b :: 32 word) AND 0x0F)"

text \<open>The loop from index \<open>i\<close> on over the remaining bytes of \<open>bin\<close>.\<close>

fun hexarray_loop :: "nat \<Rightarrow> bytes \<Rightarrow> buffer \<Rightarrow> buffer result" where
  "hexarray_loop i [] result = Inr result"
| "hexarray_loop i (b # bin) result =
     bindE (memcpy_to result (i * 2 + 0) [hex_high b]) (\<lambda>result.
     bindE (memcpy_to result (i * 2 + 1) [hex_low b]) (\<lambda>result.
     hexarray_loop (Suc i) bin result))"

definition bt_bytearray_to_hexarray :: "bytes \<Rightarrow> nat \<Rightarrow> 's world \<Rightarrow> (buffer \<times> 's world) result" where
  "bt_bytearray_to_hexarray bin binsz w =
     bindE (malloc_unchecked (binsz * 2 + 1) w) (\<lambda>(result, w).
     bindE (memcpy_to result (binsz * 2) [0]) (\<lambda>result.
     if binsz = 0 then Inr (result, w)
     else bindE (read_bytes bin 0 binsz) (\<lambda>bin.
       bindE (hexarray_loop 0 bin result) (\<lambda>result. Inr (result, w)))))"

section \<open>Connections to Redis\<close>

definition bt_redis_connect :: "('c, 's) hiredis_api \<Rightarrow> bytes option \<Rightarrow> bytes option \<Rightarrow> int \<Rightarrow> int \<Rightarrow> int \<Rightarrow>
    's world \<Rightarrow> 'c option \<times> 's world" where
  "bt_redis_connect api unix_sock host portnr timeout db w =
     (let timeout_val = (0, timeout);
          (conn, s) = (case unix_sock of
             Some path \<Rightarrow> redisConnectUnixWithTimeout api path timeout_val (server w)
           | None \<Rightarrow> redisConnectWithTimeout api host portnr timeout_val (server w))
      in case conn of
           None \<Rightarrow> (None, w\<lparr>server := s\<rparr>)
         | Some c \<Rightarrow>
             if redis_err api c s then (None, w\<lparr>server := redisFree api c s\<rparr>)
             else let (reply, w) = redis_command api c (SELECT db) (w\<lparr>server := s\<rparr>) in (Some c, w))"

definition bt_redis_ping :: "('c, 's) hiredis_api \<Rightarrow> 'c \<Rightarrow> 's world \<Rightarrow> bool \<times> 's world" where
  "bt_redis_ping api redis w =
     (let (reply, w) = redis_command api redis PING w
      in (case reply of None \<Rightarrow> False | Some r \<Rightarrow> rtype r \<noteq> REDIS_REPLY_ERROR, w))"

section \<open>Keys\<close>

text \<open>
  The keys of the format strings \<open>%s:conn:%b\<close>, \<open>%s:pr:%s:%s:%b\<close>, \<open>%s:ih:%s\<close>, \<open>%s:ih:wl\<close> and
  \<open>%s:ih:bl\<close>.
\<close>

definition conn_key :: "bytes \<Rightarrow> 64 word \<Rightarrow> bytes" where
  "conn_key prefix conn_id = prefix @ str '':conn:'' @ le_bytes 8 conn_id"

definition swarm_prefix :: "bytes \<Rightarrow> bytes \<Rightarrow> bytes \<Rightarrow> bytes" where
  "swarm_prefix prefix info_hash_str peer_prefix =
     prefix @ str '':pr:'' @ info_hash_str @ str '':'' @ peer_prefix @ str '':''"

definition swarm_key :: "bytes \<Rightarrow> bytes \<Rightarrow> bytes \<Rightarrow> bytes \<Rightarrow> bytes" where
  "swarm_key prefix info_hash_str peer_prefix pid = swarm_prefix prefix info_hash_str peer_prefix @ pid"

definition torrent_key :: "bytes \<Rightarrow> bytes \<Rightarrow> bytes" where
  "torrent_key prefix info_hash_str = prefix @ str '':ih:'' @ info_hash_str"

definition whitelist_key :: "bytes \<Rightarrow> bytes" where
  "whitelist_key prefix = prefix @ str '':ih:wl''"

definition blacklist_key :: "bytes \<Rightarrow> bytes" where
  "blacklist_key prefix = prefix @ str '':ih:bl''"

text \<open>\<open>is_seeder ? "sd" : "lc"\<close>\<close>

definition peer_prefix_of :: "bool \<Rightarrow> bytes" where
  "peer_prefix_of is_seeder = (if is_seeder then str ''sd'' else str ''lc'')"

section \<open>Connection identifiers\<close>

definition BT_ACTIVE_CONNECTION_TTL :: "8 word" where
  "BT_ACTIVE_CONNECTION_TTL = 120"

definition bt_insert_connection :: "('c, 's) hiredis_api \<Rightarrow> 'c \<Rightarrow> bt_config_t \<Rightarrow> 64 word \<Rightarrow>
    's world \<Rightarrow> 's world result" where
  "bt_insert_connection api redis config conn_id w =
     bindE (deref (redis_key_prefix config)) (\<lambda>prefix.
       let (reply, w) = redis_command api redis
             (SETEX (conn_key prefix conn_id) (uint BT_ACTIVE_CONNECTION_TTL) (str ''1'')) w
       in Inr w)"

definition bt_connection_valid :: "('c, 's) hiredis_api \<Rightarrow> 'c \<Rightarrow> bt_config_t \<Rightarrow> 64 word \<Rightarrow>
    's world \<Rightarrow> (bool \<times> 's world) result" where
  "bt_connection_valid api redis config conn_id w =
     bindE (deref (redis_key_prefix config)) (\<lambda>prefix.
       let (reply, w) = redis_command api redis (GET (conn_key prefix conn_id)) w
       in case reply of
            None \<Rightarrow> Inr (False, w)
          | Some r \<Rightarrow> Inr (rtype r \<noteq> REDIS_REPLY_ERROR, w))"

section \<open>Peers\<close>

definition bt_new_peer :: "bt_announce_req_t \<Rightarrow> 32 word \<Rightarrow> 's world \<Rightarrow> (bt_peer_t \<times> 's world) result" where
  "bt_new_peer request sockaddr w =
     bindE (malloc_unchecked sizeof_bt_peer_t w) (\<lambda>(_, w).
       Inr (\<lparr>peer_key = key request,
             peer_ipv4_addr = (if ipv4_addr request = 0 then sockaddr else ipv4_addr request),
             peer_downloaded = downloaded request,
             peer_uploaded = uploaded request,
             peer_left = left request,
             peer_port = port request\<rparr>, w))"

definition sizeof_bt_peer_addr_t :: nat where
  "sizeof_bt_peer_addr_t = 8"

definition bt_new_peer_addr :: "32 word \<Rightarrow> 16 word \<Rightarrow> 's world \<Rightarrow> (bt_peer_addr_t \<times> 's world) result" where
  "bt_new_peer_addr ip portnr w =
     bindE (malloc_unchecked sizeof_bt_peer_addr_t w) (\<lambda>(_, w).
       Inr (\<lparr>addr_ipv4_addr = ip, addr_port = portnr\<rparr>, w))"

text \<open>The time to live is printed with \<open>%d\<close>, as a signed number.\<close>

definition bt_insert_peer :: "('c, 's) hiredis_api \<Rightarrow> 'c \<Rightarrow> bt_config_t \<Rightarrow> bytes \<Rightarrow> bytes \<Rightarrow> bt_peer_t \<Rightarrow>
    bool \<Rightarrow> 's world \<Rightarrow> 's world result" where
  "bt_insert_peer api redis config info_hash_str pid peer_data is_seeder w =
     bindE (deref (redis_key_prefix config)) (\<lambda>prefix.
       let (reply, w) = redis_command api redis
             (SETEX (swarm_key prefix info_hash_str (peer_prefix_of is_seeder) pid)
                (sint (announce_peer_ttl config)) (sent_bytes w (peer_image peer_data))) w
       in Inr w)"

definition bt_remove_peer :: "('c, 's) hiredis_api \<Rightarrow> 'c \<Rightarrow> bt_config_t \<Rightarrow> bytes \<Rightarrow> bytes \<Rightarrow> bool \<Rightarrow>
    's world \<Rightarrow> 's world result" where
  "bt_remove_peer api redis config info_hash_str pid is_seeder w =
     bindE (deref (redis_key_prefix config)) (\<lambda>prefix.
       let (reply, w) = redis_command api redis
             (DEL (swarm_key prefix info_hash_str (peer_prefix_of is_seeder) pid)) w
       in Inr w)"

definition bt_increment_downloads :: "('c, 's) hiredis_api \<Rightarrow> 'c \<Rightarrow> bt_config_t \<Rightarrow> bytes \<Rightarrow>
    's world \<Rightarrow> 's world result" where
  "bt_increment_downloads api redis config info_hash_str w =
     bindE (deref (redis_key_prefix config)) (\<lambda>prefix.
       let (reply, w) = redis_command api redis
             (HINCRBY (torrent_key prefix info_hash_str) (str ''downs'') 1) w
       in Inr w)"

definition bt_promote_peer :: "('c, 's) hiredis_api \<Rightarrow> 'c \<Rightarrow> bt_config_t \<Rightarrow> bytes \<Rightarrow> bytes \<Rightarrow>
    's world \<Rightarrow> 's world result" where
  "bt_promote_peer api redis config info_hash_str pid w =
     bindE (deref (redis_key_prefix config)) (\<lambda>prefix.
       let (reply, w) = redis_command api redis
             (RENAME (swarm_key prefix info_hash_str (str ''lc'') pid)
                (swarm_key prefix info_hash_str (str ''sd'') pid)) w
       in case reply of
            None \<Rightarrow> Inr w
          | Some r \<Rightarrow> if rtype r = REDIS_REPLY_ERROR then Inr w
                       else bt_increment_downloads api redis config info_hash_str w)"

section \<open>Restrictions\<close>

definition bt_info_hash_blacklisted :: "('c, 's) hiredis_api \<Rightarrow> 'c \<Rightarrow> bt_config_t \<Rightarrow> bytes \<Rightarrow>
    's world \<Rightarrow> (bool \<times> 's world) result" where
  "bt_info_hash_blacklisted api redis config info_hash_str w =
     (case info_hash_restriction config of
        BT_RESTRICTION_WHITELIST \<Rightarrow>
          bindE (deref (redis_key_prefix config)) (\<lambda>prefix.
            let (reply, w) = redis_command api redis (SISMEMBER (whitelist_key prefix) info_hash_str) w
            in case reply of
                 None \<Rightarrow> Inr (True, w)
               | Some r \<Rightarrow> Inr (rtype r = REDIS_REPLY_INTEGER \<and> rinteger r = 0, w))
      | BT_RESTRICTION_BLACKLIST \<Rightarrow>
          bindE (deref (redis_key_prefix config)) (\<lambda>prefix.
            let (reply, w) = redis_command api redis (SISMEMBER (blacklist_key prefix) info_hash_str) w
            in case reply of
                 None \<Rightarrow> Inr (True, w)
               | Some r \<Rightarrow> Inr (rtype r = REDIS_REPLY_INTEGER \<and> rinteger r > 0, w))
      | BT_RESTRICTION_NONE \<Rightarrow> Inr (False, w))"

section \<open>Statistics\<close>

text \<open>\<open>strtoimax(s, NULL, 10)\<close>: white space, a sign, digits; saturating at 64 bits.\<close>

definition is_space :: "byte \<Rightarrow> bool" where
  "is_space b \<longleftrightarrow> b = 32 \<or> (9 \<le> b \<and> b \<le> 13)"

definition is_digit :: "byte \<Rightarrow> bool" where
  "is_digit b \<longleftrightarrow> 48 \<le> b \<and> b \<le> 57"

definition digits_value :: "bytes \<Rightarrow> nat" where
  "digits_value ds = foldl (\<lambda>n d. 10 * n + (unat d - 48)) 0 ds"

definition strtoimax :: "bytes \<Rightarrow> int" where
  "strtoimax s =
     (let t = dropWhile is_space s;
          (neg, ds) = (case t of [] \<Rightarrow> (False, t)
             | c # r \<Rightarrow> if c = 45 then (True, r) else if c = 43 then (False, r) else (False, t));
          n = int (digits_value (takeWhile is_digit ds))
      in max (- (2 ^ 63)) (min (2 ^ 63 - 1) (if neg then - n else n)))"

text \<open>
  After a failed \<open>redisGetReply\<close> the pointer \<open>reply\<close> holds no value the library has promised, and the
  test \<open>reply != NULL\<close> reads it.
\<close>

definition take_reply :: "('c, 's) hiredis_api \<Rightarrow> 'c \<Rightarrow> 's world \<Rightarrow> (redisReply \<times> 's world) result" where
  "take_reply api redis w =
     (let (reply, w) = get_reply api redis w
      in case reply of None \<Rightarrow> Inl Indeterminate_Value | Some r \<Rightarrow> Inr (r, w))"

definition bt_get_torrent_stats :: "('c, 's) hiredis_api \<Rightarrow> 'c \<Rightarrow> bt_config_t \<Rightarrow> bytes \<Rightarrow>
    's world \<Rightarrow> (bt_torrent_stats_t \<times> 's world) result" where
  "bt_get_torrent_stats api redis config info_hash_str w =
     bindE (deref (redis_key_prefix config)) (\<lambda>prefix.
       let w = append_command api redis (KEYS (swarm_prefix prefix info_hash_str (str ''sd'') @ str ''*'')) w;
           w = append_command api redis (KEYS (swarm_prefix prefix info_hash_str (str ''lc'') @ str ''*'')) w;
           w = append_command api redis (HGET (torrent_key prefix info_hash_str) (str ''downs'')) w
       in bindE (take_reply api redis w) (\<lambda>(r1, w).
          bindE (take_reply api redis w) (\<lambda>(r2, w).
          bindE (take_reply api redis w) (\<lambda>(r3, w).
          Inr (\<lparr>st_seeders = of_nat (length (relement r1)),
                st_downloads = (case rstr r3 of None \<Rightarrow> 0 | Some s \<Rightarrow> word_of_int (strtoimax s)),
                st_leechers = of_nat (length (relement r2))\<rparr>, w)))))"

section \<open>Peer lists\<close>

text \<open>
  The shuffle: position \<open>i\<close> of the array is exchanged with a random position from \<open>i\<close> on. The
  indices are checked against the length of the array.
\<close>

function shuffle_loop :: "nat \<Rightarrow> nat \<Rightarrow> 'a list \<Rightarrow> 's world \<Rightarrow> ('a list \<times> 's world) result" where
  "shuffle_loop i upper_index element w =
     (if i < upper_index then
        let (j, w) = randr (of_nat i) (of_nat (length element) - 1) w
        in if i < length element \<and> unat j < length element
           then shuffle_loop (Suc i) upper_index
                  (element[i := element ! unat j, unat j := element ! i]) w
           else Inl Read_Out_Of_Bounds
      else Inr (element, w))"
  by pat_completeness auto
termination
  by (relation "measure (\<lambda>(i, n, _). n - i)") auto

declare shuffle_loop.simps [simp del]

text \<open>The pipelined \<open>GET\<close> commands.\<close>

fun append_loop :: "('c, 's) hiredis_api \<Rightarrow> 'c \<Rightarrow> redisReply list \<Rightarrow> 's world \<Rightarrow> 's world" where
  "append_loop api redis [] w = w"
| "append_loop api redis (r # rs) w =
     append_loop api redis rs
       (append_command api redis (GET (case rstr r of None \<Rightarrow> [] | Some s \<Rightarrow> s)) w)"

text \<open>
  The replies, \<open>n\<close> of them. The text of a reply is read as a \<open>bt_peer_t\<close>: the address lies at offset 4
  and the port at offset 32. A reply without text is a null dereference.
\<close>

fun fetch_loop :: "('c, 's) hiredis_api \<Rightarrow> 'c \<Rightarrow> nat \<Rightarrow> bt_peer_addr_t list \<Rightarrow> nat \<Rightarrow> 's world \<Rightarrow>
    ((bt_peer_addr_t list \<times> nat) \<times> 's world) result" where
  "fetch_loop api redis 0 lst count w = Inr ((lst, count), w)"
| "fetch_loop api redis (Suc n) lst count w =
     (let (reply, w) = get_reply api redis w
      in case reply of
           None \<Rightarrow> fetch_loop api redis n lst count w
         | Some r \<Rightarrow>
             bindE (deref (rstr r)) (\<lambda>peer_data.
             bindE (load 4 peer_data 4) (\<lambda>ip.
             bindE (load 2 peer_data 32) (\<lambda>portnr.
             bindE (bt_new_peer_addr ip portnr w) (\<lambda>(addr, w).
             fetch_loop api redis n (addr # lst) (Suc count) w)))))"

text \<open>
  \<open>total_keys > num_want\<close> compares a \<open>size_t\<close> with an \<open>int32_t\<close>, which is sign-extended and read as
  unsigned.
\<close>

definition upper_index_of :: "nat \<Rightarrow> 32 word \<Rightarrow> nat" where
  "upper_index_of total_keys want =
     nat (sint (if (of_nat total_keys :: 64 word) > scast want then want else of_nat total_keys))"

definition bt_peer_list :: "('c, 's) hiredis_api \<Rightarrow> 'c \<Rightarrow> bt_config_t \<Rightarrow> bytes \<Rightarrow> 32 word \<Rightarrow> nat \<Rightarrow> bool \<Rightarrow>
    's world \<Rightarrow> ((bt_peer_addr_t list \<times> nat) \<times> 's world) result" where
  "bt_peer_list api redis config info_hash_str want peer_count seeder w =
     bindE (deref (redis_key_prefix config)) (\<lambda>prefix.
       let (reply, w) = redis_command api redis
             (KEYS (swarm_prefix prefix info_hash_str (peer_prefix_of seeder) @ str ''*'')) w
       in case reply of
            None \<Rightarrow> Inr (([], peer_count), w)
          | Some r \<Rightarrow>
              if rtype r = REDIS_REPLY_ARRAY then
                let upper_index = upper_index_of (length (relement r)) want
                in bindE (shuffle_loop 0 upper_index (relement r) w) (\<lambda>(element, w).
                   fetch_loop api redis upper_index [] 0
                     (append_loop api redis (take upper_index element) w))
              else Inr (([], 0), w))"

section \<open>Hexadecimal text\<close>

text \<open>The usual hexadecimal rendering, and its inverse.\<close>

definition hex_digit :: "nat \<Rightarrow> byte" where
  "hex_digit n = (if n < 10 then of_nat (48 + n) else of_nat (87 + n))"

definition hex :: "bytes \<Rightarrow> bytes" where
  "hex bs = concat (map (\<lambda>b. [hex_digit (unat b div 16), hex_digit (unat b mod 16)]) bs)"

definition digit_of_hex :: "byte \<Rightarrow> nat" where
  "digit_of_hex c = (if c \<le> 57 then unat c - 48 else unat c - 87)"

fun unhex :: "bytes \<Rightarrow> bytes" where
  "unhex (c # d # cs) = of_nat (16 * digit_of_hex c + digit_of_hex d) # unhex cs"
| "unhex _ = []"

lemma nibbles_cases: "n < 16 \<Longrightarrow> n \<in> {0, 1, 2, 3, 4, 5, 6, 7, 8, 9, 10, 11, 12, 13, 14, 15 :: nat}"
  unfolding insert_iff empty_iff by arith

lemma hex_str_nth: "n < 16 \<Longrightarrow> hex_str ! n = hex_digit n"
  by (drule nibbles_cases) (auto simp: hex_str_def hex_digit_def)

lemma digit_of_hex_digit: "n < 16 \<Longrightarrow> digit_of_hex (hex_digit n) = n"
  by (drule nibbles_cases) (auto simp: digit_of_hex_def hex_digit_def)

lemma hex_digit_text: "n < 16 \<Longrightarrow> hex_digit n \<noteq> 0 \<and> glob_free [hex_digit n] \<and> hex_digit n \<noteq> 58"
  by (drule nibbles_cases) (auto simp: hex_digit_def)

text \<open>The sign extension of the promoted byte does not reach the digits.\<close>

lemma hex_high_eq: "hex_high b = hex_digit (unat b div 16)"
proof -
  have "signed_drop_bit 4 (scast b :: 32 word) AND mask 4 = ucast (drop_bit 4 b)"
  proof (rule bit_word_eqI)
    fix n assume "n < LENGTH(32)"
    show "bit (signed_drop_bit 4 (scast b :: 32 word) AND mask 4) n = bit (ucast (drop_bit 4 b) :: 32 word) n"
      by (cases "n < 4") (auto simp: bit_simps min.absorb2 dest: bit_imp_le_length)
  qed
  then have "unat (signed_drop_bit 4 (scast b :: 32 word) AND 0xF) = unat (drop_bit 4 b)"
    using unat_byte_less [of "drop_bit 4 b"]
    by (simp add: mask_eq_exp_minus_1 unsigned_ucast_eq take_bit_nat_eq_self_iff)
  also have "\<dots> = unat b div 16" by (simp add: drop_bit_eq_div unat_div_distrib)
  finally show ?thesis by (simp add: hex_high_def hex_str_nth unat_byte_div_less)
qed

lemma hex_low_eq: "hex_low b = hex_digit (unat b mod 16)"
proof -
  have "(scast b :: 32 word) AND mask 4 = ucast (take_bit 4 b)"
    by (rule bit_word_eqI) (auto simp: bit_simps)
  then have "unat ((scast b :: 32 word) AND 0x0F) = unat (take_bit 4 b)"
    using unat_byte_less [of "take_bit 4 b"]
    by (simp add: mask_eq_exp_minus_1 unsigned_ucast_eq take_bit_nat_eq_self_iff)
  also have "\<dots> = unat b mod 16" by (simp add: take_bit_eq_mod unat_mod_distrib)
  finally show ?thesis by (simp add: hex_low_def hex_str_nth)
qed

lemma hex_simps [simp]:
  "hex [] = []"
  "hex (b # bs) = hex_digit (unat b div 16) # hex_digit (unat b mod 16) # hex bs"
  by (simp_all add: hex_def)

lemma length_hex [simp]: "length (hex bs) = 2 * length bs"
  by (induction bs) auto

lemma unhex_hex: "unhex (hex bs) = bs"
proof (induction bs)
  case (Cons b bs)
  have "of_nat (16 * digit_of_hex (hex_digit (unat b div 16)) + digit_of_hex (hex_digit (unat b mod 16))) = b"
    by (simp only: digit_of_hex_digit unat_byte_div_less mod_less_divisor zero_less_numeral mult_div_mod_eq) simp
  then show ?case using Cons by simp
qed simp

lemma hex_inject: "hex bs = hex cs \<longleftrightarrow> bs = cs"
  by (metis unhex_hex)

lemma hex_text: "0 \<notin> set (hex bs) \<and> glob_free (hex bs)"
proof (induction bs)
  case (Cons b bs)
  then show ?case
    using unat_byte_div_less [of b] hex_digit_text [of "unat b div 16"] hex_digit_text [of "unat b mod 16"] by auto
qed simp

lemma hexarray_loop_eq:
  assumes "length pre = 2 * i" "length room = 2 * length bin"
  shows "hexarray_loop i bin (map Some pre @ room @ rest) = Inr (map Some (pre @ hex bin) @ rest)"
  using assms
proof (induction bin arbitrary: i pre room)
  case (Cons b bin)
  obtain x y room' where room: "room = x # y # room'" "length room' = 2 * length bin"
    using Cons.prems(2) by (auto simp: length_Suc_conv)
  have "memcpy_to (map Some pre @ room @ rest) (i * 2 + 0) [hex_high b] =
      Inr (map Some pre @ Some (hex_high b) # y # room' @ rest)"
    using memcpy_to_append [of "i * 2" "map Some pre" "[hex_high b]" "[x]"] Cons.prems(1) room by simp
  moreover have "memcpy_to (map Some pre @ Some (hex_high b) # y # room' @ rest) (i * 2 + 1) [hex_low b] =
      Inr (map Some (pre @ [hex_high b, hex_low b]) @ room' @ rest)"
    using memcpy_to_append [of "i * 2 + 1" "map Some pre @ [Some (hex_high b)]" "[hex_low b]" "[y]"]
      Cons.prems(1) by simp
  ultimately show ?case
    using Cons.IH [of "pre @ [hex_high b, hex_low b]" "Suc i" room'] Cons.prems(1) room(2)
    by (simp add: hex_high_eq hex_low_eq)
qed simp

text \<open>The block \<open>bt_bytearray_to_hexarray\<close> returns, and what is left of the process state.\<close>

lemma bt_bytearray_to_hexarray_malloc:
  assumes "malloc_unchecked (n * 2 + 1) w = Inr (replicate (n * 2 + 1) None, w')" "length bin = n"
  shows "bt_bytearray_to_hexarray bin n w = Inr (map Some (hex bin @ [0]), w')"
proof -
  have block: "replicate (n * 2 + 1) None = replicate (n * 2) None @ [None]"
    by (simp flip: replicate_append_same)
  have nul: "memcpy_to (replicate (n * 2) None @ [None]) (n * 2) [0] = Inr (replicate (n * 2) None @ [Some 0])"
    using memcpy_to_append [of "n * 2" "replicate (n * 2) None" "[0]" "[None]" "[]"] by simp
  have "hexarray_loop 0 bin (replicate (n * 2) None @ [Some 0]) = Inr (map Some (hex bin) @ [Some 0])"
    using hexarray_loop_eq [of "[]" 0 "replicate (n * 2) None" bin "[Some 0]"] assms(2) by simp
  then show ?thesis
    using assms
    by (simp only: bt_bytearray_to_hexarray_def block nul bindE_simps prod.case) (auto simp: read_bytes_def)
qed

lemma bt_bytearray_to_hexarray_eq:
  "memory_available w \<Longrightarrow> length bin = n \<Longrightarrow>
   bt_bytearray_to_hexarray bin n w = Inr (map Some (hex bin @ [0]), w\<lparr>malloc_pos := Suc (malloc_pos w)\<rparr>)"
  by (rule bt_bytearray_to_hexarray_malloc) simp_all

lemma c_str_hex: "c_str (map Some (hex bin @ [0])) = hex bin"
  using c_str_append [of "hex bin" "[]"] hex_text by simp

text \<open>Whenever it returns, the text is the hexadecimal one.\<close>

lemma bt_bytearray_to_hexarray_Inr:
  assumes "bt_bytearray_to_hexarray bin n w = Inr (x, w')" "length bin = n"
  shows "c_str x = hex bin"
proof -
  obtain w1 where "malloc_unchecked (n * 2 + 1) w = Inr (replicate (n * 2 + 1) None, w1)"
    using assms(1) by (auto simp: bt_bytearray_to_hexarray_def malloc_unchecked_def malloc_def split: if_splits)
  from bt_bytearray_to_hexarray_malloc [OF this assms(2)] show ?thesis using assms(1) c_str_hex by simp
qed

text \<open>
  C25. The text \<open>bt_bytearray_to_hexarray\<close> makes of an info hash is its lower-case hexadecimal
  rendering, terminated by a NUL that is the first one, and the bytes can be recovered from it: two
  info hashes never share a text.
\<close>

theorem bt_bytearray_to_hexarray_correct:
  assumes "memory_available w" "length bin = n"
  shows "\<exists>result w'. bt_bytearray_to_hexarray bin n w = Inr (result, w') \<and>
    length result = 2 * n + 1 \<and> initialised result \<and> c_str result = hex bin \<and> unhex (c_str result) = bin"
  using assms by (simp add: bt_bytearray_to_hexarray_eq unhex_hex initialised_def c_str_hex del: map_append)

theorem bt_bytearray_to_hexarray_correct_witness:
  "\<exists>result w'. bt_bytearray_to_hexarray [0xAB, 0x07] 2
      \<lparr>server = (), rand_seq = (\<lambda>_. 0), rand_pos = 0, malloc_seq = (\<lambda>_. True), malloc_pos = 0,
       uninit = (\<lambda>_. 0)\<rparr> = Inr (result, w') \<and> length result = 5 \<and> initialised result
    \<and> c_str result = str ''ab07'' \<and> unhex (c_str result) = [0xAB, 0x07]"
  using bt_bytearray_to_hexarray_correct [of "\<lparr>server = (), rand_seq = (\<lambda>_. 0), rand_pos = 0,
      malloc_seq = (\<lambda>_. True), malloc_pos = 0, uninit = (\<lambda>_. 0)\<rparr>" "[0xAB, 0x07]" 2]
  by (simp add: memory_available_def hex_digit_def)

end
