(* ===== verification/Bt_Store.thy ===== *)
theory Bt_Store
  imports "HOL-Library.Multiset" Bt_Data
begin

text \<open>
  What the operations of \<open>data.c\<close> achieve on a Redis server that answers: the effect of each on the
  database, the invariant they keep, and the contract of a peer store that \<open>announce.c\<close> and
  \<open>scrape.c\<close> rely on.
\<close>

section \<open>Keys\<close>

lemmas key_defs =
  conn_key_def swarm_key_def swarm_prefix_def torrent_key_def whitelist_key_def blacklist_key_def

lemma length_peer_prefix_of [simp]: "length (peer_prefix_of b) = 2"
  by (simp add: peer_prefix_of_def)

lemma peer_prefix_of_inject [simp]: "peer_prefix_of a = peer_prefix_of b \<longleftrightarrow> a = b"
  by (auto simp: peer_prefix_of_def)

lemma peer_prefix_of_simps [simp]: "str ''sd'' = peer_prefix_of True" "str ''lc'' = peer_prefix_of False"
  by (simp_all add: peer_prefix_of_def)

lemma glob_free_peer_prefix_of [simp]: "glob_free (peer_prefix_of b)"
  by (simp add: peer_prefix_of_def)

declare str_simps [simp del]

lemma swarm_prefix_inject:
  "length h = length h' \<Longrightarrow>
   swarm_prefix p h (peer_prefix_of a) @ x = swarm_prefix p h' (peer_prefix_of b) @ y \<longleftrightarrow>
     h = h' \<and> a = b \<and> x = y"
  by (simp add: swarm_prefix_def)

lemma swarm_key_inject:
  "length h = length h' \<Longrightarrow>
   swarm_key p h (peer_prefix_of a) x = swarm_key p h' (peer_prefix_of b) y \<longleftrightarrow> h = h' \<and> a = b \<and> x = y"
  by (simp add: swarm_key_def swarm_prefix_inject)

lemma conn_key_inject: "conn_key p i = conn_key p j \<longleftrightarrow> i = j"
  by (simp add: conn_key_def le_bytes_inject)

lemma torrent_key_inject: "torrent_key p h = torrent_key p h' \<longleftrightarrow> h = h'"
  by (simp add: torrent_key_def)

lemma key_classes_disjoint:
  "swarm_key p h r x \<noteq> conn_key p i"
  "swarm_key p h r x \<noteq> torrent_key p g"
  "swarm_key p h r x \<noteq> whitelist_key p"
  "swarm_key p h r x \<noteq> blacklist_key p"
  "conn_key p i \<noteq> torrent_key p g"
  "conn_key p i \<noteq> whitelist_key p"
  "conn_key p i \<noteq> blacklist_key p"
  "whitelist_key p \<noteq> blacklist_key p"
  by (simp_all add: key_defs str_simps)

lemma torrent_key_lists:
  "length g = 40 \<Longrightarrow> torrent_key p g \<noteq> whitelist_key p"
  "length g = 40 \<Longrightarrow> torrent_key p g \<noteq> blacklist_key p"
  by (auto simp: key_defs str_simps)

text \<open>
  C24. Under one prefix, the keys of connections, of peers (per torrent, role and peer identifier), of
  torrents and of the two lists never coincide, and each determines what it was made from; info
  hashes are the 40-character texts of 20 bytes.
\<close>

theorem keys_separated:
  assumes "length h = 20" "length h' = 20"
  shows "(swarm_key p (hex h) (peer_prefix_of a) x = swarm_key p (hex h') (peer_prefix_of b) y
            \<longleftrightarrow> h = h' \<and> a = b \<and> x = y) \<and>
     (torrent_key p (hex h) = torrent_key p (hex h') \<longleftrightarrow> h = h') \<and>
     (conn_key p i = conn_key p j \<longleftrightarrow> i = j) \<and>
     distinct [swarm_key p (hex h) (peer_prefix_of a) x, conn_key p i, torrent_key p (hex h'),
       whitelist_key p, blacklist_key p]"
  using assms
  by (simp add: swarm_key_inject torrent_key_inject conn_key_inject key_classes_disjoint
      torrent_key_lists hex_inject)

theorem keys_separated_witness:
  "torrent_key (str ''bt'') (hex (replicate 20 0)) \<noteq> torrent_key (str ''bt'') (hex (replicate 20 1)) \<and>
   swarm_key (str ''bt'') (hex (replicate 20 0)) (peer_prefix_of True) [] \<noteq>
   swarm_key (str ''bt'') (hex (replicate 20 0)) (peer_prefix_of False) []"
  using keys_separated [of "replicate 20 0" "replicate 20 1" "str ''bt''" True "[]" False "[]" 0 0]
    keys_separated [of "replicate 20 0" "replicate 20 0" "str ''bt''" True "[]" False "[]" 0 0]
  by simp

section \<open>Decimal text\<close>

lemma digits_value_append: "digits_value (ds @ [d]) = 10 * digits_value ds + (unat d - 48)"
  by (simp add: digits_value_def)

lemma digit_byte:
  assumes "m < 10"
  shows "unat (of_nat (48 + m) :: byte) = 48 + m" "is_digit (of_nat (48 + m))"
proof -
  show u: "unat (of_nat (48 + m) :: byte) = 48 + m"
    using assms by (intro of_nat_inverse refl) simp
  have "unat (48 :: byte) = 48" "unat (57 :: byte) = 57" by simp_all
  then show "is_digit (of_nat (48 + m))" using assms u by (simp only: is_digit_def word_le_nat_alt) simp
qed

lemma digits_of_nat_value: "digits_value (digits_of_nat n) = n"
proof (induction n rule: digits_of_nat.induct)
  case (1 n)
  show ?case
    using 1 digit_byte [of "n mod 10"] digit_byte [of n]
    by (subst digits_of_nat.simps) (simp add: digits_value_append, simp add: digits_value_def)
qed

lemma digits_of_nat_digits: "list_all is_digit (digits_of_nat n)"
proof (induction n rule: digits_of_nat.induct)
  case (1 n)
  then show ?case
    using digit_byte(2) [of "n mod 10"] digit_byte(2) [of n] by (subst digits_of_nat.simps) simp
qed

lemma digits_of_nat_Cons: obtains d ds where "digits_of_nat n = d # ds" "is_digit d"
proof -
  have "digits_of_nat n \<noteq> []" by (subst digits_of_nat.simps) simp
  then show ?thesis using that digits_of_nat_digits [of n] by (cases "digits_of_nat n") auto
qed

lemma is_digit_not: "is_digit d \<Longrightarrow> \<not> is_space d \<and> d \<noteq> 45 \<and> d \<noteq> 43"
  by (auto simp: is_digit_def is_space_def word_le_nat_alt)

lemma takeWhile_digits: "takeWhile is_digit (digits_of_nat n) = digits_of_nat n"
  using digits_of_nat_digits [of n] by (simp add: takeWhile_eq_all_conv list_all_iff)

lemma strtoimax_decimal:
  assumes "is_int64 k"
  shows "strtoimax (decimal k) = k"
proof (cases "k < 0")
  case True
  have "\<not> is_space 45" by (simp add: is_space_def word_le_nat_alt)
  then show ?thesis
    using True assms
    by (simp add: strtoimax_def decimal_def takeWhile_digits digits_of_nat_value is_int64_def)
next
  case False
  obtain d ds where d: "digits_of_nat (nat k) = d # ds" "is_digit d" by (rule digits_of_nat_Cons)
  have "digits_value (takeWhile is_digit (d # ds)) = nat k"
    using takeWhile_digits [of "nat k"] digits_of_nat_value [of "nat k"] by (simp only: d)
  then show ?thesis
    using False assms d(1) is_digit_not [OF d(2)]
    by (simp add: strtoimax_def decimal_def is_int64_def del: takeWhile.simps)
qed

lemma decimal_inject: "decimal a = decimal b \<longleftrightarrow> a = b"
proof
  assume eq: "decimal a = decimal b"
  obtain d ds e es where d: "digits_of_nat (nat a) = d # ds" "is_digit d"
    and e: "digits_of_nat (nat b) = e # es" "is_digit e"
    using digits_of_nat_Cons by metis
  have "(a < 0) = (b < 0)"
    using eq d e is_digit_not [OF d(2)] is_digit_not [OF e(2)] by (auto simp: decimal_def split: if_splits)
  then have "digits_of_nat (nat \<bar>a\<bar>) = digits_of_nat (nat \<bar>b\<bar>)"
    using eq by (auto simp: decimal_def split: if_splits)
  then have "nat \<bar>a\<bar> = nat \<bar>b\<bar>" by (metis digits_of_nat_value)
  with \<open>(a < 0) = (b < 0)\<close> show "a = b" by linarith
qed simp

section \<open>The shuffle\<close>

text \<open>\<open>rand()\<close> never returns its largest value, on which \<open>randr\<close> leaves its range.\<close>

definition rand_below_max :: "'s world \<Rightarrow> bool" where
  "rand_below_max w \<longleftrightarrow> (\<forall>i. rand_seq w i < RAND_MAX)"

text \<open>Two process states with the same outcomes of \<open>rand\<close>, \<open>malloc\<close> and of unwritten memory.\<close>

definition same_env :: "'s world \<Rightarrow> 's world \<Rightarrow> bool" where
  "same_env w w' \<longleftrightarrow> rand_seq w' = rand_seq w \<and> malloc_seq w' = malloc_seq w \<and> uninit w' = uninit w"

lemma same_env_refl [simp]: "same_env w w"
  by (simp add: same_env_def)

lemma same_env_trans: "same_env w w' \<Longrightarrow> same_env w' w'' \<Longrightarrow> same_env w w''"
  by (simp add: same_env_def)

lemma same_env_upd [simp]:
  "same_env w (w'\<lparr>server := s\<rparr>) = same_env w w'"
  "same_env w (w'\<lparr>rand_pos := i\<rparr>) = same_env w w'"
  "same_env w (w'\<lparr>malloc_pos := i\<rparr>) = same_env w w'"
  "same_env (w\<lparr>server := s\<rparr>) w' = same_env w w'"
  "same_env (w\<lparr>rand_pos := i\<rparr>) w' = same_env w w'"
  "same_env (w\<lparr>malloc_pos := i\<rparr>) w' = same_env w w'"
  by (simp_all add: same_env_def)

lemma same_env_keeps:
  assumes "same_env w w'"
  shows "memory_available w' = memory_available w" "rand_below_max w' = rand_below_max w"
    "sent_bytes w' = sent_bytes w"
  using assms by (auto simp: same_env_def memory_available_def rand_below_max_def sent_bytes_def)

lemma rand_below_max_upd [simp]:
  "rand_below_max (w\<lparr>server := s\<rparr>) = rand_below_max w"
  "rand_below_max (w\<lparr>rand_pos := i\<rparr>) = rand_below_max w"
  "rand_below_max (w\<lparr>malloc_pos := i\<rparr>) = rand_below_max w"
  by (simp_all add: rand_below_max_def)

lemma randr_world: "snd (randr lo hi w) = w\<lparr>rand_pos := Suc (rand_pos w)\<rparr>"
  by (simp add: randr_def c_rand_def Let_def)

lemma randr_index:
  assumes "i < n" "n < 2 ^ 22" "rand_below_max w"
  obtains j where "randr (of_nat i) (of_nat n - 1) w = (j, w\<lparr>rand_pos := Suc (rand_pos w)\<rparr>)" "unat j < n"
proof -
  have n1: "of_nat n - 1 = (of_nat (n - 1) :: 32 word)" using assms(1) by (simp add: of_nat_diff)
  have u: "unat (of_nat i :: 32 word) = i" "unat (of_nat (n - 1) :: 32 word) = n - 1"
    using assms by (auto intro!: of_nat_inverse)
  have "fst (randr (of_nat i) (of_nat n - 1) w) \<le> of_nat (n - 1)"
  proof -
    have "of_nat i \<le> (of_nat (n - 1) :: 32 word)" using assms(1) by (simp only: word_le_nat_alt u)
    moreover have "unat (of_nat (n - 1) :: 32 word) < 2 ^ 22 - 1" using assms by (simp only: u)
    ultimately show ?thesis
      unfolding n1 using randr_bounds [of "of_nat i" "of_nat (n - 1)" w] assms(3)
      by (simp only: rand_below_max_def)
  qed
  then have "unat (fst (randr (of_nat i) (of_nat n - 1) w)) < n"
    using assms(1) by (simp only: word_le_nat_alt u)
  then show ?thesis
    using that [of "fst (randr (of_nat i) (of_nat n - 1) w)"] randr_world by (metis prod.collapse)
qed

lemma mset_exchange:
  assumes "i < length xs" "j < length xs"
  shows "mset (xs[i := xs ! j, j := xs ! i]) = mset xs"
  using assms mset_swap [of j xs i] by (simp add: list_update_swap)

lemma shuffle_loop_permutes:
  assumes "i \<le> n" "n \<le> length element" "length element < 2 ^ 22" "rand_below_max w"
  shows "\<exists>element' k. shuffle_loop i n element w = Inr (element', w\<lparr>rand_pos := k\<rparr>) \<and>
    mset element' = mset element"
  using assms
proof (induction i n element w rule: shuffle_loop.induct)
  case (1 i n element w)
  show ?case
  proof (cases "i < n")
    case False
    then have "shuffle_loop i n element w = Inr (element, w\<lparr>rand_pos := rand_pos w\<rparr>)"
      by (simp add: shuffle_loop.simps)
    then show ?thesis by blast
  next
    case True
    let ?w = "w\<lparr>rand_pos := Suc (rand_pos w)\<rparr>"
    have i: "i < length element" using True 1 by simp
    obtain j where j: "randr (of_nat i) (of_nat (length element) - 1) w = (j, ?w)" "unat j < length element"
      using randr_index [OF i _ "1.prems"(4)] "1.prems"(3) by blast
    let ?element = "element[i := element ! unat j, unat j := element ! i]"
    have "\<exists>element' k. shuffle_loop (Suc i) n ?element ?w = Inr (element', ?w\<lparr>rand_pos := k\<rparr>) \<and>
        mset element' = mset ?element"
      using "1.IH" [OF True refl j(1) [symmetric]] True i j "1.prems" by simp
    then show ?thesis
      using True i j mset_exchange [OF i j(2)] by (subst shuffle_loop.simps) simp
  qed
qed

section \<open>Abstract view of the database\<close>

text \<open>The address in the stored image of a peer.\<close>

definition stored_addr :: "bytes \<Rightarrow> bt_peer_addr_t" where
  "stored_addr v = \<lparr>addr_ipv4_addr = le_word (take 4 (drop 4 v)), addr_port = le_word (take 2 (drop 32 v))\<rparr>"

definition peer_addr :: "bt_peer_t \<Rightarrow> bt_peer_addr_t" where
  "peer_addr p = \<lparr>addr_ipv4_addr = peer_ipv4_addr p, addr_port = peer_port p\<rparr>"

lemma stored_addr_image: "stored_addr (sent_bytes w (peer_image p)) = peer_addr p"
proof -
  obtain pad where "sent_bytes w (peer_image p) = peer_fields p @ pad"
    unfolding peer_image_def using sent_bytes_initialised by blast
  then show ?thesis by (simp add: stored_addr_def peer_addr_def peer_fields_def le_word_le_bytes)
qed

text \<open>The peers of one role in a swarm, with the addresses they announced.\<close>

definition swarm :: "redis_db \<Rightarrow> bytes \<Rightarrow> bytes \<Rightarrow> bool \<Rightarrow> bytes \<rightharpoonup> bt_peer_addr_t" where
  "swarm d prefix h seeder pid =
     (case d (swarm_key prefix h (peer_prefix_of seeder) pid) of
        Some (RString v, _) \<Rightarrow> Some (stored_addr v)
      | _ \<Rightarrow> None)"

text \<open>How often a torrent was downloaded.\<close>

definition downloads_of :: "redis_db \<Rightarrow> bytes \<Rightarrow> bytes \<Rightarrow> int" where
  "downloads_of d prefix h =
     (case d (torrent_key prefix h) of
        Some (RHash f, _) \<Rightarrow> (case f (str ''downs'') of None \<Rightarrow> 0 | Some v \<Rightarrow> strtoimax v)
      | _ \<Rightarrow> 0)"

text \<open>A list key holds a set, and the key of a connection identifier a string, if anything.\<close>

definition list_ok :: "redis_db \<Rightarrow> bytes \<Rightarrow> bool" where
  "list_ok d k \<longleftrightarrow> (\<forall>x t. d k = Some (x, t) \<longrightarrow> (\<exists>A. x = RSet A))"

definition conn_ok :: "bytes \<Rightarrow> redis_db \<Rightarrow> 64 word \<Rightarrow> bool" where
  "conn_ok prefix d conn_id \<longleftrightarrow> (\<forall>x t. d (conn_key prefix conn_id) = Some (x, t) \<longrightarrow> (\<exists>v. x = RString v))"

text \<open>
  The invariant of the tracker's part of the database: a peer key holds the 40 bytes of a
  \<open>bt_peer_t\<close>, a torrent key a hash whose field \<open>downs\<close>, if present, is a 64-bit number, the lists are
  sets and connection identifiers strings. Only finitely many keys are live.
\<close>

definition torrent_value_ok :: "redis_value \<Rightarrow> bool" where
  "torrent_value_ok x \<longleftrightarrow>
     (\<exists>f. x = RHash f \<and> (\<forall>v. f (str ''downs'') = Some v \<longrightarrow> (\<exists>n. is_int64 n \<and> v = decimal n)))"

definition db_ok :: "bytes \<Rightarrow> redis_db \<Rightarrow> bool" where
  "db_ok prefix d \<longleftrightarrow>
     finite (dom d) \<and>
     (\<forall>k x t. d (prefix @ str '':pr:'' @ k) = Some (x, t) \<longrightarrow>
        (\<exists>v. x = RString v \<and> length v = sizeof_bt_peer_t)) \<and>
     (\<forall>h x t. length h = 40 \<longrightarrow> d (torrent_key prefix h) = Some (x, t) \<longrightarrow> torrent_value_ok x) \<and>
     list_ok d (whitelist_key prefix) \<and> list_ok d (blacklist_key prefix) \<and> (\<forall>i. conn_ok prefix d i)"

lemma db_ok_lists:
  assumes "db_ok prefix d"
  shows "list_ok d (whitelist_key prefix)" "list_ok d (blacklist_key prefix)" "conn_ok prefix d i"
  using assms by (simp_all add: db_ok_def)

lemma db_ok_swarm_key:
  assumes "db_ok prefix d" "d (swarm_key prefix h r pid) = Some (x, t)"
  shows "\<exists>v. x = RString v \<and> length v = sizeof_bt_peer_t"
  using assms(1) [unfolded db_ok_def] assms(2) [unfolded swarm_key_def swarm_prefix_def append_assoc]
  by blast

lemma dom_swarm:
  assumes "db_ok prefix d"
  shows "pid \<in> dom (swarm d prefix h b) \<longleftrightarrow> swarm_key prefix h (peer_prefix_of b) pid \<in> dom d"
  using db_ok_swarm_key [OF assms, of h "peer_prefix_of b" pid]
  by (auto simp: swarm_def dom_def split: option.splits redis_value.splits)

text \<open>The keys \<open>KEYS\<close> finds for a role are the members of the swarm in that role.\<close>

lemma keys_of_swarm:
  assumes "db_ok prefix d"
  shows "keys_with_prefix d (swarm_prefix prefix h (peer_prefix_of b)) =
    swarm_key prefix h (peer_prefix_of b) ` dom (swarm d prefix h b)"
proof -
  have "keys_with_prefix d (swarm_prefix prefix h (peer_prefix_of b)) =
      swarm_key prefix h (peer_prefix_of b) ` {pid. swarm_key prefix h (peer_prefix_of b) pid \<in> dom d}"
    by (auto simp: keys_with_prefix_def swarm_key_def)
  also have "{pid. swarm_key prefix h (peer_prefix_of b) pid \<in> dom d} = dom (swarm d prefix h b)"
    using dom_swarm [OF assms] by blast
  finally show ?thesis .
qed

lemma card_keys_of_swarm:
  assumes "db_ok prefix d"
  shows "card (keys_with_prefix d (swarm_prefix prefix h (peer_prefix_of b))) = card (dom (swarm d prefix h b))"
  unfolding keys_of_swarm [OF assms]
  by (rule card_image) (auto intro: inj_onI simp: swarm_key_inject)

lemma finite_swarm:
  assumes "db_ok prefix d"
  shows "finite (dom (swarm d prefix h b))"
proof (rule finite_imageD [where f = "swarm_key prefix h (peer_prefix_of b)"])
  have "swarm_key prefix h (peer_prefix_of b) ` dom (swarm d prefix h b) \<subseteq> dom d"
    using dom_swarm [OF assms] by blast
  then show "finite (swarm_key prefix h (peer_prefix_of b) ` dom (swarm d prefix h b))"
    using assms finite_subset by (auto simp: db_ok_def)
qed (auto intro: inj_onI simp: swarm_key_inject)

text \<open>Changes of the database that keep the invariant.\<close>

lemma key_pr_disjoint:
  "conn_key p i \<noteq> p @ str '':pr:'' @ k" "torrent_key p g \<noteq> p @ str '':pr:'' @ k"
  "whitelist_key p \<noteq> p @ str '':pr:'' @ k" "blacklist_key p \<noteq> p @ str '':pr:'' @ k"
  by (simp_all add: key_defs str_simps)

lemmas keys_differ =
  key_classes_disjoint key_classes_disjoint [symmetric] key_pr_disjoint key_pr_disjoint [symmetric]

lemma list_ok_upd:
  "list_ok d k \<Longrightarrow> k \<noteq> k' \<Longrightarrow> list_ok (d(k' := e)) k"
  "list_ok d k \<Longrightarrow> list_ok (d(k' := None)) k"
  by (auto simp: list_ok_def)

lemma conn_ok_upd:
  "conn_ok p d i \<Longrightarrow> conn_key p i \<noteq> k \<Longrightarrow> conn_ok p (d(k := e)) i"
  "conn_ok p d i \<Longrightarrow> conn_ok p (d(k := None)) i"
  "conn_ok p d i \<Longrightarrow> conn_ok p (d(conn_key p j \<mapsto> (RString v, t))) i"
  by (auto simp: conn_ok_def)

lemma db_ok_conn [simp]:
  assumes "db_ok prefix d"
  shows "db_ok prefix (d(conn_key prefix i \<mapsto> (RString v, t)))"
  using assms by (auto simp: db_ok_def keys_differ intro: list_ok_upd conn_ok_upd)

lemma db_ok_insert [simp]:
  assumes "db_ok prefix d" "length v = sizeof_bt_peer_t"
  shows "db_ok prefix (d(swarm_key prefix h r pid \<mapsto> (RString v, t)))"
  using assms by (auto simp: db_ok_def keys_differ intro: list_ok_upd conn_ok_upd)

lemma db_ok_remove [simp]: "db_ok prefix d \<Longrightarrow> db_ok prefix (d(k := None))"
  by (auto simp: db_ok_def intro: list_ok_upd conn_ok_upd)

lemma db_ok_torrent [simp]:
  assumes "db_ok prefix d" "torrent_value_ok x" "length h = 40"
  shows "db_ok prefix (d(torrent_key prefix h \<mapsto> (x, t)))"
  using assms torrent_key_lists [of h prefix]
  by (auto simp: db_ok_def keys_differ intro!: list_ok_upd conn_ok_upd)

lemma swarm_upd [simp]:
  "swarm (d(swarm_key prefix h (peer_prefix_of b) pid \<mapsto> (RString v, t))) prefix h b' =
     (if b' = b then (swarm d prefix h b)(pid \<mapsto> stored_addr v) else swarm d prefix h b')"
  "swarm (d(swarm_key prefix h (peer_prefix_of b) pid := None)) prefix h b' =
     (if b' = b then (swarm d prefix h b)(pid := None) else swarm d prefix h b')"
  "swarm (d(torrent_key prefix g \<mapsto> e)) prefix h b' = swarm d prefix h b'"
  "swarm (d(conn_key prefix i \<mapsto> e)) prefix h b' = swarm d prefix h b'"
  by (auto simp: swarm_def fun_eq_iff swarm_key_inject keys_differ)

lemma downloads_upd [simp]:
  "downloads_of (d(swarm_key prefix h r pid := e)) prefix g = downloads_of d prefix g"
  "downloads_of (d(conn_key prefix i := e)) prefix g = downloads_of d prefix g"
  by (simp_all add: downloads_of_def keys_differ)

lemma swarm_cong:
  "(\<And>k. k \<noteq> torrent_key prefix g \<Longrightarrow> d' k = d k) \<Longrightarrow> swarm d' prefix h b = swarm d prefix h b"
  by (auto simp: swarm_def fun_eq_iff keys_differ)

text \<open>Membership in one of the two lists of info hashes.\<close>

definition listed :: "redis_db \<Rightarrow> bytes \<Rightarrow> bytes \<Rightarrow> bool" where
  "listed d k x \<longleftrightarrow> (\<exists>A t. d k = Some (RSet A, t) \<and> x \<in> A)"

text \<open>Which info hashes a configuration refuses.\<close>

definition refused :: "bt_config_t \<Rightarrow> redis_db \<Rightarrow> bytes \<Rightarrow> bytes \<Rightarrow> bool" where
  "refused config d prefix h =
     (case info_hash_restriction config of
        BT_RESTRICTION_WHITELIST \<Rightarrow> \<not> listed d (whitelist_key prefix) h
      | BT_RESTRICTION_BLACKLIST \<Rightarrow> listed d (blacklist_key prefix) h
      | BT_RESTRICTION_NONE \<Rightarrow> False)"

text \<open>The number of loop iterations of \<open>bt_peer_list\<close>.\<close>

lemma upper_index_of_min:
  assumes "n < 2 ^ 31" "0 \<le> sint want"
  shows "upper_index_of n want = min n (nat (sint want))"
proof -
  have n: "sint (of_nat n :: 32 word) = int n"
    using assms(1) by (simp add: signed_of_nat signed_take_bit_int_eq_self)
  have u: "unat (scast want :: 64 word) = nat (sint want)"
    using assms(2) sint_lt [of want] uint_word_of_int_eq [of "sint want", where 'a = 64]
    by (simp add: unat_eq_nat_uint take_bit_int_eq_self)
  have "unat (of_nat n :: 64 word) = n" using assms(1) by (intro of_nat_inverse refl) simp
  then have "((of_nat n :: 64 word) > scast want) = (nat (sint want) < n)"
    by (simp add: word_less_nat_alt u)
  then show ?thesis using n by (simp add: upper_index_of_def)
qed

end
