(* ===== verification/Bt_Swarm.thy ===== *)
theory Bt_Swarm
  imports Bt_Store
begin

text \<open>
  The operations of \<open>data.c\<close> over a Redis connection: their effect on the database, proved once from
  the contract \<open>redis_connection\<close>, and the contract of a peer store that follows.
\<close>

section \<open>The tracker's connection\<close>

text \<open>Counting a download, on the database: a counter at the largest number stays there.\<close>

lemma hincrby_downloads:
  assumes "redis_ok d (HINCRBY (torrent_key prefix h) (str ''downs'') 1) r d'" "db_ok prefix d" "length h = 40"
  shows "db_ok prefix d' \<and> downloads_of d' prefix h = min (2 ^ 63 - 1) (downloads_of d prefix h + 1) \<and>
    (\<forall>k. k \<noteq> torrent_key prefix h \<longrightarrow> d' k = d k)"
proof -
  let ?f = "str ''downs''"
  have ok: "torrent_value_ok x" if "d (torrent_key prefix h) = Some (x, t)" for x t
    using that assms(2,3) unfolding db_ok_def by blast
  have one: "is_int64 1" by (simp add: is_int64_def)
  have new: "torrent_value_ok (RHash (g(?f \<mapsto> decimal n)))" if "is_int64 n" for g n
    using that by (auto simp: torrent_value_ok_def)
  from assms(1) show ?thesis
  proof cases
    case (hincrby g t n)
    then show ?thesis
      using assms(2,3) new by (auto simp: downloads_of_def strtoimax_decimal is_int64_def)
  next
    case (hincrby_overflow g t n)
    then have "is_int64 n" using ok [of "RHash g" t] by (auto simp: torrent_value_ok_def decimal_inject)
    then show ?thesis
      using hincrby_overflow assms(2) by (auto simp: downloads_of_def strtoimax_decimal is_int64_def)
  next
    case (hincrby_new_field g t)
    then show ?thesis using one new assms(2,3) by (auto simp: downloads_of_def strtoimax_decimal)
  next
    case hincrby_new_key
    then show ?thesis using one new assms(2,3) by (auto simp: downloads_of_def strtoimax_decimal)
  qed (use ok in \<open>fastforce simp: torrent_value_ok_def\<close>)+
qed

text \<open>
  A connection together with a configuration whose key prefix is present and free of glob
  characters, and whose peers live for a positive number of seconds.
\<close>

locale tracker_store = redis_connection api view pending
  for api :: "('c, 's) hiredis_api" and view :: "'c \<Rightarrow> 's \<Rightarrow> redis_db"
    and pending :: "'c \<Rightarrow> 's \<Rightarrow> redis_command list" +
  fixes redis :: 'c and config :: bt_config_t and prefix :: bytes
  assumes prefix: "redis_key_prefix config = Some prefix"
    and prefix_text: "glob_free prefix"
    and ttl: "0 < sint (announce_peer_ttl config)"
begin

abbreviation db :: "'s world \<Rightarrow> redis_db" where
  "db w \<equiv> view redis (server w)"

abbreviation idle :: "'s world \<Rightarrow> bool" where
  "idle w \<equiv> pending redis (server w) = []"

text \<open>The state after an operation: an idle connection, the given database, the same environment.\<close>

definition becomes :: "'s world \<Rightarrow> redis_db \<Rightarrow> 's world \<Rightarrow> bool" where
  "becomes w d w' \<longleftrightarrow> idle w' \<and> db w' = d \<and> same_env w w'"

lemma becomes_trans: "becomes w d w' \<Longrightarrow> becomes w' d' w'' \<Longrightarrow> becomes w d' w''"
  by (auto simp: becomes_def intro: same_env_trans)

lemma run_command:
  assumes "idle w" "\<nexists>n. cmd = SELECT n"
  obtains r s where "redis_command api redis cmd w = (Some r, w\<lparr>server := s\<rparr>)"
    "redis_ok (db w) cmd r (view redis s)" "pending redis s = []"
  using command [OF assms] by (auto simp: redis_command_def)

lemma run_reply:
  assumes "pending redis (server w) = cmd # cmds" "\<nexists>n. cmd = SELECT n"
  obtains r s where "get_reply api redis w = (Some r, w\<lparr>server := s\<rparr>)"
    "redis_ok (db w) cmd r (view redis s)" "pending redis s = cmds"
  using reply [OF assms] by (auto simp: get_reply_def)

lemma append_command_view [simp]:
  "view redis (server (append_command api redis cmd w)) = db w"
  "pending redis (server (append_command api redis cmd w)) = pending redis (server w) @ [cmd]"
  "same_env w' (append_command api redis cmd w) = same_env w' w"
  by (simp_all add: append_command_def append)

lemma insert_connection_effect:
  assumes "idle w"
  shows "\<exists>w'. bt_insert_connection api redis config conn_id w = Inr w' \<and>
    becomes w ((db w)(conn_key prefix conn_id \<mapsto> (RString (str ''1''), Some 120))) w'"
proof -
  have ttl120: "uint BT_ACTIVE_CONNECTION_TTL = 120" by (simp add: BT_ACTIVE_CONNECTION_TTL_def)
  obtain r s where "redis_command api redis (SETEX (conn_key prefix conn_id) 120 (str ''1'')) w = (Some r, w\<lparr>server := s\<rparr>)"
    "redis_ok (db w) (SETEX (conn_key prefix conn_id) 120 (str ''1'')) r (view redis s)" "pending redis s = []"
    using run_command [OF assms] by blast
  then show ?thesis by (auto simp: bt_insert_connection_def prefix ttl120 becomes_def)
qed

lemma connection_valid_effect:
  assumes "idle w"
  shows "\<exists>w'. bt_connection_valid api redis config conn_id w =
      Inr (\<forall>x t. db w (conn_key prefix conn_id) = Some (x, t) \<longrightarrow> (\<exists>v. x = RString v), w') \<and>
    becomes w (db w) w'"
proof -
  obtain r s where "redis_command api redis (GET (conn_key prefix conn_id)) w = (Some r, w\<lparr>server := s\<rparr>)"
    "redis_ok (db w) (GET (conn_key prefix conn_id)) r (view redis s)" "pending redis s = []"
    using run_command [OF assms] by blast
  then show ?thesis
    by (auto simp: bt_connection_valid_def prefix becomes_def reply_defs)
qed

lemma insert_peer_effect:
  assumes "idle w"
  shows "\<exists>w'. bt_insert_peer api redis config h pid p seeder w = Inr w' \<and>
    becomes w ((db w)(swarm_key prefix h (peer_prefix_of seeder) pid \<mapsto>
      (RString (sent_bytes w (peer_image p)), Some (nat (sint (announce_peer_ttl config)))))) w'"
proof -
  let ?cmd = "SETEX (swarm_key prefix h (peer_prefix_of seeder) pid) (sint (announce_peer_ttl config))
    (sent_bytes w (peer_image p))"
  obtain r s where "redis_command api redis ?cmd w = (Some r, w\<lparr>server := s\<rparr>)"
    "redis_ok (db w) ?cmd r (view redis s)" "pending redis s = []"
    using run_command [OF assms] by blast
  then show ?thesis using ttl by (auto simp: bt_insert_peer_def prefix becomes_def)
qed

lemma remove_peer_effect:
  assumes "idle w"
  shows "\<exists>w'. bt_remove_peer api redis config h pid seeder w = Inr w' \<and>
    becomes w ((db w)(swarm_key prefix h (peer_prefix_of seeder) pid := None)) w'"
proof -
  let ?cmd = "DEL (swarm_key prefix h (peer_prefix_of seeder) pid)"
  obtain r s where "redis_command api redis ?cmd w = (Some r, w\<lparr>server := s\<rparr>)"
    "redis_ok (db w) ?cmd r (view redis s)" "pending redis s = []"
    using run_command [OF assms] by blast
  then show ?thesis by (auto simp: bt_remove_peer_def prefix becomes_def)
qed

text \<open>The counter stops at the largest 64-bit number, where \<open>HINCRBY\<close> refuses.\<close>

lemma increment_downloads_effect:
  assumes "idle w" "db_ok prefix (db w)" "length h = 40"
  shows "\<exists>w' d. bt_increment_downloads api redis config h w = Inr w' \<and> becomes w d w' \<and> db_ok prefix d \<and>
    downloads_of d prefix h = min (2 ^ 63 - 1) (downloads_of (db w) prefix h + 1) \<and>
    (\<forall>k. k \<noteq> torrent_key prefix h \<longrightarrow> d k = db w k)"
proof -
  let ?cmd = "HINCRBY (torrent_key prefix h) (str ''downs'') 1"
  obtain r s where s: "redis_command api redis ?cmd w = (Some r, w\<lparr>server := s\<rparr>)"
    "redis_ok (db w) ?cmd r (view redis s)" "pending redis s = []"
    using run_command [OF assms(1)] by blast
  from hincrby_downloads [OF s(2) assms(2,3)] show ?thesis
    using s by (auto simp: bt_increment_downloads_def prefix becomes_def)
qed

lemma promote_peer_effect:
  assumes "idle w" "db_ok prefix (db w)" "length h = 40"
  shows "\<exists>w' d. bt_promote_peer api redis config h pid w = Inr w' \<and> becomes w d w' \<and> db_ok prefix d \<and>
    (if pid \<in> dom (swarm (db w) prefix h False) then
       swarm d prefix h True = (swarm (db w) prefix h True)(pid := swarm (db w) prefix h False pid) \<and>
       swarm d prefix h False = (swarm (db w) prefix h False)(pid := None) \<and>
       downloads_of d prefix h = min (2 ^ 63 - 1) (downloads_of (db w) prefix h + 1)
     else d = db w) \<and>
    (\<forall>k. k \<notin> {swarm_key prefix h (peer_prefix_of False) pid, swarm_key prefix h (peer_prefix_of True) pid,
        torrent_key prefix h} \<longrightarrow> d k = db w k)"
proof -
  let ?lc = "swarm_key prefix h (peer_prefix_of False) pid" and ?sd = "swarm_key prefix h (peer_prefix_of True) pid"
  obtain r s where s: "redis_command api redis (RENAME ?lc ?sd) w = (Some r, w\<lparr>server := s\<rparr>)"
    "redis_ok (db w) (RENAME ?lc ?sd) r (view redis s)" "pending redis s = []"
    using run_command [OF assms(1)] by blast
  show ?thesis using s(2)
  proof cases
    case (rename e)
    obtain v t where e: "e = (RString v, t)" "length v = sizeof_bt_peer_t"
      using rename db_ok_swarm_key [OF assms(2)] by (metis prod.exhaust)
    let ?d = "(db w)(?lc := None, ?sd \<mapsto> (RString v, t))" and ?w = "w\<lparr>server := s\<rparr>"
    have w: "db ?w = ?d" "idle ?w" "db_ok prefix (db ?w)" using rename e s(3) assms(2) by simp_all
    obtain w' d where inc: "bt_increment_downloads api redis config h ?w = Inr w'" "becomes ?w d w'"
        "db_ok prefix d" "downloads_of d prefix h = min (2 ^ 63 - 1) (downloads_of ?d prefix h + 1)"
        "\<forall>k. k \<noteq> torrent_key prefix h \<longrightarrow> d k = ?d k"
      using increment_downloads_effect [OF w(2,3) assms(3)] w(1) by auto
    have "swarm d prefix h b = swarm ?d prefix h b" for b using inc(5) by (intro swarm_cong) blast
    moreover have "swarm (db w) prefix h False pid = Some (stored_addr v)"
      using rename e by (simp add: swarm_def)
    moreover have "bt_promote_peer api redis config h pid w = Inr w'"
      using s inc(1) rename by (auto simp: bt_promote_peer_def prefix reply_defs)
    ultimately show ?thesis
      using inc by (intro exI [of _ w'] exI [of _ d]) (auto simp: becomes_def)
  next
    case (rename_missing m)
    then have "pid \<notin> dom (swarm (db w) prefix h False)" by (simp add: swarm_def domIff)
    then show ?thesis
      using s assms(2) rename_missing by (auto simp: bt_promote_peer_def prefix becomes_def reply_defs)
  qed
qed

lemma blacklisted_effect:
  assumes "idle w" "list_ok (db w) (whitelist_key prefix)" "list_ok (db w) (blacklist_key prefix)"
  shows "\<exists>w'. bt_info_hash_blacklisted api redis config h w = Inr (refused config (db w) prefix h, w') \<and>
    becomes w (db w) w'"
proof -
  have member: "\<exists>s n. redis_command api redis (SISMEMBER k h) w = (Some (integer_reply n), w\<lparr>server := s\<rparr>) \<and>
      n = (if listed (db w) k h then 1 else 0) \<and> view redis s = db w \<and> pending redis s = []"
    if "list_ok (db w) k" for k
  proof -
    obtain r s where s: "redis_command api redis (SISMEMBER k h) w = (Some r, w\<lparr>server := s\<rparr>)"
      "redis_ok (db w) (SISMEMBER k h) r (view redis s)" "pending redis s = []"
      using run_command [OF assms(1)] by blast
    show ?thesis using s(2)
    proof cases
      case (sismember n)
      then show ?thesis using s by (auto simp: listed_def)
    next
      case (sismember_wrongtype y t m)
      then show ?thesis using that by (auto simp: list_ok_def)
    qed
  qed
  show ?thesis
  proof (cases "info_hash_restriction config")
    case BT_RESTRICTION_NONE
    then show ?thesis using assms(1) by (simp add: bt_info_hash_blacklisted_def refused_def becomes_def)
  next
    case BT_RESTRICTION_WHITELIST
    then show ?thesis using member [OF assms(2)]
      by (auto simp: bt_info_hash_blacklisted_def refused_def becomes_def prefix integer_reply_def)
  next
    case BT_RESTRICTION_BLACKLIST
    then show ?thesis using member [OF assms(3)]
      by (auto simp: bt_info_hash_blacklisted_def refused_def becomes_def prefix integer_reply_def)
  qed
qed

lemma glob_free_swarm_prefix:
  "glob_free h \<Longrightarrow> glob_free (swarm_prefix prefix h (peer_prefix_of b))"
  using prefix_text by (simp add: swarm_prefix_def str_simps)

lemma star [simp]: "str ''*'' = [42]"
  by (simp add: str_simps)

text \<open>Reading the replies of the three pipelined commands.\<close>

lemma take_keys_reply:
  assumes "pending redis (server w) = KEYS (swarm_prefix prefix h (peer_prefix_of b) @ [42]) # cmds"
    "glob_free h" "db_ok prefix (db w)"
  shows "\<exists>r s. take_reply api redis w = Inr (r, w\<lparr>server := s\<rparr>) \<and> view redis s = db w \<and>
    pending redis s = cmds \<and> length (relement r) = card (dom (swarm (db w) prefix h b))"
proof -
  obtain r s where s: "get_reply api redis w = (Some r, w\<lparr>server := s\<rparr>)"
    "redis_ok (db w) (KEYS (swarm_prefix prefix h (peer_prefix_of b) @ [42])) r (view redis s)"
    "pending redis s = cmds"
    using run_reply [OF assms(1)] by blast
  obtain ks where ks: "r = array_reply (map string_reply ks)" "distinct ks" "view redis s = db w"
    "set ks = keys_with_prefix (db w) (swarm_prefix prefix h (peer_prefix_of b))"
    using redis_ok_KEYS_prefix [OF s(2) glob_free_swarm_prefix [OF assms(2)]] by metis
  then have "length ks = card (dom (swarm (db w) prefix h b))"
    by (metis distinct_card card_keys_of_swarm [OF assms(3)])
  then show ?thesis using s(1,3) ks by (auto simp: take_reply_def array_reply_def)
qed

lemma take_downloads_reply:
  assumes "pending redis (server w) = HGET (torrent_key prefix h) (str ''downs'') # cmds"
    "db_ok prefix (db w)" "length h = 40"
  shows "\<exists>r s. take_reply api redis w = Inr (r, w\<lparr>server := s\<rparr>) \<and> view redis s = db w \<and>
    pending redis s = cmds \<and>
    (case rstr r of None \<Rightarrow> 0 | Some v \<Rightarrow> strtoimax v) = downloads_of (db w) prefix h"
proof -
  obtain r s where s: "get_reply api redis w = (Some r, w\<lparr>server := s\<rparr>)"
    "redis_ok (db w) (HGET (torrent_key prefix h) (str ''downs'')) r (view redis s)"
    "pending redis s = cmds"
    using run_reply [OF assms(1)] by blast
  have ok: "torrent_value_ok x" if "db w (torrent_key prefix h) = Some (x, t)" for x t
    using that assms(2,3) unfolding db_ok_def by blast
  show ?thesis using s(2)
  proof cases
    case (hget g t v)
    then show ?thesis using s(1,3) by (auto simp: take_reply_def downloads_of_def string_reply_def)
  next
    case hget_missing
    then show ?thesis using s(1,3) by (auto simp: take_reply_def downloads_of_def nil_reply_def)
  next
    case (hget_wrongtype x t m)
    then show ?thesis using ok by (fastforce simp: torrent_value_ok_def)
  qed
qed

lemma torrent_stats_effect:
  assumes "idle w" "db_ok prefix (db w)" "length h = 40" "glob_free h"
  shows "\<exists>w'. bt_get_torrent_stats api redis config h w =
      Inr (\<lparr>st_seeders = of_nat (card (dom (swarm (db w) prefix h True))),
            st_downloads = word_of_int (downloads_of (db w) prefix h),
            st_leechers = of_nat (card (dom (swarm (db w) prefix h False)))\<rparr>, w') \<and>
    becomes w (db w) w'"
proof -
  let ?sd = "KEYS (swarm_prefix prefix h (peer_prefix_of True) @ [42])"
  let ?lc = "KEYS (swarm_prefix prefix h (peer_prefix_of False) @ [42])"
  let ?dl = "HGET (torrent_key prefix h) (str ''downs'')"
  let ?w0 = "append_command api redis ?dl (append_command api redis ?lc (append_command api redis ?sd w))"
  have w0: "db ?w0 = db w" "pending redis (server ?w0) = [?sd, ?lc, ?dl]" "same_env w ?w0"
    using assms(1) by simp_all
  obtain r1 s1 where 1: "take_reply api redis ?w0 = Inr (r1, ?w0\<lparr>server := s1\<rparr>)" "view redis s1 = db w"
    "pending redis s1 = [?lc, ?dl]" "length (relement r1) = card (dom (swarm (db w) prefix h True))"
    using take_keys_reply [OF w0(2) assms(4)] w0(1) assms(2) by auto
  obtain r2 s2 where 2: "take_reply api redis (?w0\<lparr>server := s1\<rparr>) = Inr (r2, ?w0\<lparr>server := s2\<rparr>)"
    "view redis s2 = db w" "pending redis s2 = [?dl]"
    "length (relement r2) = card (dom (swarm (db w) prefix h False))"
    using take_keys_reply [of "?w0\<lparr>server := s1\<rparr>" h False "[?dl]"] 1 assms(2,4) by auto
  obtain r3 s3 where 3: "take_reply api redis (?w0\<lparr>server := s2\<rparr>) = Inr (r3, ?w0\<lparr>server := s3\<rparr>)"
    "view redis s3 = db w" "pending redis s3 = []"
    "(case rstr r3 of None \<Rightarrow> 0 | Some v \<Rightarrow> strtoimax v) = downloads_of (db w) prefix h"
    using take_downloads_reply [of "?w0\<lparr>server := s2\<rparr>" h "[]"] 2 assms(2,3) by auto
  have "(case rstr r3 of None \<Rightarrow> 0 | Some v \<Rightarrow> word_of_int (strtoimax v)) =
      (word_of_int (downloads_of (db w) prefix h) :: 32 word)"
    unfolding 3(4) [symmetric] by (simp split: option.split)
  then show ?thesis
    using 1 2 3 w0 by (simp add: bt_get_torrent_stats_def prefix becomes_def)
qed

section \<open>Peer lists\<close>

lemma append_loop_view:
  "db (append_loop api redis (map string_reply ks) w) = db w"
  "pending redis (server (append_loop api redis (map string_reply ks) w)) =
     pending redis (server w) @ map GET ks"
  "same_env w' (append_loop api redis (map string_reply ks) w) = same_env w' w"
  by (induction ks arbitrary: w) (simp_all add: string_reply_def)

text \<open>The address stored under a key.\<close>

abbreviation addr_at :: "redis_db \<Rightarrow> bytes \<Rightarrow> bt_peer_addr_t" where
  "addr_at d k \<equiv> (case d k of Some (RString v, _) \<Rightarrow> stored_addr v)"

lemma load_stored:
  assumes "length v = sizeof_bt_peer_t"
  shows "load 4 v 4 = Inr (addr_ipv4_addr (stored_addr v))" "load 2 v 32 = Inr (addr_port (stored_addr v))"
  using assms by (simp_all add: load_def read_bytes_def sizeof_bt_peer_t_def stored_addr_def)

lemma fetch_loop_effect:
  assumes "pending redis (server w) = map GET ks" "memory_available w"
    "\<forall>k \<in> set ks. \<exists>v t. db w k = Some (RString v, t) \<and> length v = sizeof_bt_peer_t"
  shows "\<exists>w'. fetch_loop api redis (length ks) lst n w =
      Inr ((rev (map (addr_at (db w)) ks) @ lst, n + length ks), w') \<and> becomes w (db w) w'"
  using assms
proof (induction ks arbitrary: lst n w)
  case Nil
  then show ?case by (simp add: becomes_def)
next
  case (Cons k ks)
  obtain v t where v: "db w k = Some (RString v, t)" "length v = sizeof_bt_peer_t"
    using Cons.prems(3) by auto
  have "pending redis (server w) = GET k # map GET ks" using Cons.prems(1) by simp
  then obtain r s where s: "get_reply api redis w = (Some r, w\<lparr>server := s\<rparr>)"
    "redis_ok (db w) (GET k) r (view redis s)" "pending redis s = map GET ks"
    by (rule run_reply) blast
  have r: "r = string_reply v" "view redis s = db w" using s(2) v by auto
  let ?w = "w\<lparr>server := s, malloc_pos := Suc (malloc_pos w)\<rparr>"
  obtain w' where w': "fetch_loop api redis (length ks) (stored_addr v # lst) (Suc n) ?w =
      Inr ((rev (map (addr_at (db w)) ks) @ stored_addr v # lst, Suc n + length ks), w')"
    "becomes ?w (db w) w'"
    using Cons.IH [of ?w "stored_addr v # lst" "Suc n"] Cons.prems s(1,3) r by auto
  then show ?case
    using s(1) r v Cons.prems(2) load_stored [OF v(2)]
    by (simp add: string_reply_def bt_new_peer_addr_def becomes_def)
qed

text \<open>A shuffled array of text replies is an array of the same texts.\<close>

lemma shuffled_texts:
  assumes "mset element = mset (map string_reply ks)"
  obtains ks' where "element = map string_reply ks'" "mset ks' = mset ks"
proof
  let ?text = "\<lambda>r. the (rstr r)"
  have rs: "?text (string_reply k) = k" for k by (simp add: string_reply_def)
  have "set element = string_reply ` set ks" using mset_eq_setD [OF assms] by simp
  then have "map (\<lambda>r. string_reply (?text r)) element = element"
    by (intro map_idI) (auto simp: rs)
  then show "element = map string_reply (map ?text element)" by (simp add: o_def)
  have "mset (map ?text element) = image_mset ?text (mset (map string_reply ks))" using assms by simp
  also have "\<dots> = mset ks" by (simp add: rs image_mset.compositionality o_def)
  finally show "mset (map ?text element) = mset ks" .
qed

lemma addr_at_swarm_key:
  assumes "db_ok prefix d" "pid \<in> dom (swarm d prefix h b)"
  shows "addr_at d (swarm_key prefix h (peer_prefix_of b) pid) = the (swarm d prefix h b pid)"
  using assms(2) by (auto simp: swarm_def split: option.splits redis_value.splits)

text \<open>The first part of \<open>bt_peer_list\<close>: keys of the swarm, as many as wanted, in random order.\<close>

lemma peer_list_keys:
  assumes "idle w" "db_ok prefix (db w)" "glob_free h" "rand_below_max w"
    and want: "0 \<le> sint want" and size: "card (dom (swarm (db w) prefix h b)) < 2 ^ 22"
  shows "\<exists>ks w1. bt_peer_list api redis config h want n0 b w =
      fetch_loop api redis (length ks) [] 0 (append_loop api redis (map string_reply ks) w1) \<and>
    becomes w (db w) w1 \<and> distinct ks \<and> set ks \<subseteq> swarm_key prefix h (peer_prefix_of b) ` dom (swarm (db w) prefix h b) \<and>
    length ks = min (card (dom (swarm (db w) prefix h b))) (nat (sint want))"
proof -
  let ?sp = "swarm_prefix prefix h (peer_prefix_of b)" and ?S = "swarm (db w) prefix h b"
  let ?n = "min (card (dom ?S)) (nat (sint want))"
  obtain r s where s: "redis_command api redis (KEYS (?sp @ [42])) w = (Some r, w\<lparr>server := s\<rparr>)"
    "redis_ok (db w) (KEYS (?sp @ [42])) r (view redis s)" "pending redis s = []"
    using run_command [OF assms(1)] by blast
  obtain ks where ks: "r = array_reply (map string_reply ks)" "distinct ks" "view redis s = db w"
    "set ks = keys_with_prefix (db w) ?sp"
    using redis_ok_KEYS_prefix [OF s(2) glob_free_swarm_prefix [OF assms(3)]] by metis
  have len: "length ks = card (dom ?S)"
    using ks(2,4) by (metis distinct_card card_keys_of_swarm [OF assms(2)])
  have ui: "upper_index_of (length ks) want = ?n"
    using upper_index_of_min [OF _ want] size len by simp
  obtain element k where sh: "shuffle_loop 0 ?n (map string_reply ks) (w\<lparr>server := s\<rparr>) =
      Inr (element, w\<lparr>server := s, rand_pos := k\<rparr>)" "mset element = mset (map string_reply ks)"
    using shuffle_loop_permutes [of 0 ?n "map string_reply ks" "w\<lparr>server := s\<rparr>"] size assms(4) len by auto
  obtain ks' where ks': "element = map string_reply ks'" "mset ks' = mset ks"
    using shuffled_texts [OF sh(2)] by blast
  have "set (take ?n ks') \<subseteq> swarm_key prefix h (peer_prefix_of b) ` dom ?S" "distinct (take ?n ks')" "length (take ?n ks') = ?n"
    using mset_eq_setD [OF ks'(2)] mset_eq_length [OF ks'(2)] mset_eq_imp_distinct_iff [OF ks'(2)]
      ks(2,4) len keys_of_swarm [OF assms(2)] set_take_subset [of ?n ks'] by auto
  moreover have "becomes w (db w) (w\<lparr>server := s, rand_pos := k\<rparr>)" using s(3) ks(3) by (simp add: becomes_def)
  ultimately show ?thesis
    using s ks ui sh ks'
    by (intro exI [of _ "take ?n ks'"] exI [of _ "w\<lparr>server := s, rand_pos := k\<rparr>"])
      (simp add: bt_peer_list_def prefix array_reply_def take_map Let_def)
qed

lemma peer_list_effect:
  assumes "idle w" "db_ok prefix (db w)" "glob_free h" "memory_available w" "rand_below_max w"
    and want: "0 \<le> sint want" and size: "card (dom (swarm (db w) prefix h b)) < 2 ^ 22"
  shows "\<exists>w' pids. bt_peer_list api redis config h want n0 b w =
      Inr ((map (\<lambda>pid. the (swarm (db w) prefix h b pid)) pids, length pids), w') \<and>
    becomes w (db w) w' \<and> distinct pids \<and> set pids \<subseteq> dom (swarm (db w) prefix h b) \<and>
    length pids = min (card (dom (swarm (db w) prefix h b))) (nat (sint want))"
proof -
  let ?S = "swarm (db w) prefix h b" and ?key = "swarm_key prefix h (peer_prefix_of b)"
  obtain ks w1 where ks: "bt_peer_list api redis config h want n0 b w =
      fetch_loop api redis (length ks) [] 0 (append_loop api redis (map string_reply ks) w1)"
      "becomes w (db w) w1" "distinct ks" "set ks \<subseteq> ?key ` dom ?S" "length ks = min (card (dom ?S)) (nat (sint want))"
    using peer_list_keys [OF assms(1-3,5) want size] by blast
  let ?w = "append_loop api redis (map string_reply ks) w1"
  have w: "db ?w = db w" "pending redis (server ?w) = map GET ks" "same_env w ?w"
    using ks(2) by (simp_all add: append_loop_view becomes_def)
  have "\<exists>v t. db w (?key pid) = Some (RString v, t) \<and> length v = sizeof_bt_peer_t" if "pid \<in> dom ?S" for pid
    using that dom_swarm [OF assms(2)] db_ok_swarm_key [OF assms(2)] by (metis domD prod.collapse)
  then have "\<forall>k \<in> set ks. \<exists>v t. db ?w k = Some (RString v, t) \<and> length v = sizeof_bt_peer_t"
    using ks(4) unfolding w(1) by blast
  then obtain w' where w': "fetch_loop api redis (length ks) [] 0 ?w =
      Inr ((rev (map (addr_at (db w)) ks) @ [], 0 + length ks), w')" "becomes ?w (db w) w'"
    using fetch_loop_effect [OF w(2), of "[]" 0] same_env_keeps(1) [OF w(3)] assms(4) unfolding w(1) by blast
  obtain pids where pids: "rev ks = map ?key pids" "set pids \<subseteq> dom ?S"
    using images_of_list [of "rev ks" ?key "dom ?S"] ks(4) unfolding set_rev by blast
  have "distinct pids" using pids(1) ks(3) by (metis distinct_map distinct_rev)
  moreover have "rev (map (addr_at (db w)) ks) = map (\<lambda>pid. the (?S pid)) pids"
    using pids addr_at_swarm_key [OF assms(2)] by (simp add: rev_map) (auto simp: subset_eq)
  moreover have "length pids = length ks" using pids(1) by (metis length_map length_rev)
  ultimately show ?thesis
    using ks(1,5) w(3) w' pids(2) by (auto simp: becomes_def intro: same_env_trans)
qed

end

end
