(* ===== verification/Bt_Peers.thy ===== *)
theory Bt_Peers
  imports Bt_Swarm
begin

text \<open>
  What \<open>announce.c\<close> needs of \<open>data.c\<close>: a store of swarms. The contract \<open>peer_store\<close> speaks of abstract
  swarms only; the operations of \<open>data.c\<close> on a Redis connection satisfy it.
\<close>

section \<open>Abstract swarms\<close>

text \<open>
  The peers of a torrent, seeders (\<open>True\<close>) and leechers (\<open>False\<close>), with their addresses, and the number
  of completed downloads.
\<close>

record swarm_state =
  sw_peers :: "bool \<Rightarrow> bytes \<rightharpoonup> bt_peer_addr_t"
  sw_downloads :: int

definition add_peer :: "bool \<Rightarrow> bytes \<Rightarrow> bt_peer_addr_t \<Rightarrow> swarm_state \<Rightarrow> swarm_state" where
  "add_peer b pid a s = s\<lparr>sw_peers := (sw_peers s)(b := (sw_peers s b)(pid \<mapsto> a))\<rparr>"

definition drop_peer :: "bool \<Rightarrow> bytes \<Rightarrow> swarm_state \<Rightarrow> swarm_state" where
  "drop_peer b pid s = s\<lparr>sw_peers := (sw_peers s)(b := (sw_peers s b)(pid := None))\<rparr>"

text \<open>A leecher becomes a seeder and the download counts, up to the largest 64-bit number.\<close>

definition complete_peer :: "bytes \<Rightarrow> swarm_state \<Rightarrow> swarm_state" where
  "complete_peer pid s =
     (case sw_peers s False pid of
        None \<Rightarrow> s
      | Some a \<Rightarrow> \<lparr>sw_peers = (\<lambda>b. if b then (sw_peers s True)(pid \<mapsto> a) else (sw_peers s False)(pid := None)),
                   sw_downloads = min (2 ^ 63 - 1) (sw_downloads s + 1)\<rparr>)"

section \<open>The contract\<close>

locale peer_store =
  fixes insert_op :: "bytes \<Rightarrow> bytes \<Rightarrow> bt_peer_t \<Rightarrow> bool \<Rightarrow> 'w \<Rightarrow> 'w result"
    and remove_op :: "bytes \<Rightarrow> bytes \<Rightarrow> bool \<Rightarrow> 'w \<Rightarrow> 'w result"
    and promote_op :: "bytes \<Rightarrow> bytes \<Rightarrow> 'w \<Rightarrow> 'w result"
    and inv :: "'w \<Rightarrow> bool"
    and swarms :: "'w \<Rightarrow> bytes \<Rightarrow> swarm_state"
  assumes insert_law: "inv w \<Longrightarrow> length h = 40 \<Longrightarrow> \<exists>w'. insert_op h pid p b w = Inr w' \<and> inv w' \<and>
      swarms w' = (swarms w)(h := add_peer b pid (peer_addr p) (swarms w h))"
    and remove_law: "inv w \<Longrightarrow> length h = 40 \<Longrightarrow> \<exists>w'. remove_op h pid b w = Inr w' \<and> inv w' \<and>
      swarms w' = (swarms w)(h := drop_peer b pid (swarms w h))"
    and promote_law: "inv w \<Longrightarrow> length h = 40 \<Longrightarrow> \<exists>w'. promote_op h pid w = Inr w' \<and> inv w' \<and>
      swarms w' = (swarms w)(h := complete_peer pid (swarms w h))"
begin

text \<open>A peer that was inserted is found under its role with its address, until it is removed.\<close>

lemma insert_lookup:
  assumes "inv w" "length h = 40" "insert_op h pid p b w = Inr w'"
  shows "sw_peers (swarms w' h) b pid = Some (peer_addr p)"
  using insert_law [OF assms(1,2), of pid p b] assms(3) by (auto simp: add_peer_def)

lemma insert_remove:
  assumes "inv w" "length h = 40" "pid \<notin> dom (sw_peers (swarms w h) b)"
  shows "\<exists>w'. bindE (insert_op h pid p b w) (remove_op h pid b) = Inr w' \<and> inv w' \<and> swarms w' = swarms w"
proof -
  obtain w1 where w1: "insert_op h pid p b w = Inr w1" "inv w1"
    "swarms w1 = (swarms w)(h := add_peer b pid (peer_addr p) (swarms w h))"
    using insert_law [OF assms(1,2)] by blast
  obtain w2 where "remove_op h pid b w1 = Inr w2" "inv w2"
    "swarms w2 = (swarms w1)(h := drop_peer b pid (swarms w1 h))"
    using remove_law [OF w1(2) assms(2)] by blast
  moreover have "(swarms w1)(h := drop_peer b pid (swarms w1 h)) = swarms w"
    using assms(3) w1(3) by (auto simp: fun_eq_iff add_peer_def drop_peer_def domIff fun_upd_idem)
  ultimately show ?thesis using w1(1) by auto
qed

text \<open>Promoting a leecher that was just inserted moves it to the seeders and counts one download.\<close>

lemma insert_promote:
  assumes "inv w" "length h = 40"
  shows "\<exists>w'. bindE (insert_op h pid p False w) (promote_op h pid) = Inr w' \<and> inv w' \<and>
    sw_peers (swarms w' h) True pid = Some (peer_addr p) \<and> sw_peers (swarms w' h) False pid = None \<and>
    sw_downloads (swarms w' h) = min (2 ^ 63 - 1) (sw_downloads (swarms w h) + 1)"
proof -
  obtain w1 where w1: "insert_op h pid p False w = Inr w1" "inv w1"
    "swarms w1 = (swarms w)(h := add_peer False pid (peer_addr p) (swarms w h))"
    using insert_law [OF assms] by blast
  obtain w2 where "promote_op h pid w1 = Inr w2" "inv w2"
    "swarms w2 = (swarms w1)(h := complete_peer pid (swarms w1 h))"
    using promote_law [OF w1(2) assms(2)] by blast
  then show ?thesis using w1 by (auto simp: add_peer_def complete_peer_def)
qed

end

section \<open>The swarms of a database\<close>

text \<open>Info hashes are texts of 40 characters; for other texts nothing is stored.\<close>

definition no_swarm :: swarm_state where
  "no_swarm = \<lparr>sw_peers = (\<lambda>_. Map.empty), sw_downloads = 0\<rparr>"

definition swarms_of :: "bytes \<Rightarrow> redis_db \<Rightarrow> bytes \<Rightarrow> swarm_state" where
  "swarms_of prefix d h =
     (if length h = 40 then \<lparr>sw_peers = swarm d prefix h, sw_downloads = downloads_of d prefix h\<rparr> else no_swarm)"

lemma swarm_frame:
  assumes "length h = 40" "length g = 40" "g \<noteq> h"
    "\<And>k. k \<notin> {swarm_key prefix h (peer_prefix_of False) pid, swarm_key prefix h (peer_prefix_of True) pid,
        torrent_key prefix h} \<Longrightarrow> d' k = d k"
  shows "swarm d' prefix g b = swarm d prefix g b" "downloads_of d' prefix g = downloads_of d prefix g"
proof -
  have "d' (swarm_key prefix g (peer_prefix_of b) x) = d (swarm_key prefix g (peer_prefix_of b) x)" for x
    using assms(1-3) by (intro assms(4)) (simp add: swarm_key_inject keys_differ)
  then show "swarm d' prefix g b = swarm d prefix g b" by (simp add: swarm_def fun_eq_iff)
  have "d' (torrent_key prefix g) = d (torrent_key prefix g)"
    using assms(3) by (intro assms(4)) (simp add: torrent_key_inject keys_differ)
  then show "downloads_of d' prefix g = downloads_of d prefix g" by (simp add: downloads_of_def)
qed

lemma swarms_of_frame:
  assumes "length h = 40"
    "\<And>k. k \<notin> {swarm_key prefix h (peer_prefix_of False) pid, swarm_key prefix h (peer_prefix_of True) pid,
        torrent_key prefix h} \<Longrightarrow> d' k = d k"
    "swarms_of prefix d' h = s"
  shows "swarms_of prefix d' = (swarms_of prefix d)(h := s)"
proof
  fix g
  show "swarms_of prefix d' g = ((swarms_of prefix d)(h := s)) g"
    using swarm_frame [OF assms(1) _ _ assms(2), of g] assms(3)
    by (cases "g = h"; cases "length g = 40") (simp_all add: swarms_of_def fun_eq_iff)
qed

lemma swarms_of_insert:
  assumes "length h = 40"
  shows "swarms_of prefix (d(swarm_key prefix h (peer_prefix_of b) pid \<mapsto> (RString v, t))) =
    (swarms_of prefix d)(h := add_peer b pid (stored_addr v) (swarms_of prefix d h))"
  using assms
  by (intro swarms_of_frame [of _ _ pid]; cases b; auto simp: swarms_of_def add_peer_def fun_eq_iff)

lemma swarms_of_remove:
  assumes "length h = 40"
  shows "swarms_of prefix (d(swarm_key prefix h (peer_prefix_of b) pid := None)) =
    (swarms_of prefix d)(h := drop_peer b pid (swarms_of prefix d h))"
  using assms
  by (intro swarms_of_frame [of _ _ pid]; cases b; auto simp: swarms_of_def drop_peer_def fun_eq_iff)

lemma swarms_of_conn: "swarms_of prefix (d(conn_key prefix i \<mapsto> e)) = swarms_of prefix d"
  by (auto simp: swarms_of_def fun_eq_iff)

text \<open>The operations of \<open>data.c\<close> are a peer store, as long as the connection is idle.\<close>

context tracker_store
begin

abbreviation store_inv :: "'s world \<Rightarrow> bool" where
  "store_inv w \<equiv> idle w \<and> db_ok prefix (db w)"

lemma insert_peer_store:
  assumes "store_inv w" "length h = 40"
  shows "\<exists>w'. bt_insert_peer api redis config h pid p b w = Inr w' \<and>
    becomes w (db w') w' \<and> db_ok prefix (db w') \<and>
    swarms_of prefix (db w') = (swarms_of prefix (db w))(h := add_peer b pid (peer_addr p) (swarms_of prefix (db w) h))"
  using insert_peer_effect [of w h pid p b] assms
  by (auto simp: becomes_def swarms_of_insert stored_addr_image length_peer_image)

lemma remove_peer_store:
  assumes "store_inv w" "length h = 40"
  shows "\<exists>w'. bt_remove_peer api redis config h pid b w = Inr w' \<and>
    becomes w (db w') w' \<and> db_ok prefix (db w') \<and>
    swarms_of prefix (db w') = (swarms_of prefix (db w))(h := drop_peer b pid (swarms_of prefix (db w) h))"
  using remove_peer_effect [of w h pid b] assms by (auto simp: becomes_def swarms_of_remove)

lemma promote_peer_store:
  assumes "store_inv w" "length h = 40"
  shows "\<exists>w'. bt_promote_peer api redis config h pid w = Inr w' \<and>
    becomes w (db w') w' \<and> db_ok prefix (db w') \<and>
    swarms_of prefix (db w') = (swarms_of prefix (db w))(h := complete_peer pid (swarms_of prefix (db w) h))"
proof -
  obtain w' where w': "bt_promote_peer api redis config h pid w = Inr w'" "becomes w (db w') w'" "db_ok prefix (db w')"
    and eff: "if pid \<in> dom (swarm (db w) prefix h False) then
       swarm (db w') prefix h True = (swarm (db w) prefix h True)(pid := swarm (db w) prefix h False pid) \<and>
       swarm (db w') prefix h False = (swarm (db w) prefix h False)(pid := None) \<and>
       downloads_of (db w') prefix h = min (2 ^ 63 - 1) (downloads_of (db w) prefix h + 1)
     else db w' = db w"
    and frame: "\<And>k. k \<notin> {swarm_key prefix h (peer_prefix_of False) pid, swarm_key prefix h (peer_prefix_of True) pid,
        torrent_key prefix h} \<Longrightarrow> db w' k = db w k"
    using promote_peer_effect [of w h pid] assms by (auto simp: becomes_def)
  have "swarms_of prefix (db w') h = complete_peer pid (swarms_of prefix (db w) h)"
  proof (cases "pid \<in> dom (swarm (db w) prefix h False)")
    case True
    then show ?thesis using eff assms(2) by (auto simp: swarms_of_def complete_peer_def fun_eq_iff)
  next
    case False
    then show ?thesis using eff assms(2) by (auto simp: swarms_of_def complete_peer_def domIff)
  qed
  then show ?thesis using w' swarms_of_frame [OF assms(2) frame] by auto
qed

end

sublocale tracker_store \<subseteq> peers: peer_store "bt_insert_peer api redis config"
    "bt_remove_peer api redis config" "bt_promote_peer api redis config"
    "\<lambda>w. pending redis (server w) = [] \<and> db_ok prefix (view redis (server w))"
    "\<lambda>w. swarms_of prefix (view redis (server w))"
proof unfold_locales
  fix w :: "'s world" and h pid :: bytes and p :: bt_peer_t and b :: bool
  assume inv: "store_inv w" "length h = 40"
  show "\<exists>w'. bt_insert_peer api redis config h pid p b w = Inr w' \<and> store_inv w' \<and>
    swarms_of prefix (db w') = (swarms_of prefix (db w))(h := add_peer b pid (peer_addr p) (swarms_of prefix (db w) h))"
    using insert_peer_store [OF inv, of pid p b] by (auto simp: becomes_def)
  show "\<exists>w'. bt_remove_peer api redis config h pid b w = Inr w' \<and> store_inv w' \<and>
    swarms_of prefix (db w') = (swarms_of prefix (db w))(h := drop_peer b pid (swarms_of prefix (db w) h))"
    using remove_peer_store [OF inv, of pid b] by (auto simp: becomes_def)
  show "\<exists>w'. bt_promote_peer api redis config h pid w = Inr w' \<and> store_inv w' \<and>
    swarms_of prefix (db w') = (swarms_of prefix (db w))(h := complete_peer pid (swarms_of prefix (db w) h))"
    using promote_peer_store [OF inv, of pid] by (auto simp: becomes_def)
qed

context tracker_store
begin

lemmas insert_remove_peer = peers.insert_remove
lemmas insert_promote_peer = peers.insert_promote

end

end
