(* ===== verification/Bt_Redis_Reference.thy ===== *)
theory Bt_Redis_Reference
  imports "HOL-Library.AList" Bt_Peers
begin

text \<open>
  A concrete server that satisfies the contracts \<open>redis_connection\<close> and \<open>redis_service\<close>: it keeps its
  databases as association lists and the unread commands of each connection in a queue. It shows that the contract
  can be met and serves as the server of the examples; no property of the tracker depends on it.
\<close>

type_synonym ref_db = "(bytes \<times> redis_value \<times> nat option) list"

record ref_server =
  ref_dbs :: "int \<Rightarrow> ref_db"
  ref_selected :: "nat \<Rightarrow> int"
  ref_queue :: "nat \<Rightarrow> redis_command list"
  ref_next :: nat

definition ref_hincrby :: "ref_db \<Rightarrow> bytes \<Rightarrow> bytes \<Rightarrow> int \<Rightarrow> redisReply \<times> ref_db" where
  "ref_hincrby al k f i =
     (case map_of al k of
        None \<Rightarrow> (integer_reply i, AList.update k (RHash [f \<mapsto> decimal i], None) al)
      | Some (RHash h, t) \<Rightarrow>
          (case h f of
             None \<Rightarrow> (integer_reply i, AList.update k (RHash (h(f \<mapsto> decimal i)), t) al)
           | Some v \<Rightarrow>
               let n = strtoimax v
               in if decimal n = v \<and> is_int64 n \<and> is_int64 (n + i)
                  then (integer_reply (n + i), AList.update k (RHash (h(f \<mapsto> decimal (n + i))), t) al)
                  else (error_reply (str ''ERR''), al))
      | Some _ \<Rightarrow> (error_reply (str ''WRONGTYPE''), al))"

fun ref_exec :: "ref_db \<Rightarrow> redis_command \<Rightarrow> redisReply \<times> ref_db" where
  "ref_exec al PING = (status_reply (str ''PONG''), al)"
| "ref_exec al (SELECT n) = (status_reply (str ''OK''), al)"
| "ref_exec al (SETEX k t v) =
     (if 0 < t then (status_reply (str ''OK''), AList.update k (RString v, Some (nat t)) al)
      else (error_reply (str ''ERR''), al))"
| "ref_exec al (GET k) =
     (case map_of al k of
        None \<Rightarrow> (nil_reply, al)
      | Some (RString v, _) \<Rightarrow> (string_reply v, al)
      | Some _ \<Rightarrow> (error_reply (str ''WRONGTYPE''), al))"
| "ref_exec al (DEL k) = (integer_reply (if map_of al k = None then 0 else 1), AList.delete k al)"
| "ref_exec al (RENAME k k') =
     (case map_of al k of
        None \<Rightarrow> (error_reply (str ''ERR''), al)
      | Some e \<Rightarrow> (status_reply (str ''OK''), AList.update k' e (AList.delete k al)))"
| "ref_exec al (HINCRBY k f i) = ref_hincrby al k f i"
| "ref_exec al (HGET k f) =
     (case map_of al k of
        None \<Rightarrow> (nil_reply, al)
      | Some (RHash h, _) \<Rightarrow> (case h f of None \<Rightarrow> (nil_reply, al) | Some v \<Rightarrow> (string_reply v, al))
      | Some _ \<Rightarrow> (error_reply (str ''WRONGTYPE''), al))"
| "ref_exec al (SISMEMBER k x) =
     (case map_of al k of
        None \<Rightarrow> (integer_reply 0, al)
      | Some (RSet A, _) \<Rightarrow> (integer_reply (if x \<in> A then 1 else 0), al)
      | Some _ \<Rightarrow> (error_reply (str ''WRONGTYPE''), al))"
| "ref_exec al (KEYS q) =
     (array_reply (map string_reply
        (filter (\<lambda>k. take (length q - 1) k = butlast q) (remdups (map fst al)))), al)"

text \<open>Connections are numbered in the order they are opened and start on database 0; there are 16.\<close>

definition ref_connect :: "ref_server \<Rightarrow> nat option \<times> ref_server" where
  "ref_connect s = (Some (ref_next s), s\<lparr>ref_queue := (ref_queue s)(ref_next s := []),
     ref_selected := (ref_selected s)(ref_next s := 0), ref_next := Suc (ref_next s)\<rparr>)"

definition ref_databases :: "int set" where
  "ref_databases = {0..<16}"

definition ref_command :: "nat \<Rightarrow> redis_command \<Rightarrow> ref_server \<Rightarrow> redisReply \<times> ref_server" where
  "ref_command c cmd s =
     (case cmd of
        SELECT n \<Rightarrow>
          if 0 \<le> n \<and> n < 16 then (status_reply (str ''OK''), s\<lparr>ref_selected := (ref_selected s)(c := n)\<rparr>)
          else (error_reply (str ''ERR''), s)
      | _ \<Rightarrow>
          let n = ref_selected s c; (r, al) = ref_exec (ref_dbs s n) cmd
          in (r, s\<lparr>ref_dbs := (ref_dbs s)(n := al)\<rparr>))"

definition ref_api :: "(nat, ref_server) hiredis_api" where
  "ref_api = \<lparr>
     redisConnectUnixWithTimeout = (\<lambda>_ _. ref_connect),
     redisConnectWithTimeout = (\<lambda>_ _ _. ref_connect),
     redis_err = (\<lambda>_ _. False),
     redisFree = (\<lambda>_ s. s),
     redisCommand = (\<lambda>c cmd s. let (r, s) = ref_command c cmd s in (Some r, s)),
     redisAppendCommand = (\<lambda>c cmd s. s\<lparr>ref_queue := (ref_queue s)(c := ref_queue s c @ [cmd])\<rparr>),
     redisGetReply = (\<lambda>c s.
       case ref_queue s c of
         [] \<Rightarrow> (None, s)
       | cmd # cmds \<Rightarrow>
           let (r, s) = ref_command c cmd s
           in (Some r, s\<lparr>ref_queue := (ref_queue s)(c := cmds)\<rparr>))\<rparr>"

definition ref_view :: "nat \<Rightarrow> ref_server \<Rightarrow> redis_db" where
  "ref_view c s = map_of (ref_dbs s (ref_selected s c))"

definition ref_pending :: "nat \<Rightarrow> ref_server \<Rightarrow> redis_command list" where
  "ref_pending c s = ref_queue s c"

definition ref_connected :: "nat \<Rightarrow> ref_server \<Rightarrow> int option" where
  "ref_connected c s = (if c < ref_next s then Some (ref_selected s c) else None)"

definition ref_stores :: "ref_server \<Rightarrow> int \<Rightarrow> redis_db" where
  "ref_stores s n = map_of (ref_dbs s n)"

lemmas ref_defs = ref_api_def ref_view_def ref_pending_def ref_connected_def ref_stores_def

lemma ref_hincrby_ok:
  "redis_ok (map_of al) (HINCRBY k f i) (fst (ref_hincrby al k f i)) (map_of (snd (ref_hincrby al k f i)))"
proof (cases "map_of al k")
  case None
  then show ?thesis by (simp add: ref_hincrby_def update_conv' redis_ok.hincrby_new_key)
next
  case (Some e)
  obtain x t where e: "e = (x, t)" by (cases e)
  show ?thesis
  proof (cases x)
    case (RHash h)
    show ?thesis
    proof (cases "h f")
      case None
      then show ?thesis
        using Some e RHash by (simp add: ref_hincrby_def update_conv' redis_ok.hincrby_new_field)
    next
      case v: (Some v)
      let ?n = "strtoimax v"
      show ?thesis
      proof (cases "decimal ?n = v \<and> is_int64 ?n \<and> is_int64 (?n + i)")
        case True
        then have "h f = Some (decimal ?n)" using v by simp
        then show ?thesis
          using True Some e RHash v redis_ok.hincrby [of "map_of al" k h t f ?n i]
          by (simp add: ref_hincrby_def Let_def update_conv')
      next
        case False
        have "redis_ok (map_of al) (HINCRBY k f i) (error_reply (str ''ERR'')) (map_of al)"
        proof (cases "\<exists>n. v = decimal n")
          case True
          then obtain n where n: "v = decimal n" by blast
          have "\<not> (is_int64 n \<and> is_int64 (n + i))"
            using False n strtoimax_decimal [of n] by auto
          then show ?thesis
            using Some e RHash v n redis_ok.hincrby_overflow [of "map_of al" k h t f n i] by simp
        next
          case False
          then show ?thesis
            using Some e RHash v by (auto intro: redis_ok.hincrby_not_integer)
        qed
        then show ?thesis using False Some e RHash v by (auto simp: ref_hincrby_def Let_def)
      qed
    qed
  qed (use Some e in \<open>auto simp: ref_hincrby_def intro: redis_ok.hincrby_wrongtype\<close>)
qed

lemma ref_keys_ok: "redis_ok (map_of al) (KEYS q) (fst (ref_exec al (KEYS q))) (map_of al)"
proof (cases "\<exists>p. glob_free p \<and> q = p @ [42]")
  case True
  then obtain p where p: "glob_free p" "q = p @ [42]" by blast
  let ?ks = "filter (\<lambda>k. take (length p) k = p) (remdups (map fst al))"
  have "set ?ks = keys_with_prefix (map_of al) p"
    by (auto simp: keys_with_prefix_def dom_map_of_conv_image_fst) (metis append_take_drop_id)
  then show ?thesis using redis_ok.keys [OF p(1), of ?ks] p(2) by simp
next
  case False
  then show ?thesis by (auto intro: redis_ok.keys_glob)
qed

lemma ref_exec_ok:
  assumes "\<nexists>n. cmd = SELECT n"
  shows "redis_ok (map_of al) cmd (fst (ref_exec al cmd)) (map_of (snd (ref_exec al cmd)))"
proof (cases cmd)
  case (KEYS q)
  then show ?thesis using ref_keys_ok [of al q] by simp
next
  case (HINCRBY k f i)
  then show ?thesis using ref_hincrby_ok by simp
next
  case (DEL k)
  then show ?thesis using redis_ok.del [of "map_of al" k]
    by (cases "map_of al k") (simp_all add: delete_conv' domIff fun_upd_idem)
next
  case (GET k)
  then show ?thesis
    by (auto split: option.split redis_value.split intro: redis_ok.intros)
next
  case (HGET k f)
  then show ?thesis
    by (auto split: option.split redis_value.split intro: redis_ok.intros)
next
  case (SISMEMBER k x)
  then show ?thesis
    by (auto split: option.split redis_value.split intro: redis_ok.intros)
next
  case (RENAME k k')
  then show ?thesis
    by (auto split: option.split intro: redis_ok.intros simp: update_conv' delete_conv')
next
  case (SETEX k t v)
  then show ?thesis by (auto intro: redis_ok.intros simp: update_conv')
next
  case PING
  then show ?thesis by (auto intro: redis_ok.intros)
qed (use assms in auto)

text \<open>A command other than \<open>SELECT\<close> changes the selected database of its connection.\<close>

lemma ref_command_eq:
  "\<nexists>n. cmd = SELECT n \<Longrightarrow> ref_command c cmd s = (fst (ref_exec (ref_dbs s (ref_selected s c)) cmd),
     s\<lparr>ref_dbs := (ref_dbs s)(ref_selected s c := snd (ref_exec (ref_dbs s (ref_selected s c)) cmd))\<rparr>)"
  by (cases cmd) (auto simp: ref_command_def Let_def split_beta)

interpretation ref: redis_connection ref_api ref_view ref_pending
proof unfold_locales
  show "\<exists>r s'. redisCommand ref_api c cmd s = (Some r, s') \<and> redis_ok (ref_view c s) cmd r (ref_view c s') \<and>
      ref_pending c s' = []" if "ref_pending c s = []" "\<nexists>n. cmd = SELECT n" for c s cmd
    using that ref_exec_ok [OF that(2)] by (simp add: ref_defs ref_command_eq)
  show "\<exists>r s'. redisGetReply ref_api c s = (Some r, s') \<and> redis_ok (ref_view c s) cmd r (ref_view c s') \<and>
      ref_pending c s' = cmds" if "ref_pending c s = cmd # cmds" "\<nexists>n. cmd = SELECT n" for c s cmd cmds
    using that ref_exec_ok [OF that(2)] by (simp add: ref_defs ref_command_eq)
qed (simp_all add: ref_defs)

interpretation ref_service: redis_service ref_api ref_view ref_pending ref_connected ref_stores ref_databases
proof unfold_locales
  show "other_connections ref_connected ref_pending c s s' \<and> ref_connected c s' = ref_connected c s \<and> select_free (ref_pending c s')"
    if "select_free (ref_pending c s)" "\<nexists>n. cmd = SELECT n" "redisCommand ref_api c cmd s = (r, s')" for c s cmd r s'
    using that by (auto simp: ref_defs ref_command_eq other_connections_def)
  show "other_connections ref_connected ref_pending c s s' \<and> ref_connected c s' = ref_connected c s \<and> select_free (ref_pending c s')"
    if "select_free (ref_pending c s)" "redisGetReply ref_api c s = (r, s')" for c s r s'
    using that by (auto simp: ref_defs ref_command_eq other_connections_def split: list.splits)
  show "ref_stores s' = ref_stores s \<and> other_connections ref_connected ref_pending c s s' \<and> ref_pending c s' = [] \<and>
      ref_connected c s' = Some (if n \<in> ref_databases then n else m)"
    if "ref_connected c s = Some m" "ref_pending c s = []" "redisCommand ref_api c (SELECT n) s = (r, s')" for c s m n r s'
    using that by (auto simp: ref_defs ref_command_def ref_databases_def other_connections_def fun_eq_iff split: if_splits)
qed (auto simp: ref_defs ref_connect_def other_connections_def fun_eq_iff split: if_splits)

text \<open>A server without entries and the tracker's store on it, with the configuration of the tests.\<close>

definition ref_empty :: ref_server where
  "ref_empty = \<lparr>ref_dbs = (\<lambda>_. []), ref_selected = (\<lambda>_. 0), ref_queue = (\<lambda>_. []), ref_next = 0\<rparr>"

interpretation ref_store: tracker_store ref_api ref_view ref_pending 0 test_config "str ''bttracker''"
  by unfold_locales (simp_all add: test_config_def str_simps)

text \<open>What the examples need of this server and environment.\<close>

lemma ref_empty_simps [simp]:
  "ref_pending c ref_empty = []"
  "ref_view c ref_empty = Map.empty"
  by (simp_all add: ref_pending_def ref_view_def ref_empty_def)

lemma db_ok_empty [simp]: "db_ok prefix Map.empty"
  by (simp add: db_ok_def list_ok_def conn_ok_def)

lemma list_ok_empty [simp]: "list_ok Map.empty k"
  by (simp add: list_ok_def)

lemma swarm_empty [simp]: "swarm Map.empty prefix h b = Map.empty"
  by (simp add: swarm_def fun_eq_iff)

lemma quiet_world_rand [simp]: "rand_below_max (quiet_world s)"
  by (simp add: rand_below_max_def quiet_world_def RAND_MAX_def)

lemmas ref_tracker = ref_store.tracker_store_axioms

lemma ref_tracker_config:
  assumes "redis_key_prefix config = Some p" "glob_free p" "0 < sint (announce_peer_ttl config)"
  shows "tracker_store ref_api ref_view ref_pending config p"
  using assms by unfold_locales

end
