(* ===== verification/Bt_Store_Props.thy ===== *)
theory Bt_Store_Props
  imports Bt_Redis_Reference
begin

text \<open>
  The properties of \<open>data.c\<close>, stated for any hiredis and Redis that satisfy the contract
  \<open>redis_connection\<close>, with examples on the reference server.
\<close>

section \<open>Peers\<close>

text \<open>
  C11. Inserting, removing and promoting a peer succeed on an idle connection, keep the invariant of
  the database and change the swarm of the given torrent alone, exactly as the abstract operations
  on swarms do. (Refinement.)
\<close>

theorem peer_operations_refine:
  assumes "tracker_store api view pending config prefix"
    "pending redis (server w) = []" "db_ok prefix (view redis (server w))" "length h = 40"
  shows "(\<exists>w'. bt_insert_peer api redis config h pid p b w = Inr w' \<and>
      pending redis (server w') = [] \<and> db_ok prefix (view redis (server w')) \<and>
      swarms_of prefix (view redis (server w')) =
        (swarms_of prefix (view redis (server w)))
          (h := add_peer b pid (peer_addr p) (swarms_of prefix (view redis (server w)) h))) \<and>
    (\<exists>w'. bt_remove_peer api redis config h pid b w = Inr w' \<and>
      pending redis (server w') = [] \<and> db_ok prefix (view redis (server w')) \<and>
      swarms_of prefix (view redis (server w')) =
        (swarms_of prefix (view redis (server w)))
          (h := drop_peer b pid (swarms_of prefix (view redis (server w)) h))) \<and>
    (\<exists>w'. bt_promote_peer api redis config h pid w = Inr w' \<and>
      pending redis (server w') = [] \<and> db_ok prefix (view redis (server w')) \<and>
      swarms_of prefix (view redis (server w')) =
        (swarms_of prefix (view redis (server w)))
          (h := complete_peer pid (swarms_of prefix (view redis (server w)) h)))"
  using tracker_store.insert_peer_store [OF assms(1), of redis w h pid p b]
    tracker_store.remove_peer_store [OF assms(1), of redis w h pid b]
    tracker_store.promote_peer_store [OF assms(1), of redis w h pid] assms(2-4)
  by (auto simp: tracker_store.becomes_def [OF assms(1)])

definition example_hash :: bytes where
  "example_hash = hex (replicate 20 0xA5)"

lemma example_hash [simp]: "length example_hash = 40" "glob_free example_hash"
  using hex_text by (auto simp: example_hash_def)

definition example_peer :: bt_peer_t where
  "example_peer = \<lparr>peer_key = 1, peer_ipv4_addr = 0x7F000001, peer_downloaded = 0, peer_uploaded = 0,
     peer_left = 9, peer_port = 6881\<rparr>"

theorem peer_operations_refine_witness:
  "\<exists>w'. bt_insert_peer ref_api 0 test_config example_hash [7] example_peer False (quiet_world ref_empty) = Inr w' \<and>
     db_ok (str ''bttracker'') (ref_view 0 (server w')) \<and>
     sw_peers (swarms_of (str ''bttracker'') (ref_view 0 (server w')) example_hash) False [7] =
       Some (peer_addr example_peer)"
  using peer_operations_refine [OF ref_tracker, of 0 "quiet_world ref_empty" example_hash "[7]" example_peer False]
  by (auto simp: add_peer_def)

text \<open>
  A peer that starts downloading and then completes is a seeder and no longer a leecher, with the
  address it announced, and its torrent counts one download more (up to the largest 64-bit number).
\<close>

lemma insert_then_promote:
  assumes "tracker_store api view pending config prefix"
    "pending redis (server w) = []" "db_ok prefix (view redis (server w))" "length h = 40"
  shows "\<exists>w'. bindE (bt_insert_peer api redis config h pid p False w) (bt_promote_peer api redis config h pid) = Inr w' \<and>
    swarm (view redis (server w')) prefix h True pid = Some (peer_addr p) \<and>
    swarm (view redis (server w')) prefix h False pid = None \<and>
    downloads_of (view redis (server w')) prefix h =
      min (2 ^ 63 - 1) (downloads_of (view redis (server w)) prefix h + 1)"
  using tracker_store.insert_promote_peer [OF assms(1), of redis w h pid p] assms(2-4)
  by (auto simp: swarms_of_def)

section \<open>Connection identifiers\<close>

text \<open>
  A connection identifier the tracker hands out is stored under its own key for 120 seconds, and
  is accepted afterwards. Nothing about the torrents changes.
\<close>

lemma connection_stored_and_accepted:
  assumes "tracker_store api view pending config prefix"
    "pending redis (server w) = []" "db_ok prefix (view redis (server w))"
  shows "\<exists>w' w''. bt_insert_connection api redis config conn_id w = Inr w' \<and>
    view redis (server w') (conn_key prefix conn_id) = Some (RString (str ''1''), Some 120) \<and>
    (\<forall>i. i \<noteq> conn_id \<longrightarrow> view redis (server w') (conn_key prefix i) = view redis (server w) (conn_key prefix i)) \<and>
    db_ok prefix (view redis (server w')) \<and>
    swarms_of prefix (view redis (server w')) = swarms_of prefix (view redis (server w)) \<and>
    bt_connection_valid api redis config conn_id w' = Inr (True, w'')"
proof -
  note becomes = tracker_store.becomes_def [OF assms(1)]
  obtain w' where w': "bt_insert_connection api redis config conn_id w = Inr w'" "pending redis (server w') = []"
    "view redis (server w') = (view redis (server w))(conn_key prefix conn_id \<mapsto> (RString (str ''1''), Some 120))"
    using tracker_store.insert_connection_effect [OF assms(1,2)] unfolding becomes by blast
  obtain w'' where "bt_connection_valid api redis config conn_id w' = Inr (True, w'')"
    using tracker_store.connection_valid_effect [OF assms(1) w'(2), of conn_id] w'(3) by auto
  then show ?thesis using w' assms(3) by (auto simp: conn_key_inject swarms_of_conn)
qed

text \<open>
  C35. The check of a connection identifier does not tell issued identifiers from others: it accepts
  every identifier under whose key nothing is stored, as \<open>GET\<close> of a missing key does not answer an
  error. It refuses only when the value under the key is not a string.
\<close>

theorem bt_connection_valid_accepts_unknown:
  assumes "tracker_store api view pending config prefix" "pending redis (server w) = []"
  shows "\<exists>valid w'. bt_connection_valid api redis config conn_id w = Inr (valid, w') \<and>
    view redis (server w') = view redis (server w) \<and>
    (view redis (server w) (conn_key prefix conn_id) = None \<longrightarrow> valid) \<and>
    (\<not> valid \<longrightarrow> (\<exists>x t. view redis (server w) (conn_key prefix conn_id) = Some (x, t) \<and> (\<forall>v. x \<noteq> RString v)))"
  using tracker_store.connection_valid_effect [OF assms, of conn_id]
  unfolding tracker_store.becomes_def [OF assms(1)] by auto

theorem bt_connection_valid_accepts_unknown_witness:
  "\<exists>w'. bt_connection_valid ref_api 0 test_config 42 (quiet_world ref_empty) = Inr (True, w')"
  using bt_connection_valid_accepts_unknown [OF ref_tracker, of 0 "quiet_world ref_empty" 42] by auto

section \<open>Restrictions\<close>

text \<open>
  C18. An info hash is refused exactly when the configured restriction says so: under a whitelist the
  hashes that are not on it, under a blacklist the hashes on it, otherwise none. The check changes
  nothing. (The list keys hold sets or nothing.)
\<close>

theorem bt_info_hash_blacklisted_spec:
  assumes "tracker_store api view pending config prefix" "pending redis (server w) = []"
    "list_ok (view redis (server w)) (whitelist_key prefix)" "list_ok (view redis (server w)) (blacklist_key prefix)"
  shows "\<exists>refuse w'. bt_info_hash_blacklisted api redis config h w = Inr (refuse, w') \<and>
    (refuse \<longleftrightarrow>
       info_hash_restriction config = BT_RESTRICTION_WHITELIST \<and>
         \<not> listed (view redis (server w)) (whitelist_key prefix) h \<or>
       info_hash_restriction config = BT_RESTRICTION_BLACKLIST \<and>
         listed (view redis (server w)) (blacklist_key prefix) h) \<and>
    view redis (server w') = view redis (server w)"
  using tracker_store.blacklisted_effect [OF assms, of h]
  unfolding tracker_store.becomes_def [OF assms(1)]
  by (cases "info_hash_restriction config") (auto simp: refused_def)

theorem bt_info_hash_blacklisted_spec_witness:
  "\<exists>w'. bt_info_hash_blacklisted ref_api 0 test_config example_hash (quiet_world ref_empty) = Inr (False, w')"
proof -
  obtain refuse w' where "bt_info_hash_blacklisted ref_api 0 test_config example_hash (quiet_world ref_empty) = Inr (refuse, w')"
    "refuse \<longleftrightarrow> info_hash_restriction test_config = BT_RESTRICTION_WHITELIST \<and>
         \<not> listed (ref_view 0 ref_empty) (whitelist_key (str ''bttracker'')) example_hash \<or>
       info_hash_restriction test_config = BT_RESTRICTION_BLACKLIST \<and>
         listed (ref_view 0 ref_empty) (blacklist_key (str ''bttracker'')) example_hash"
    using bt_info_hash_blacklisted_spec [OF ref_tracker, of 0 "quiet_world ref_empty" example_hash] by auto
  then show ?thesis by (simp add: test_config_def listed_def)
qed

section \<open>Statistics and peer lists\<close>

text \<open>
  C13. The statistics of a torrent are the numbers of its seeders and leechers and its number of
  downloads, each reduced to 32 bits, and reading them changes nothing.
\<close>

theorem bt_get_torrent_stats_counts:
  assumes "tracker_store api view pending config prefix" "pending redis (server w) = []"
    "db_ok prefix (view redis (server w))" "length h = 40" "glob_free h"
  shows "\<exists>w'. bt_get_torrent_stats api redis config h w =
      Inr (\<lparr>st_seeders = of_nat (card (dom (swarm (view redis (server w)) prefix h True))),
            st_downloads = word_of_int (downloads_of (view redis (server w)) prefix h),
            st_leechers = of_nat (card (dom (swarm (view redis (server w)) prefix h False)))\<rparr>, w') \<and>
    view redis (server w') = view redis (server w) \<and> pending redis (server w') = []"
  using tracker_store.torrent_stats_effect [OF assms]
  unfolding tracker_store.becomes_def [OF assms(1)] by blast

theorem bt_get_torrent_stats_counts_witness:
  "\<exists>w'. bt_get_torrent_stats ref_api 0 test_config example_hash (quiet_world ref_empty) =
      Inr (\<lparr>st_seeders = 0, st_downloads = 0, st_leechers = 0\<rparr>, w')"
  using bt_get_torrent_stats_counts [OF ref_tracker, of 0 "quiet_world ref_empty" example_hash]
  by (auto simp: downloads_of_def)



end
