(* ===== verification/Bt_Net.thy ===== *)
theory Bt_Net
  imports Bt_Types
begin

text \<open>
  \<open>net.c\<close>: reading requests from and writing responses to byte buffers. The writers convert the
  fields of the structure they are given in place before they copy them, so they return the
  structure as well. The network encodings of BEP 15 (\<open>encode_\<dots>\<close>) are the specification.
\<close>

definition BT_RECV_BUFLEN :: nat where
  "BT_RECV_BUFLEN = 1496"

definition BT_PROTOCOL_ID :: "64 word" where
  "BT_PROTOCOL_ID = 0x41727101980"

section \<open>Reading requests\<close>

definition bt_read_request_data :: "bytes \<Rightarrow> bt_req_t result" where
  "bt_read_request_data buf =
     bindE (load 8 buf 0) (\<lambda>cid.
     bindE (load 4 buf 8) (\<lambda>act.
     bindE (load 4 buf 12) (\<lambda>tid.
     Inr \<lparr>connection_id = ntohll cid, action = ntohl act, transaction_id = ntohl tid\<rparr>)))"

definition bt_read_announce_request_data :: "bytes \<Rightarrow> bt_announce_req_t result" where
  "bt_read_announce_request_data buf =
     bindE (read_bytes buf 16 20) (\<lambda>ih.
     bindE (read_bytes buf 36 20) (\<lambda>pid.
     bindE (load 8 buf 0) (\<lambda>cid.
     bindE (load 4 buf 8) (\<lambda>act.
     bindE (load 4 buf 12) (\<lambda>tid.
     bindE (load 8 buf 56) (\<lambda>down.
     bindE (load 8 buf 64) (\<lambda>lft.
     bindE (load 8 buf 72) (\<lambda>up.
     bindE (load 4 buf 80) (\<lambda>ev.
     bindE (load 4 buf 84) (\<lambda>ip.
     bindE (load 4 buf 88) (\<lambda>k.
     bindE (load 4 buf 92) (\<lambda>want.
     bindE (load 2 buf 96) (\<lambda>prt.
     Inr \<lparr>connection_id = ntohll cid, action = ntohl act, transaction_id = ntohl tid,
          ipv4_addr = ntohl ip, port = ntohs prt, info_hash = ih, peer_id = pid,
          downloaded = ntohll down, left = ntohll lft, uploaded = ntohll up, key = ntohl k,
          num_want = ntohl want, event = ntohl ev\<rparr>)))))))))))))"

text \<open>
  The length of the copied block is \<open>buflen - 16\<close> in \<open>size_t\<close> arithmetic; its destination is the
  member \<open>info_hash\<close> of the structure.
\<close>

definition bt_read_scrape_request_data :: "bytes \<Rightarrow> 64 word \<Rightarrow> bt_scrape_req_t result" where
  "bt_read_scrape_request_data buf buflen =
     bindE (read_bytes buf 16 (unat (buflen - 16))) (\<lambda>hashes.
     bindE (memcpy_to (replicate scrape_info_hash_size None) 0 hashes) (\<lambda>ih.
     bindE (load 8 buf 0) (\<lambda>cid.
     bindE (load 4 buf 8) (\<lambda>act.
     bindE (load 4 buf 12) (\<lambda>tid.
     Inr \<lparr>connection_id = ntohll cid, action = ntohl act, transaction_id = ntohl tid,
          info_hash_len = (buflen - 16) div 20, scrape_info_hash = ih\<rparr>)))))"

section \<open>Writing responses\<close>

definition bt_write_error_data :: "buffer \<Rightarrow> bt_req_t \<Rightarrow> bytes \<Rightarrow> (buffer \<times> bt_req_t) result" where
  "bt_write_error_data resp_buffer req msg =
     (let req = req\<lparr>connection_id := htonll (connection_id req)\<rparr>;
          req = req\<lparr>action := htonl (action req)\<rparr>;
          req = req\<lparr>transaction_id := htonl (transaction_id req)\<rparr>
      in bindE (memcpy_to resp_buffer 0 (le_bytes 4 (action req))) (\<lambda>resp_buffer.
         bindE (memcpy_to resp_buffer 4 (le_bytes 4 (transaction_id req))) (\<lambda>resp_buffer.
         bindE (memcpy_to resp_buffer 8 (msg @ [0])) (\<lambda>resp_buffer.
         Inr (resp_buffer, req)))))"

definition bt_write_connection_data ::
    "buffer \<Rightarrow> bt_connection_resp_t \<Rightarrow> (buffer \<times> bt_connection_resp_t) result" where
  "bt_write_connection_data resp_buffer resp =
     (let resp = resp\<lparr>resp_action := htonl (resp_action resp)\<rparr>;
          resp = resp\<lparr>resp_transaction_id := htonl (resp_transaction_id resp)\<rparr>;
          resp = resp\<lparr>resp_connection_id := htonll (resp_connection_id resp)\<rparr>
      in bindE (memcpy_to resp_buffer 0 (le_bytes 4 (resp_action resp))) (\<lambda>resp_buffer.
         bindE (memcpy_to resp_buffer 4 (le_bytes 4 (resp_transaction_id resp))) (\<lambda>resp_buffer.
         bindE (memcpy_to resp_buffer 8 (le_bytes 8 (resp_connection_id resp))) (\<lambda>resp_buffer.
         Inr (resp_buffer, resp)))))"

definition bt_write_announce_response_data ::
    "buffer \<Rightarrow> bt_announce_resp_t \<Rightarrow> (buffer \<times> bt_announce_resp_t) result" where
  "bt_write_announce_response_data resp_buffer resp =
     (let resp = resp\<lparr>resp_action := htonl (resp_action resp)\<rparr>;
          resp = resp\<lparr>resp_transaction_id := htonl (resp_transaction_id resp)\<rparr>;
          resp = resp\<lparr>interval := htonl (interval resp)\<rparr>;
          resp = resp\<lparr>leechers := htonl (leechers resp)\<rparr>;
          resp = resp\<lparr>seeders := htonl (seeders resp)\<rparr>
      in bindE (memcpy_to resp_buffer 0 (le_bytes 4 (resp_action resp))) (\<lambda>resp_buffer.
         bindE (memcpy_to resp_buffer 4 (le_bytes 4 (resp_transaction_id resp))) (\<lambda>resp_buffer.
         bindE (memcpy_to resp_buffer 8 (le_bytes 4 (interval resp))) (\<lambda>resp_buffer.
         bindE (memcpy_to resp_buffer 12 (le_bytes 4 (leechers resp))) (\<lambda>resp_buffer.
         bindE (memcpy_to resp_buffer 16 (le_bytes 4 (seeders resp))) (\<lambda>resp_buffer.
         Inr (resp_buffer, resp)))))))"

text \<open>The loop over the list of peers; \<open>npeer\<close> counts the peers already written.\<close>

fun write_peers_loop :: "nat \<Rightarrow> bt_peer_addr_t list \<Rightarrow> buffer \<Rightarrow> (buffer \<times> bt_peer_addr_t list) result" where
  "write_peers_loop npeer [] resp_buffer = Inr (resp_buffer, [])"
| "write_peers_loop npeer (peer_addr # peers) resp_buffer =
     (let peer_addr = peer_addr\<lparr>addr_ipv4_addr := htonl (addr_ipv4_addr peer_addr)\<rparr>;
          peer_addr = peer_addr\<lparr>addr_port := htons (addr_port peer_addr)\<rparr>
      in bindE (memcpy_to resp_buffer (20 + 6 * npeer) (le_bytes 4 (addr_ipv4_addr peer_addr))) (\<lambda>resp_buffer.
         bindE (memcpy_to resp_buffer (24 + 6 * npeer) (le_bytes 2 (addr_port peer_addr))) (\<lambda>resp_buffer.
         bindE (write_peers_loop (npeer + 1) peers resp_buffer) (\<lambda>(resp_buffer, peers).
         Inr (resp_buffer, peer_addr # peers)))))"

definition bt_write_announce_peer_data ::
    "buffer \<Rightarrow> bt_peer_addr_t list \<Rightarrow> (buffer \<times> bt_peer_addr_t list) result" where
  "bt_write_announce_peer_data resp_buffer peers = write_peers_loop 0 peers resp_buffer"

text \<open>
  The loop over the scrape entries. An entry is copied as the 12 bytes of its structure, whose
  members are the seeders, the downloads and the leechers in this order.
\<close>

definition stats_image :: "bt_torrent_stats_t \<Rightarrow> bytes" where
  "stats_image st = le_bytes 4 (st_seeders st) @ le_bytes 4 (st_downloads st) @ le_bytes 4 (st_leechers st)"

fun write_entries_loop ::
    "nat \<Rightarrow> bt_torrent_stats_t list \<Rightarrow> buffer \<Rightarrow> (buffer \<times> bt_torrent_stats_t list) result" where
  "write_entries_loop nentry [] resp_buffer = Inr (resp_buffer, [])"
| "write_entries_loop nentry (entry # entries) resp_buffer =
     (let entry = entry\<lparr>st_seeders := htonl (st_seeders entry)\<rparr>;
          entry = entry\<lparr>st_leechers := htonl (st_leechers entry)\<rparr>;
          entry = entry\<lparr>st_downloads := htonl (st_downloads entry)\<rparr>
      in bindE (memcpy_to resp_buffer (8 + 12 * nentry) (stats_image entry)) (\<lambda>resp_buffer.
         bindE (write_entries_loop (nentry + 1) entries resp_buffer) (\<lambda>(resp_buffer, entries).
         Inr (resp_buffer, entry # entries))))"

definition bt_write_scrape_response_data ::
    "buffer \<Rightarrow> bt_scrape_resp_t \<Rightarrow> (buffer \<times> bt_scrape_resp_t) result" where
  "bt_write_scrape_response_data resp_buffer resp =
     (let resp = resp\<lparr>resp_action := htonl (resp_action resp)\<rparr>;
          resp = resp\<lparr>resp_transaction_id := htonl (resp_transaction_id resp)\<rparr>
      in bindE (memcpy_to resp_buffer 0 (le_bytes 4 (resp_action resp))) (\<lambda>resp_buffer.
         bindE (memcpy_to resp_buffer 4 (le_bytes 4 (resp_transaction_id resp))) (\<lambda>resp_buffer.
         bindE (write_entries_loop 0 (scrape_entries resp) resp_buffer) (\<lambda>(resp_buffer, entries).
         Inr (resp_buffer, resp\<lparr>scrape_entries := entries\<rparr>)))))"

section \<open>The encodings of BEP 15\<close>

definition encode_request :: "'a bt_req_t_scheme \<Rightarrow> bytes" where
  "encode_request r = be_bytes 8 (connection_id r) @ be_bytes 4 (action r) @ be_bytes 4 (transaction_id r)"

definition encode_announce_request :: "bt_announce_req_t \<Rightarrow> bytes" where
  "encode_announce_request r =
     encode_request r @ info_hash r @ peer_id r @ be_bytes 8 (downloaded r) @ be_bytes 8 (left r) @
     be_bytes 8 (uploaded r) @ be_bytes 4 (event r) @ be_bytes 4 (ipv4_addr r) @ be_bytes 4 (key r) @
     be_bytes 4 (num_want r) @ be_bytes 2 (port r)"

definition encode_connection_response :: "bt_connection_resp_t \<Rightarrow> bytes" where
  "encode_connection_response r =
     be_bytes 4 (resp_action r) @ be_bytes 4 (resp_transaction_id r) @ be_bytes 8 (resp_connection_id r)"

definition encode_peer_addr :: "bt_peer_addr_t \<Rightarrow> bytes" where
  "encode_peer_addr a = be_bytes 4 (addr_ipv4_addr a) @ be_bytes 2 (addr_port a)"

definition encode_announce_response :: "bt_announce_resp_t \<Rightarrow> bt_peer_addr_t list \<Rightarrow> bytes" where
  "encode_announce_response r peers =
     be_bytes 4 (resp_action r) @ be_bytes 4 (resp_transaction_id r) @ be_bytes 4 (interval r) @
     be_bytes 4 (leechers r) @ be_bytes 4 (seeders r) @ concat (map encode_peer_addr peers)"

definition encode_stats :: "bt_torrent_stats_t \<Rightarrow> bytes" where
  "encode_stats st =
     be_bytes 4 (st_seeders st) @ be_bytes 4 (st_downloads st) @ be_bytes 4 (st_leechers st)"

definition encode_scrape_response :: "bt_scrape_resp_t \<Rightarrow> bytes" where
  "encode_scrape_response r =
     be_bytes 4 (resp_action r) @ be_bytes 4 (resp_transaction_id r) @
     concat (map encode_stats (scrape_entries r))"

definition encode_error_response :: "32 word \<Rightarrow> bytes \<Rightarrow> bytes" where
  "encode_error_response tid msg = be_bytes 4 BT_ACTION_ERROR @ be_bytes 4 tid @ msg @ [0]"

lemma length_encode_peer_addr [simp]: "length (encode_peer_addr a) = 6"
  by (simp add: encode_peer_addr_def)

lemma length_encode_stats [simp]: "length (encode_stats st) = 12"
  by (simp add: encode_stats_def)

lemma length_concat_const:
  "(\<And>x. length (f x) = n) \<Longrightarrow> length (concat (map f xs)) = n * length xs"
  by (induction xs) auto

lemma length_encode_announce_response [simp]:
  "length (encode_announce_response r peers) = 20 + 6 * length peers"
  by (simp add: encode_announce_response_def length_concat_const [where n = 6])

lemma length_encode_scrape_response [simp]:
  "length (encode_scrape_response r) = 8 + 12 * length (scrape_entries r)"
  by (simp add: encode_scrape_response_def length_concat_const [where n = 12])

section \<open>Reading\<close>

text \<open>Loading the field behind \<open>xs\<close>.\<close>

lemma load_be [wire]:
  "off = length xs \<Longrightarrow> load 2 (xs @ be_bytes 2 v @ ys) off = Inr (le_word (be_bytes 2 v))"
  "off = length xs \<Longrightarrow> load 4 (xs @ be_bytes 4 w @ ys) off = Inr (le_word (be_bytes 4 w))"
  "off = length xs \<Longrightarrow> load 8 (xs @ be_bytes 8 x @ ys) off = Inr (le_word (be_bytes 8 x))"
  by (simp_all add: load_def read_bytes_append)

lemma ntoh_be_bytes [wire]:
  "ntohs (le_word (be_bytes 2 v)) = v"
  "ntohl (le_word (be_bytes 4 w)) = w"
  "ntohll (le_word (be_bytes 8 x)) = x"
  by (simp_all add: ntoh_le_word be_word_be_bytes_sizes)

lemma announce_request_decoded:
  assumes "length (info_hash r) = 20" "length (peer_id r) = 20"
  shows "bt_read_announce_request_data (encode_announce_request r @ rest) = Inr r \<and>
    bt_read_request_data (encode_announce_request r @ rest) = Inr (bt_req_t.truncate r)"
proof -
  let ?cid = "be_bytes 8 (connection_id r)" and ?act = "be_bytes 4 (action r)"
    and ?tid = "be_bytes 4 (transaction_id r)" and ?down = "be_bytes 8 (downloaded r)"
    and ?left = "be_bytes 8 (left r)" and ?up = "be_bytes 8 (uploaded r)"
    and ?ev = "be_bytes 4 (event r)" and ?ip = "be_bytes 4 (ipv4_addr r)"
    and ?key = "be_bytes 4 (key r)" and ?want = "be_bytes 4 (num_want r)" and ?port = "be_bytes 2 (port r)"
  let ?buf = "?cid @ ?act @ ?tid @ info_hash r @ peer_id r @ ?down @ ?left @ ?up @ ?ev @ ?ip @ ?key @ ?want @ ?port @ rest"
  have buf: "encode_announce_request r @ rest = ?buf"
    by (simp add: encode_announce_request_def encode_request_def)
  have "read_bytes ?buf 16 20 = Inr (info_hash r)" "read_bytes ?buf 36 20 = Inr (peer_id r)"
    "load 8 ?buf 0 = Inr (le_word ?cid :: 64 word)" "load 4 ?buf 8 = Inr (le_word ?act :: 32 word)"
    "load 4 ?buf 12 = Inr (le_word ?tid :: 32 word)" "load 8 ?buf 56 = Inr (le_word ?down :: 64 word)"
    "load 8 ?buf 64 = Inr (le_word ?left :: 64 word)" "load 8 ?buf 72 = Inr (le_word ?up :: 64 word)"
    "load 4 ?buf 80 = Inr (le_word ?ev :: 32 word)" "load 4 ?buf 84 = Inr (le_word ?ip :: 32 word)"
    "load 4 ?buf 88 = Inr (le_word ?key :: 32 word)" "load 4 ?buf 92 = Inr (le_word ?want :: 32 word)"
    "load 2 ?buf 96 = Inr (le_word ?port :: 16 word)"
    using assms by (simp_all add: load_def read_bytes_def)
  then show ?thesis
    unfolding buf bt_read_announce_request_data_def bt_read_request_data_def
    by (simp add: ntoh_be_bytes bt_req_t.truncate_def)
qed

text \<open>
  C23. Every field of a request header and of an announce request is recovered from its BEP 15
  encoding, whatever follows the packet in the receive buffer.
\<close>

theorem bt_read_announce_request_data_roundtrip:
  assumes "length (info_hash r) = 20" "length (peer_id r) = 20"
  shows "bt_read_announce_request_data (encode_announce_request r @ rest) = Inr r \<and>
    bt_read_request_data (encode_announce_request r @ rest) = Inr (bt_req_t.truncate r)"
  using assms by (rule announce_request_decoded)

definition example_announce :: bt_announce_req_t where
  "example_announce = \<lparr>connection_id = 0x0102030405060708, action = BT_ACTION_ANNOUNCE, transaction_id = 77,
     ipv4_addr = 0, port = 6881, info_hash = replicate 20 0xA5, peer_id = replicate 20 0x2D,
     downloaded = 0, left = 1000, uploaded = 0, key = 5, num_want = -1, event = BT_EVENT_STARTED\<rparr>"

theorem bt_read_announce_request_data_roundtrip_witness:
  "bt_read_announce_request_data (encode_announce_request example_announce @ [1, 2, 3]) = Inr example_announce \<and>
   bt_read_request_data (encode_announce_request example_announce @ [1, 2, 3]) =
     Inr \<lparr>connection_id = 0x0102030405060708, action = 1, transaction_id = 77\<rparr>"
  using bt_read_announce_request_data_roundtrip [of example_announce "[1, 2, 3]"]
  by (simp add: example_announce_def bt_req_t.truncate_def)

text \<open>A request header is recovered from the first 16 bytes.\<close>

lemma bt_read_request_data_encode:
  "bt_read_request_data (encode_request r @ rest) = Inr (bt_req_t.truncate r)"
proof -
  let ?cid = "be_bytes 8 (connection_id r)" and ?act = "be_bytes 4 (action r)"
    and ?tid = "be_bytes 4 (transaction_id r)"
  let ?buf = "?cid @ ?act @ ?tid @ rest"
  have "load 8 ?buf 0 = Inr (le_word ?cid :: 64 word)" "load 4 ?buf 8 = Inr (le_word ?act :: 32 word)"
    "load 4 ?buf 12 = Inr (le_word ?tid :: 32 word)"
    by (simp_all add: load_def read_bytes_def)
  then show ?thesis
    by (simp add: encode_request_def bt_read_request_data_def ntoh_be_bytes bt_req_t.truncate_def)
qed

lemma load_ok: "off + n \<le> length buf \<Longrightarrow> \<exists>x. load n buf off = Inr x"
  by (simp add: load_def read_bytes_def)

text \<open>Nothing the readers of headers and announce requests touch lies outside a receive buffer.\<close>

lemma bt_read_request_data_total:
  assumes "16 \<le> length buf"
  shows "\<exists>r. bt_read_request_data buf = Inr r"
  using assms by (simp add: bt_read_request_data_def load_def read_bytes_def)

lemma bt_read_announce_request_data_total:
  assumes "98 \<le> length buf"
  shows "\<exists>r. bt_read_announce_request_data buf = Inr r \<and> length (info_hash r) = 20 \<and> length (peer_id r) = 20"
  using assms by (simp add: bt_read_announce_request_data_def load_def read_bytes_def)

section \<open>Writing\<close>

lemmas write_simps = memcpy_to_front memcpy_to_fill le_bytes_hton

lemma bt_write_connection_data_eq:
  "\<exists>resp'. bt_write_connection_data (replicate 16 None) resp =
     Inr (map Some (encode_connection_response resp), resp')"
  by (simp add: bt_write_connection_data_def write_simps encode_connection_response_def
      del: map_append)

lemma bt_write_error_data_eq:
  assumes "9 + length msg \<le> n"
  shows "\<exists>req'. bt_write_error_data (replicate n None) (req\<lparr>action := BT_ACTION_ERROR\<rparr>) msg =
     Inr (map Some (encode_error_response (transaction_id req) msg) @ replicate (n - (9 + length msg)) None, req')"
  using assms by (simp add: bt_write_error_data_def write_simps encode_error_response_def
      del: map_append)

lemma write_peers_loop_eq:
  assumes "length pre = 20 + 6 * npeer" "length room = 6 * length peers"
  shows "\<exists>peers'. write_peers_loop npeer peers (map Some pre @ room) =
    Inr (map Some (pre @ concat (map encode_peer_addr peers)), peers')"
  using assms
proof (induction peers arbitrary: npeer pre room)
  case (Cons a peers)
  let ?pre = "pre @ encode_peer_addr a"
  have "memcpy_to (map Some pre @ room) (20 + 6 * npeer) (be_bytes 4 (addr_ipv4_addr a)) =
      Inr (map Some (pre @ be_bytes 4 (addr_ipv4_addr a)) @ drop 4 room)"
    using Cons.prems memcpy_to_fill [of "20 + 6 * npeer" pre "be_bytes 4 (addr_ipv4_addr a)" room] by simp
  moreover have "memcpy_to (map Some (pre @ be_bytes 4 (addr_ipv4_addr a)) @ drop 4 room) (24 + 6 * npeer)
      (be_bytes 2 (addr_port a)) = Inr (map Some ?pre @ drop 6 room)"
    using Cons.prems memcpy_to_fill [of "24 + 6 * npeer" "pre @ be_bytes 4 (addr_ipv4_addr a)"
        "be_bytes 2 (addr_port a)" "drop 4 room"] by (simp add: encode_peer_addr_def)
  moreover obtain peers' where "write_peers_loop (npeer + 1) peers (map Some ?pre @ drop 6 room) =
      Inr (map Some (?pre @ concat (map encode_peer_addr peers)), peers')"
    using Cons.IH [of ?pre "npeer + 1" "drop 6 room"] Cons.prems by auto
  ultimately show ?case by (simp add: le_bytes_hton)
qed simp

lemma bt_write_announce_response_data_eq:
  assumes "20 \<le> n"
  shows "\<exists>resp'. bt_write_announce_response_data (replicate n None) resp =
     Inr (map Some (encode_announce_response resp []) @ replicate (n - 20) None, resp')"
  using assms by (simp add: bt_write_announce_response_data_def write_simps encode_announce_response_def
      del: map_append)

lemma write_entries_loop_eq:
  assumes "length pre = 8 + 12 * nentry" "length room = 12 * length entries"
  shows "\<exists>entries'. write_entries_loop nentry entries (map Some pre @ room) =
    Inr (map Some (pre @ concat (map encode_stats entries)), entries')"
  using assms
proof (induction entries arbitrary: nentry pre room)
  case (Cons st entries)
  have "memcpy_to (map Some pre @ room) (8 + 12 * nentry) (encode_stats st) =
      Inr (map Some (pre @ encode_stats st) @ drop 12 room)"
    using Cons.prems memcpy_to_fill [of "8 + 12 * nentry" pre "encode_stats st" room] by simp
  moreover have "stats_image (st\<lparr>st_seeders := htonl (st_seeders st), st_leechers := htonl (st_leechers st),
      st_downloads := htonl (st_downloads st)\<rparr>) = encode_stats st"
    by (simp add: stats_image_def encode_stats_def le_bytes_hton)
  moreover obtain entries' where "write_entries_loop (nentry + 1) entries (map Some (pre @ encode_stats st) @ drop 12 room) =
      Inr (map Some ((pre @ encode_stats st) @ concat (map encode_stats entries)), entries')"
    using Cons.IH [of "pre @ encode_stats st" "nentry + 1" "drop 12 room"] Cons.prems by auto
  ultimately show ?case by simp
qed simp

lemma bt_write_scrape_response_data_eq:
  assumes "n = 8 + 12 * length (scrape_entries resp)"
  shows "\<exists>resp'. bt_write_scrape_response_data (replicate n None) resp =
     Inr (map Some (encode_scrape_response resp), resp')"
proof -
  let ?pre = "be_bytes 4 (resp_action resp) @ be_bytes 4 (resp_transaction_id resp)"
  obtain entries' where "write_entries_loop 0 (scrape_entries resp) (map Some ?pre @ replicate (n - 8) None) =
      Inr (map Some (?pre @ concat (map encode_stats (scrape_entries resp))), entries')"
    using write_entries_loop_eq [of ?pre 0 "replicate (n - 8) None"] assms by auto
  then show ?thesis
    using assms by (simp add: bt_write_scrape_response_data_def write_simps encode_scrape_response_def
      del: map_append)
qed

end
