(* ===== verification/Bt_Handshake.thy ===== *)
theory Bt_Handshake
  imports Bt_Store_Props Bt_Net
begin

text \<open>\<open>handshake.c\<close>: which requests are accepted.\<close>

declare str_simps [simp del]

definition bt_valid_request :: "('c, 's) hiredis_api \<Rightarrow> 'c \<Rightarrow> bt_config_t \<Rightarrow> bt_req_t \<Rightarrow> 64 word \<Rightarrow>
    's world \<Rightarrow> (bool \<times> 's world) result" where
  "bt_valid_request api redis config req packetlen w =
     (if action req = BT_ACTION_CONNECT then
        Inr (connection_id req = BT_PROTOCOL_ID \<and> 16 \<le> packetlen, w)
      else if action req = BT_ACTION_ANNOUNCE then
        if 20 \<le> packetlen then bt_connection_valid api redis config (connection_id req) w
        else Inr (False, w)
      else if action req = BT_ACTION_SCRAPE then
        if 8 \<le> packetlen then bt_connection_valid api redis config (connection_id req) w
        else Inr (False, w)
      else Inr (False, w))"

text \<open>The requests that pass, given what is stored under the key of their connection identifier.\<close>

definition request_accepted :: "bytes \<Rightarrow> redis_db \<Rightarrow> bt_req_t \<Rightarrow> 64 word \<Rightarrow> bool" where
  "request_accepted prefix d req packetlen \<longleftrightarrow>
     action req = BT_ACTION_CONNECT \<and> connection_id req = BT_PROTOCOL_ID \<and> 16 \<le> packetlen \<or>
     action req = BT_ACTION_ANNOUNCE \<and> 20 \<le> packetlen \<and> conn_ok prefix d (connection_id req) \<or>
     action req = BT_ACTION_SCRAPE \<and> 8 \<le> packetlen \<and> conn_ok prefix d (connection_id req)"

context tracker_store
begin

lemma valid_request_effect:
  assumes "idle w"
  shows "\<exists>w'. bt_valid_request api redis config req packetlen w =
      Inr (request_accepted prefix (db w) req packetlen, w') \<and> becomes w (db w) w'"
  using connection_valid_effect [OF assms, of "connection_id req"] assms
  by (auto simp: bt_valid_request_def request_accepted_def conn_ok_def becomes_def)

end

text \<open>
  A connect request is valid when it carries the protocol identifier and has 16 bytes; an
  announce request when it has 20 bytes and a scrape request when it has 8, whatever their connection
  identifier, as long as its key holds no value of another type; every other action is refused.
  Checking a request changes nothing.
\<close>

lemma bt_valid_request_spec:
  assumes "tracker_store api view pending config prefix" "pending redis (server w) = []"
    "conn_ok prefix (view redis (server w)) (connection_id req)"
  shows "\<exists>w'. bt_valid_request api redis config req packetlen w =
      Inr (action req = BT_ACTION_CONNECT \<and> connection_id req = BT_PROTOCOL_ID \<and> 16 \<le> packetlen \<or>
           action req = BT_ACTION_ANNOUNCE \<and> 20 \<le> packetlen \<or>
           action req = BT_ACTION_SCRAPE \<and> 8 \<le> packetlen, w') \<and>
    view redis (server w') = view redis (server w) \<and> pending redis (server w') = []"
  using tracker_store.valid_request_effect [OF assms(1,2), of req packetlen] assms(3)
  unfolding tracker_store.becomes_def [OF assms(1)] request_accepted_def by auto

end
