(* ===== verification/Bt_Error.thy ===== *)
theory Bt_Error
  imports Bt_Net
begin

text \<open>\<open>error.c\<close>: the error response. The message is a C string pointer, which may be \<open>NULL\<close>.\<close>

definition bt_send_error :: "bt_req_t \<Rightarrow> bytes option \<Rightarrow> 's world \<Rightarrow> (bt_response_buffer_t \<times> 's world) result" where
  "bt_send_error request msg w =
     bindE (malloc_or_exit sizeof_bt_response_buffer_t w) (\<lambda>(_, w).
     bindE (deref msg) (\<lambda>msg.
     let len = 64 + length msg + 1
     in bindE (malloc_or_exit len w) (\<lambda>(dat, w).
        let req_copy = \<lparr>connection_id = connection_id request, action = BT_ACTION_ERROR,
                        transaction_id = transaction_id request\<rparr>
        in bindE (bt_write_error_data dat req_copy msg) (\<lambda>(dat, _).
           Inr (\<lparr>resp_length = len, resp_data = dat\<rparr>, w)))))"

lemma bt_send_error_eq:
  assumes "memory_available w"
  shows "bt_send_error request (Some msg) w =
    Inr (\<lparr>resp_length = 65 + length msg,
          resp_data = map Some (encode_error_response (transaction_id request) msg) @ replicate 56 None\<rparr>,
         w\<lparr>malloc_pos := malloc_pos w + 2\<rparr>)"
proof -
  obtain req' where "bt_write_error_data (replicate (65 + length msg) None)
      (\<lparr>connection_id = connection_id request, action = 0, transaction_id = transaction_id request\<rparr>
        \<lparr>action := BT_ACTION_ERROR\<rparr>) msg =
      Inr (map Some (encode_error_response (transaction_id request) msg) @ replicate 56 None, req')"
    using bt_write_error_data_eq [of msg "65 + length msg"
        "\<lparr>connection_id = connection_id request, action = 0, transaction_id = transaction_id request\<rparr>"]
    by auto
  then show ?thesis using assms by (simp add: bt_send_error_def Let_def)
qed

lemma bt_send_error_null: "\<exists>e. bt_send_error request None w = Inl e"
  by (auto simp: bt_send_error_def malloc_or_exit_def malloc_def)

text \<open>
  C39. An error response begins with the BEP 15 encoding of the action, the transaction identifier of
  the request and the message; the 56 bytes that follow it in the datagram are heap memory that
  \<open>bt_send_error\<close> never wrote.
\<close>

theorem bt_send_error_leaks:
  assumes "memory_available w"
  shows "\<exists>resp w'. bt_send_error request (Some msg) w = Inr (resp, w') \<and>
    resp_length resp = length (resp_data resp) \<and>
    take (9 + length msg) (resp_data resp) = map Some (encode_error_response (transaction_id request) msg) \<and>
    drop (9 + length msg) (resp_data resp) = replicate 56 None"
  using assms by (simp add: bt_send_error_eq encode_error_response_def)

theorem bt_send_error_leaks_witness:
  "\<exists>resp w'. bt_send_error \<lparr>connection_id = 7, action = 1, transaction_id = 9\<rparr> (Some (str ''no''))
      (quiet_world ()) = Inr (resp, w') \<and> length (resp_data resp) = 67 \<and>
    drop 11 (resp_data resp) = replicate 56 None"
  using bt_send_error_leaks [OF quiet_world_env(1) [of "()"],
      of "\<lparr>connection_id = 7, action = 1, transaction_id = 9\<rparr>" "str ''no''"]
  by (auto simp: bt_send_error_eq)

end
