(* ===== verification/Bt_Connect.thy ===== *)
theory Bt_Connect
  imports Bt_Handshake Bt_Error
begin

text \<open>\<open>connect.c\<close>: the answer to a connection request.\<close>

declare str_simps [simp del]

definition bt_serialize_connection_response ::
    "bt_connection_resp_t \<Rightarrow> 's world \<Rightarrow> (bt_response_buffer_t \<times> 's world) result" where
  "bt_serialize_connection_response response_data w =
     bindE (malloc_or_exit sizeof_bt_response_buffer_t w) (\<lambda>(_, w).
     bindE (malloc_or_exit 16 w) (\<lambda>(dat, w).
     bindE (bt_write_connection_data dat response_data) (\<lambda>(dat, _).
     Inr (\<lparr>resp_length = 16, resp_data = dat\<rparr>, w))))"

definition bt_handle_connection :: "('c, 's) hiredis_api \<Rightarrow> bt_req_t \<Rightarrow> bt_config_t \<Rightarrow> 64 word \<Rightarrow> 'c \<Rightarrow>
    's world \<Rightarrow> (bt_response_buffer_t option \<times> 's world) result" where
  "bt_handle_connection api request config buflen redis w =
     bindE (bt_valid_request api redis config request buflen w) (\<lambda>(valid, w).
     if \<not> valid then Inr (None, w)
     else
       let (conn_id, w) = bt_random_int64 w
       in bindE (bt_insert_connection api redis config conn_id w) (\<lambda>w.
          let response_data = \<lparr>resp_action = action request, resp_transaction_id = transaction_id request,
                               resp_connection_id = conn_id\<rparr>
          in bindE (bt_serialize_connection_response response_data w) (\<lambda>(resp_buffer, w).
             Inr (Some resp_buffer, w))))"

lemma bt_serialize_connection_response_eq:
  assumes "memory_available w"
  shows "bt_serialize_connection_response resp w =
    Inr (\<lparr>resp_length = 16, resp_data = map Some (encode_connection_response resp)\<rparr>,
         w\<lparr>malloc_pos := malloc_pos w + 2\<rparr>)"
  using bt_write_connection_data_eq [of resp] assms by (auto simp: bt_serialize_connection_response_def)

lemma bt_random_int64_world: "\<exists>n. snd (bt_random_int64 w) = w\<lparr>rand_pos := n\<rparr>"
  by (rule exI [of _ "rand_pos w + 8"]) (simp add: bt_random_int64_def random_bytes_eq Let_def)

context tracker_store
begin

lemma handle_connection_effect:
  assumes "idle w" "memory_available w" "action request = BT_ACTION_CONNECT"
  shows "\<exists>conn_id w'. bt_handle_connection api request config buflen redis w =
      Inr (if connection_id request = BT_PROTOCOL_ID \<and> 16 \<le> buflen
           then Some \<lparr>resp_length = 16, resp_data = map Some (encode_connection_response
             \<lparr>resp_action = BT_ACTION_CONNECT, resp_transaction_id = transaction_id request,
              resp_connection_id = conn_id\<rparr>)\<rparr>
           else None, w') \<and>
    becomes w (if connection_id request = BT_PROTOCOL_ID \<and> 16 \<le> buflen
      then (db w)(conn_key prefix conn_id \<mapsto> (RString (str ''1''), Some 120)) else db w) w' \<and>
    conn_id = fst (bt_random_int64 w)"
proof -
  obtain cid n where n: "bt_random_int64 w = (cid, w\<lparr>rand_pos := n\<rparr>)"
    using bt_random_int64_world by (metis prod.collapse)
  let ?w = "w\<lparr>rand_pos := n\<rparr>"
  have "idle ?w" using assms(1) by simp
  then obtain w' where w': "bt_insert_connection api redis config cid ?w = Inr w'"
    "becomes ?w ((db w)(conn_key prefix cid \<mapsto> (RString (str ''1''), Some 120))) w'"
    using insert_connection_effect [of ?w] by auto
  then have "memory_available w'" using assms(2) same_env_keeps(1) [of ?w w'] by (simp add: becomes_def)
  moreover have "bt_valid_request api redis config request buflen w =
      Inr (connection_id request = BT_PROTOCOL_ID \<and> 16 \<le> buflen, w)"
    using assms(3) by (simp add: bt_valid_request_def)
  ultimately show ?thesis
    using assms w' n unfolding bt_handle_connection_def
    by (auto simp: bt_serialize_connection_response_eq becomes_def)
qed

end



end
