(* ===== verification/Bt_Announce.thy ===== *)
theory Bt_Announce
  imports Bt_Handshake Bt_Error
begin

text \<open>\<open>announce.c\<close>: the answer to an announce request.\<close>

declare str_simps [simp del]

definition bt_announce_event_str :: "bt_announce_event \<Rightarrow> string" where
  "bt_announce_event_str ev =
     (if ev = BT_EVENT_NONE then ''NONE''
      else if ev = BT_EVENT_COMPLETED then ''COMPLETED''
      else if ev = BT_EVENT_STARTED then ''STARTED''
      else if ev = BT_EVENT_STOPPED then ''STOPPED''
      else ''UNKNOWN'')"

text \<open>The message \<open>bt_log_announce_request\<close> hands to \<open>syslog\<close>; the counters are printed as signed numbers.\<close>

definition bt_log_announce_request :: "bt_announce_req_t \<Rightarrow> bytes" where
  "bt_log_announce_request req =
     (let event_str = str (bt_announce_event_str (event req))
      in str ''Handling announce: ['' @ event_str @ str ''] D/U/L/W: '' @
         decimal (sint (downloaded req)) @ str ''/'' @ decimal (sint (uploaded req)) @ str ''/'' @
         decimal (sint (left req)) @ str ''/'' @ decimal (sint (num_want req)))"

definition bt_update_peer_list :: "('c, 's) hiredis_api \<Rightarrow> 'c \<Rightarrow> bt_config_t \<Rightarrow> bt_announce_req_t \<Rightarrow>
    sockaddr_in \<Rightarrow> bytes \<Rightarrow> bool \<Rightarrow> 's world \<Rightarrow> 's world result" where
  "bt_update_peer_list api redis config announce_request client_addr info_hash_str is_seeder w =
     (let pid = peer_id announce_request; ev = event announce_request
      in if ev = BT_EVENT_STOPPED then
           bt_remove_peer api redis config info_hash_str pid is_seeder w
         else if ev = BT_EVENT_COMPLETED then
           bt_promote_peer api redis config info_hash_str pid w
         else if ev = BT_EVENT_NONE \<or> ev = BT_EVENT_STARTED then
           bindE (bt_new_peer announce_request (ntohl (s_addr client_addr)) w) (\<lambda>(peer, w).
           bt_insert_peer api redis config info_hash_str pid peer is_seeder w)
         else Inr w)"

text \<open>The second \<open>malloc\<close>, unlike those of the other responses, is not checked.\<close>

definition bt_serialize_announce_response ::
    "bt_announce_resp_t \<Rightarrow> nat \<Rightarrow> bt_peer_addr_t list \<Rightarrow> 's world \<Rightarrow> (bt_response_buffer_t \<times> 's world) result" where
  "bt_serialize_announce_response response_data peer_count peers w =
     (let len = 20 + peer_count * 6
      in bindE (malloc_or_exit sizeof_bt_response_buffer_t w) (\<lambda>(_, w).
         bindE (malloc_unchecked len w) (\<lambda>(dat, w).
         bindE (bt_write_announce_response_data dat response_data) (\<lambda>(dat, _).
         bindE (bt_write_announce_peer_data dat peers) (\<lambda>(dat, _).
         Inr (\<lparr>resp_length = len, resp_data = dat\<rparr>, w))))))"

text \<open>\<open>(num_want < 0 || num_want > config->announce_max_numwant) ? config->announce_max_numwant : num_want\<close>\<close>

definition clamp_num_want :: "bt_config_t \<Rightarrow> 32 word \<Rightarrow> 32 word" where
  "clamp_num_want config want =
     (if sint want < 0 \<or> sint want > uint (announce_max_numwant config)
      then ucast (announce_max_numwant config) else want)"

text \<open>The peers of the answer: first those of the other role, then, if there is room, siblings.\<close>

definition collect_peers :: "('c, 's) hiredis_api \<Rightarrow> 'c \<Rightarrow> bt_config_t \<Rightarrow> bytes \<Rightarrow> 32 word \<Rightarrow> bool \<Rightarrow>
    's world \<Rightarrow> ((bt_peer_addr_t list \<times> nat) \<times> 's world) result" where
  "collect_peers api redis config info_hash_str want is_seeder w =
     bindE (bt_peer_list api redis config info_hash_str want 0 (\<not> is_seeder) w) (\<lambda>((peers, peer_count), w).
     if int peer_count < sint want then
       bindE (bt_peer_list api redis config info_hash_str (want - of_nat peer_count) 0 is_seeder w)
         (\<lambda>((complement, complement_count), w).
       if complement \<noteq> [] \<and> complement_count > 0
       then Inr ((peers @ complement, peer_count + complement_count), w)
       else Inr ((peers, peer_count), w))
     else Inr ((peers, peer_count), w))"

definition bt_handle_announce :: "('c, 's) hiredis_api \<Rightarrow> bt_req_t \<Rightarrow> bt_config_t \<Rightarrow> bytes \<Rightarrow> 64 word \<Rightarrow>
    sockaddr_in \<Rightarrow> 'c \<Rightarrow> 's world \<Rightarrow> (bt_response_buffer_t option \<times> 's world) result" where
  "bt_handle_announce api request config buff buflen client_addr redis w =
     bindE (bt_valid_request api redis config request buflen w) (\<lambda>(valid, w).
     if \<not> valid then Inr (None, w)
     else
       bindE (bt_read_announce_request_data buff) (\<lambda>announce_request.
       bindE (bt_bytearray_to_hexarray (info_hash announce_request) 20 w) (\<lambda>(hexarray, w).
       let info_hash_str = c_str hexarray
       in bindE (bt_info_hash_blacklisted api redis config info_hash_str w) (\<lambda>(blacklisted, w).
          if blacklisted then
            bindE (bt_send_error request (Some (str ''Blacklisted info hash'')) w) (\<lambda>(resp, w).
            Inr (Some resp, w))
          else
            let is_seeder = (left announce_request = 0)
            in bindE (bt_update_peer_list api redis config announce_request client_addr
                        info_hash_str is_seeder w) (\<lambda>w.
               let want = clamp_num_want config (num_want announce_request)
               in bindE (collect_peers api redis config info_hash_str want is_seeder w)
                    (\<lambda>((peers, peer_count), w).
                  bindE (bt_get_torrent_stats api redis config info_hash_str w) (\<lambda>(stats, w).
                  let response_header = \<lparr>resp_action = action request,
                        resp_transaction_id = transaction_id request,
                        interval = announce_wait_time config,
                        leechers = st_leechers stats, seeders = st_seeders stats\<rparr>
                  in bindE (bt_serialize_announce_response response_header peer_count peers w)
                       (\<lambda>(resp, w). Inr (Some resp, w)))))))))"

section \<open>The swarm\<close>

text \<open>The effect of an announce on the swarm of its torrent.\<close>

definition announce_spec :: "bt_announce_event \<Rightarrow> bool \<Rightarrow> bytes \<Rightarrow> bt_peer_addr_t \<Rightarrow> swarm_state \<Rightarrow> swarm_state" where
  "announce_spec ev seeder pid a s =
     (if ev = BT_EVENT_STOPPED then drop_peer seeder pid s
      else if ev = BT_EVENT_COMPLETED then complete_peer pid s
      else if ev = BT_EVENT_NONE \<or> ev = BT_EVENT_STARTED then add_peer seeder pid a s
      else s)"

text \<open>The address under which a peer is listed: the one it asks for, or the one it sends from.\<close>

definition announced_addr :: "bt_announce_req_t \<Rightarrow> sockaddr_in \<Rightarrow> bt_peer_addr_t" where
  "announced_addr r client_addr =
     \<lparr>addr_ipv4_addr = (if ipv4_addr r = 0 then ntohl (s_addr client_addr) else ipv4_addr r), addr_port = port r\<rparr>"

text \<open>
  Which peers a client is told of: distinct peers of the other role, as many as it wants or there
  are, then distinct peers of its own role to fill the rest.
\<close>

definition answer_peers :: "(bool \<Rightarrow> bytes \<rightharpoonup> bt_peer_addr_t) \<Rightarrow> bool \<Rightarrow> nat \<Rightarrow> bt_peer_addr_t list \<Rightarrow> bool" where
  "answer_peers sw b n peers \<longleftrightarrow>
     (\<exists>others sibs. peers = map (\<lambda>pid. the (sw (\<not> b) pid)) others @ map (\<lambda>pid. the (sw b pid)) sibs \<and>
        distinct others \<and> set others \<subseteq> dom (sw (\<not> b)) \<and> distinct sibs \<and> set sibs \<subseteq> dom (sw b) \<and>
        length others = min (card (dom (sw (\<not> b)))) n \<and>
        length sibs = min (card (dom (sw b))) (n - length others))"

lemma answer_peers_length:
  "answer_peers sw b n peers \<Longrightarrow> length peers = min n (card (dom (sw b)) + card (dom (sw (\<not> b))))"
  by (auto simp: answer_peers_def)

lemma clamp_num_want_bounds:
  "0 \<le> sint (clamp_num_want config want)" "sint (clamp_num_want config want) \<le> uint (announce_max_numwant config)"
proof -
  let ?m = "announce_max_numwant config"
  have "- (2 ^ 31) \<le> uint ?m" by (rule order_trans [OF _ unsigned_greater_eq]) simp
  moreover have "uint ?m < 2 ^ 31" using unsigned_less [of ?m, where ?'a = int] by simp
  ultimately have u: "sint (ucast ?m :: 32 word) = uint ?m"
    using signed_take_bit_int_eq_self [of 31 "uint ?m"]
    by (simp add: sint_uint unsigned_ucast_eq take_bit_int_eq_self)
  show "0 \<le> sint (clamp_num_want config want)"
    "sint (clamp_num_want config want) \<le> uint (announce_max_numwant config)"
    by (auto simp: clamp_num_want_def u)
qed

lemma sint_diff_of_nat:
  assumes "int n < sint (v :: 32 word)"
  shows "sint (v - of_nat n) = sint v - int n"
proof -
  have "sint (of_nat n :: 32 word) = int n"
    using assms sint_lt [of v] by (simp add: signed_of_nat signed_take_bit_int_eq_self)
  then show ?thesis
    using assms sint_lt [of v] by (simp add: sint_word_ariths signed_take_bit_int_eq_self)
qed

text \<open>The two writers together fill a block of the right length.\<close>

lemma bt_write_announce_data_eq:
  "\<exists>dat resp' peers'. bt_write_announce_response_data (replicate (20 + length peers * 6) None) resp = Inr (dat, resp') \<and>
     bt_write_announce_peer_data dat peers = Inr (map Some (encode_announce_response resp peers), peers')"
proof -
  let ?n = "20 + length peers * 6" and ?hd = "encode_announce_response resp []"
  obtain resp' where 1: "bt_write_announce_response_data (replicate ?n None) resp =
      Inr (map Some ?hd @ replicate (?n - 20) None, resp')"
    using bt_write_announce_response_data_eq [of ?n resp] by auto
  obtain peers' where 2: "bt_write_announce_peer_data (map Some ?hd @ replicate (?n - 20) None) peers =
      Inr (map Some (?hd @ concat (map encode_peer_addr peers)), peers')"
    using write_peers_loop_eq [of ?hd 0 "replicate (?n - 20) None" peers]
    by (auto simp: bt_write_announce_peer_data_def)
  have "encode_announce_response resp peers = ?hd @ concat (map encode_peer_addr peers)"
    by (simp add: encode_announce_response_def)
  then show ?thesis using 1 2 by simp
qed

lemma bt_serialize_announce_response_eq:
  assumes "memory_available w"
  shows "bt_serialize_announce_response resp (length peers) peers w =
    Inr (\<lparr>resp_length = 20 + 6 * length peers, resp_data = map Some (encode_announce_response resp peers)\<rparr>,
         w\<lparr>malloc_pos := malloc_pos w + 2\<rparr>)"
  using assms bt_write_announce_data_eq [of peers resp]
  by (auto simp: bt_serialize_announce_response_def Let_def mult.commute)

context tracker_store
begin

lemma update_peer_list_effect:
  assumes "store_inv w" "memory_available w" "length h = 40"
  shows "\<exists>w'. bt_update_peer_list api redis config r client_addr h b w = Inr w' \<and>
    becomes w (db w') w' \<and> db_ok prefix (db w') \<and>
    swarms_of prefix (db w') = (swarms_of prefix (db w))
      (h := announce_spec (event r) b (peer_id r) (announced_addr r client_addr) (swarms_of prefix (db w) h))"
proof -
  let ?w = "w\<lparr>malloc_pos := Suc (malloc_pos w)\<rparr>"
  obtain p where p: "bt_new_peer r (ntohl (s_addr client_addr)) w = Inr (p, ?w)" "peer_addr p = announced_addr r client_addr"
    using assms(2) by (simp add: bt_new_peer_def peer_addr_def announced_addr_def)
  have "store_inv ?w" using assms(1) by simp
  with insert_peer_store [OF this assms(3), of "peer_id r" p b] show ?thesis
    using remove_peer_store [OF assms(1,3), of "peer_id r" b] promote_peer_store [OF assms(1,3), of "peer_id r"]
      p assms(1)
    by (auto simp: bt_update_peer_list_def announce_spec_def Let_def becomes_def)
qed

text \<open>The lists of info hashes are left alone.\<close>

lemma update_peer_list_lists:
  assumes "store_inv w" "memory_available w" "length h = 40"
    "bt_update_peer_list api redis config r client_addr h b w = Inr w'"
  shows "refused config (db w') prefix = refused config (db w) prefix"
proof -
  let ?w = "w\<lparr>malloc_pos := Suc (malloc_pos w)\<rparr>"
  obtain p where "bt_new_peer r (ntohl (s_addr client_addr)) w = Inr (p, ?w)"
    using assms(2) by (simp add: bt_new_peer_def)
  moreover have "idle ?w" using assms(1) by simp
  ultimately have "db w' (whitelist_key prefix) = db w (whitelist_key prefix)"
      "db w' (blacklist_key prefix) = db w (blacklist_key prefix)"
    using assms insert_peer_effect [of ?w h "peer_id r" p b] remove_peer_effect [of w h "peer_id r" b]
      promote_peer_effect [of w h "peer_id r"]
    by (auto simp: bt_update_peer_list_def Let_def becomes_def key_classes_disjoint [THEN not_sym]
        torrent_key_lists [THEN not_sym] split: if_splits)
  then show ?thesis by (simp add: refused_def listed_def fun_eq_iff split: bt_restriction.split)
qed

lemma collect_peers_effect:
  assumes "store_inv w" "glob_free h" "memory_available w" "rand_below_max w"
    and want: "0 \<le> sint want" and size: "\<And>b. card (dom (swarm (db w) prefix h b)) < 2 ^ 22"
  shows "\<exists>w' peers. collect_peers api redis config h want b w = Inr ((peers, length peers), w') \<and>
    becomes w (db w) w' \<and> answer_peers (swarm (db w) prefix h) b (nat (sint want)) peers"
proof -
  obtain w1 others where 1: "bt_peer_list api redis config h want 0 (\<not> b) w =
      Inr ((map (\<lambda>pid. the (swarm (db w) prefix h (\<not> b) pid)) others, length others), w1)"
      "becomes w (db w) w1" "distinct others" "set others \<subseteq> dom (swarm (db w) prefix h (\<not> b))"
      "length others = min (card (dom (swarm (db w) prefix h (\<not> b)))) (nat (sint want))"
    using peer_list_effect [OF _ _ assms(2-4) want size] assms(1) by blast
  have w1: "idle w1" "db w1 = db w" "memory_available w1" "rand_below_max w1"
    using 1(2) same_env_keeps [of w w1] assms by (auto simp: becomes_def)
  show ?thesis
  proof (cases "int (length others) < sint want")
    case True
    let ?want = "want - of_nat (length others)"
    have left_over: "nat (sint ?want) = nat (sint want) - length others" "0 \<le> sint ?want"
      using sint_diff_of_nat [OF True] True by auto
    obtain w2 sibs where 2: "bt_peer_list api redis config h ?want 0 b w1 =
        Inr ((map (\<lambda>pid. the (swarm (db w) prefix h b pid)) sibs, length sibs), w2)"
        "becomes w1 (db w) w2" "distinct sibs" "set sibs \<subseteq> dom (swarm (db w) prefix h b)"
        "length sibs = min (card (dom (swarm (db w) prefix h b))) (nat (sint want) - length others)"
      using peer_list_effect [OF w1(1) _ assms(2) w1(3,4) left_over(2), of b 0] w1(2) assms(1) size
      unfolding left_over(1) by auto
    have "collect_peers api redis config h want b w =
      Inr ((map (\<lambda>pid. the (swarm (db w) prefix h (\<not> b) pid)) others @
            map (\<lambda>pid. the (swarm (db w) prefix h b pid)) sibs, length others + length sibs), w2)" (is "_ = Inr ((?peers, _), _)")
      using True by (cases sibs) (simp_all add: collect_peers_def 1(1) 2(1))
    moreover have "answer_peers (swarm (db w) prefix h) b (nat (sint want)) ?peers"
      unfolding answer_peers_def using 1(3-5) 2(3-5) by blast
    ultimately show ?thesis using becomes_trans [OF 1(2) 2(2)] by (intro exI conjI) simp_all
  next
    case False
    let ?peers = "map (\<lambda>pid. the (swarm (db w) prefix h (\<not> b) pid)) others"
    have "collect_peers api redis config h want b w = Inr ((?peers, length others), w1)"
      using False by (simp add: collect_peers_def 1(1))
    moreover have "answer_peers (swarm (db w) prefix h) b (nat (sint want)) ?peers"
      unfolding answer_peers_def using 1(3-5) False by (intro exI [of _ others] exI [of _ "[]"]) auto
    ultimately show ?thesis using 1(2) by (intro exI conjI) simp_all
  qed
qed

end

text \<open>Any sequence of announces, of any peers for any torrents, refines its specification.\<close>

sublocale tracker_store \<subseteq> announces: simulation
    "\<lambda>(r, client_addr). bt_update_peer_list api redis config r client_addr (hex (info_hash r)) (left r = 0)"
    "\<lambda>(r, client_addr). length (info_hash r) = 20"
    "\<lambda>w. pending redis (server w) = [] \<and> db_ok prefix (view redis (server w)) \<and> memory_available w"
    "\<lambda>w. swarms_of prefix (view redis (server w))"
    "\<lambda>(r, client_addr) sw. sw(hex (info_hash r) := announce_spec (event r) (left r = 0) (peer_id r)
        (announced_addr r client_addr) (sw (hex (info_hash r))))"
proof unfold_locales
  fix w :: "'s world" and i :: "bt_announce_req_t \<times> sockaddr_in"
  assume inv: "idle w \<and> db_ok prefix (db w) \<and> memory_available w"
    and ok: "case i of (r, client_addr) \<Rightarrow> length (info_hash r) = 20"
  obtain r client_addr where i: "i = (r, client_addr)" by fastforce
  have "length (hex (info_hash r)) = 40" using ok i by simp
  then obtain w' where w': "bt_update_peer_list api redis config r client_addr (hex (info_hash r)) (left r = 0) w = Inr w'"
    "becomes w (db w') w'" "db_ok prefix (db w')"
    "swarms_of prefix (db w') = (swarms_of prefix (db w)) (hex (info_hash r) := announce_spec (event r)
      (left r = 0) (peer_id r) (announced_addr r client_addr) (swarms_of prefix (db w) (hex (info_hash r))))"
    using update_peer_list_effect [of w "hex (info_hash r)" r client_addr "left r = 0"] inv by auto
  have "memory_available w'" using w'(2) inv same_env_keeps(1) by (auto simp: becomes_def)
  then show "\<exists>w'. (case i of (r, client_addr) \<Rightarrow>
        bt_update_peer_list api redis config r client_addr (hex (info_hash r)) (left r = 0)) w = Inr w' \<and>
      (idle w' \<and> db_ok prefix (db w') \<and> memory_available w') \<and>
      swarms_of prefix (db w') = (case i of (r, client_addr) \<Rightarrow> \<lambda>sw. sw(hex (info_hash r) :=
        announce_spec (event r) (left r = 0) (peer_id r) (announced_addr r client_addr) (sw (hex (info_hash r)))))
        (swarms_of prefix (db w))"
    using i w' by (intro exI [of _ w']) (simp add: becomes_def)
qed

lemma announce_spec_card:
  assumes "finite (dom (sw_peers s b))"
  shows "card (dom (sw_peers (announce_spec ev r pid a s) b)) \<le> Suc (card (dom (sw_peers s b)))"
proof -
  have "dom (sw_peers (announce_spec ev r pid a s) b) \<subseteq> insert pid (dom (sw_peers s b))"
    by (auto simp: announce_spec_def add_peer_def drop_peer_def complete_peer_def split: if_splits option.splits)
  then have "card (dom (sw_peers (announce_spec ev r pid a s) b)) \<le> card (insert pid (dom (sw_peers s b)))"
    using assms by (intro card_mono) auto
  also have "\<dots> \<le> Suc (card (dom (sw_peers s b)))" using assms card_insert_le_m1 by (simp add: card_insert_if)
  finally show ?thesis .
qed

text \<open>So a swarm grows by at most one peer.\<close>

lemma swarms_of_size:
  assumes "length h = 40"
    "swarms_of prefix d' = (swarms_of prefix d)(h := announce_spec ev r pid a (swarms_of prefix d h))" "db_ok prefix d"
    "\<And>b. card (dom (swarm d prefix h b)) < n"
  shows "card (dom (swarm d' prefix h b)) < Suc n"
proof -
  have "swarm d' prefix h b = sw_peers (announce_spec ev r pid a (swarms_of prefix d h)) b"
    using arg_cong [OF fun_cong [OF assms(2), of h], of sw_peers] assms(1) by (simp add: swarms_of_def)
  moreover have "sw_peers (swarms_of prefix d h) b = swarm d prefix h b"
    using assms(1) by (simp add: swarms_of_def)
  ultimately show ?thesis
    using announce_spec_card [of "swarms_of prefix d h" b ev r pid a] finite_swarm [OF assms(3), of h b] assms(4) [of b] by simp
qed

section \<open>The answer\<close>

text \<open>The answer to an announce, in terms of the database \<open>d\<close> it leaves.\<close>

definition announce_answer :: "bt_config_t \<Rightarrow> bytes \<Rightarrow> bt_req_t \<Rightarrow> redis_db \<Rightarrow> bytes \<Rightarrow> bt_peer_addr_t list \<Rightarrow> bytes" where
  "announce_answer config prefix request d h peers = encode_announce_response
     \<lparr>resp_action = action request, resp_transaction_id = transaction_id request,
      interval = announce_wait_time config, leechers = of_nat (card (dom (swarm d prefix h False))),
      seeders = of_nat (card (dom (swarm d prefix h True)))\<rparr> peers"

context tracker_store
begin

lemmas announces_refine = announces.run_all_refines

text \<open>Up to the check of the info hash.\<close>

lemma handle_announce_head:
  assumes "idle w" "memory_available w"
    "list_ok (db w) (whitelist_key prefix)" "list_ok (db w) (blacklist_key prefix)"
    "action request = BT_ACTION_ANNOUNCE" "request_accepted prefix (db w) request buflen"
    "bt_read_announce_request_data buff = Inr r" "length (info_hash r) = 20"
  shows "\<exists>w'. becomes w (db w) w' \<and>
    (\<exists>w1 w2 hexarray. bt_valid_request api redis config request buflen w = Inr (True, w1) \<and>
       bt_bytearray_to_hexarray (info_hash r) 20 w1 = Inr (hexarray, w2) \<and> c_str hexarray = hex (info_hash r) \<and>
       bt_info_hash_blacklisted api redis config (hex (info_hash r)) w2 =
         Inr (refused config (db w) prefix (hex (info_hash r)), w'))"
proof -
  obtain w1 where 1: "bt_valid_request api redis config request buflen w = Inr (True, w1)" "becomes w (db w) w1"
    using valid_request_effect [OF assms(1), of request buflen] assms(6) by auto
  have mem: "memory_available w1" using 1(2) assms(2) same_env_keeps(1) by (auto simp: becomes_def)
  let ?w2 = "w1\<lparr>malloc_pos := Suc (malloc_pos w1)\<rparr>"
  have 2: "bt_bytearray_to_hexarray (info_hash r) 20 w1 = Inr (map Some (hex (info_hash r) @ [0]), ?w2)"
    by (rule bt_bytearray_to_hexarray_eq [OF mem assms(8)])
  have w2: "becomes w (db w) ?w2" using 1(2) by (simp add: becomes_def)
  then have "idle ?w2" "db ?w2 = db w" by (simp_all add: becomes_def)
  then obtain w' where 3: "bt_info_hash_blacklisted api redis config (hex (info_hash r)) ?w2 =
      Inr (refused config (db w) prefix (hex (info_hash r)), w')" "becomes ?w2 (db w) w'"
    using blacklisted_effect [of ?w2 "hex (info_hash r)"] assms(3,4) by auto
  then show ?thesis using 1 2 c_str_hex becomes_trans [OF w2 3(2)] by blast
qed

lemma handle_announce_refused:
  assumes "idle w" "memory_available w"
    "list_ok (db w) (whitelist_key prefix)" "list_ok (db w) (blacklist_key prefix)"
    "action request = BT_ACTION_ANNOUNCE" "request_accepted prefix (db w) request buflen"
    "bt_read_announce_request_data buff = Inr r" "length (info_hash r) = 20"
    "refused config (db w) prefix (hex (info_hash r))"
  shows "\<exists>resp w'. bt_handle_announce api request config buff buflen client_addr redis w = Inr (Some resp, w') \<and>
    becomes w (db w) w' \<and> resp_length resp = 86 \<and>
    resp_data resp = map Some (encode_error_response (transaction_id request) (str ''Blacklisted info hash'')) @
      replicate 56 None"
proof -
  obtain w' w1 w2 hexarray where head: "becomes w (db w) w'"
      "bt_valid_request api redis config request buflen w = Inr (True, w1)"
      "bt_bytearray_to_hexarray (info_hash r) 20 w1 = Inr (hexarray, w2)" "c_str hexarray = hex (info_hash r)"
      "bt_info_hash_blacklisted api redis config (hex (info_hash r)) w2 = Inr (True, w')"
    using handle_announce_head [OF assms(1-8)] assms(9) by auto
  have "memory_available w'" using head(1) assms(2) same_env_keeps(1) by (auto simp: becomes_def)
  then show ?thesis
    using head assms(7)
    by (auto simp: bt_handle_announce_def bt_send_error_eq becomes_def)
qed

text \<open>From the update of the swarm to the statistics.\<close>

lemma announce_body:
  assumes "store_inv w" "memory_available w" "rand_below_max w" "length h = 40" "glob_free h"
    and size: "\<And>b. card (dom (swarm (db w) prefix h b)) < 2 ^ 22 - 1"
  shows "\<exists>w1 w2 w3 peers. bt_update_peer_list api redis config r client_addr h is_seeder w = Inr w1 \<and>
    collect_peers api redis config h (clamp_num_want config want) is_seeder w1 = Inr ((peers, length peers), w2) \<and>
    bt_get_torrent_stats api redis config h w2 =
      Inr (\<lparr>st_seeders = of_nat (card (dom (swarm (db w3) prefix h True))),
            st_downloads = word_of_int (downloads_of (db w3) prefix h),
            st_leechers = of_nat (card (dom (swarm (db w3) prefix h False)))\<rparr>, w3) \<and>
    becomes w (db w3) w3 \<and> db_ok prefix (db w3) \<and> refused config (db w3) prefix = refused config (db w) prefix \<and>
    swarms_of prefix (db w3) = (swarms_of prefix (db w))(h := announce_spec (event r) is_seeder (peer_id r)
       (announced_addr r client_addr) (swarms_of prefix (db w) h)) \<and>
    answer_peers (swarm (db w3) prefix h) is_seeder (nat (sint (clamp_num_want config want))) peers"
proof -
  let ?want = "clamp_num_want config want"
  obtain w1 where 1: "bt_update_peer_list api redis config r client_addr h is_seeder w = Inr w1"
      "becomes w (db w1) w1" "db_ok prefix (db w1)"
      "swarms_of prefix (db w1) = (swarms_of prefix (db w))(h := announce_spec (event r) is_seeder (peer_id r)
         (announced_addr r client_addr) (swarms_of prefix (db w) h))"
    using update_peer_list_effect [OF assms(1,2,4)] by blast
  note lists = update_peer_list_lists [OF assms(1,2,4) 1(1)]
  have w1: "store_inv w1" "memory_available w1" "rand_below_max w1"
    using 1(2,3) same_env_keeps [of w w1] assms(1-3) by (auto simp: becomes_def)
  have "card (dom (swarm (db w1) prefix h b)) < 2 ^ 22" for b
    using swarms_of_size [OF assms(4) 1(4) _ size, of b] assms(1) by simp
  then obtain w2 peers where 2: "collect_peers api redis config h ?want is_seeder w1 = Inr ((peers, length peers), w2)"
      "becomes w1 (db w1) w2" "answer_peers (swarm (db w1) prefix h) is_seeder (nat (sint ?want)) peers"
    using collect_peers_effect [OF w1(1) assms(5) w1(2,3) clamp_num_want_bounds(1)] by blast
  have w2: "idle w2" "db w2 = db w1" "db_ok prefix (db w2)" using 2(2) 1(3) by (auto simp: becomes_def)
  obtain w3 where 3: "bt_get_torrent_stats api redis config h w2 =
      Inr (\<lparr>st_seeders = of_nat (card (dom (swarm (db w1) prefix h True))),
            st_downloads = word_of_int (downloads_of (db w1) prefix h),
            st_leechers = of_nat (card (dom (swarm (db w1) prefix h False)))\<rparr>, w3)" "becomes w2 (db w1) w3"
    using torrent_stats_effect [OF w2(1,3) assms(4,5)] unfolding w2(2) by blast
  have "db w3 = db w1" "becomes w (db w1) w3" using 1(2) 2(2) 3(2) by (auto simp: becomes_def intro: same_env_trans)
  then show ?thesis using 1 2 3 lists by fastforce
qed

lemma handle_announce_accepted:
  assumes "store_inv w" "memory_available w" "rand_below_max w"
    "list_ok (db w) (whitelist_key prefix)" "list_ok (db w) (blacklist_key prefix)"
    "action request = BT_ACTION_ANNOUNCE" "request_accepted prefix (db w) request buflen"
    "bt_read_announce_request_data buff = Inr r" "length (info_hash r) = 20"
    and ok: "\<not> refused config (db w) prefix (hex (info_hash r))"
    and size: "\<And>b. card (dom (swarm (db w) prefix (hex (info_hash r)) b)) < 2 ^ 22 - 1"
  shows "\<exists>peers w'. let h = hex (info_hash r); is_seeder = (left r = 0) in
    bt_handle_announce api request config buff buflen client_addr redis w =
      Inr (Some \<lparr>resp_length = 20 + 6 * length peers,
        resp_data = map Some (announce_answer config prefix request (db w') h peers)\<rparr>, w') \<and>
    becomes w (db w') w' \<and> db_ok prefix (db w') \<and> refused config (db w') prefix = refused config (db w) prefix \<and>
    swarms_of prefix (db w') = (swarms_of prefix (db w))(h := announce_spec (event r) is_seeder (peer_id r)
       (announced_addr r client_addr) (swarms_of prefix (db w) h)) \<and>
    answer_peers (swarm (db w') prefix h) is_seeder (nat (sint (clamp_num_want config (num_want r)))) peers"
proof -
  let ?h = "hex (info_hash r)"
  have h: "length ?h = 40" "glob_free ?h" using assms(9) hex_text by auto
  obtain w0 w1 w2 hexarray where head: "becomes w (db w) w0"
      "bt_valid_request api redis config request buflen w = Inr (True, w1)"
      "bt_bytearray_to_hexarray (info_hash r) 20 w1 = Inr (hexarray, w2)" "c_str hexarray = ?h"
      "bt_info_hash_blacklisted api redis config ?h w2 = Inr (False, w0)"
    using handle_announce_head [OF _ assms(2,4-9)] assms(1) ok by auto
  have w0: "store_inv w0" "memory_available w0" "rand_below_max w0" "db w0 = db w"
    using head(1) same_env_keeps [of w w0] assms(1-3) by (auto simp: becomes_def)
  note body = announce_body [OF w0(1-3) h size [folded w0(4)], of r client_addr "left r = 0" "num_want r"]
  obtain w3 w4 w5 peers where b: "bt_update_peer_list api redis config r client_addr ?h (left r = 0) w0 = Inr w3"
      "collect_peers api redis config ?h (clamp_num_want config (num_want r)) (left r = 0) w3 = Inr ((peers, length peers), w4)"
      "bt_get_torrent_stats api redis config ?h w4 =
        Inr (\<lparr>st_seeders = of_nat (card (dom (swarm (db w5) prefix ?h True))),
              st_downloads = word_of_int (downloads_of (db w5) prefix ?h),
              st_leechers = of_nat (card (dom (swarm (db w5) prefix ?h False)))\<rparr>, w5)"
      "becomes w0 (db w5) w5"
    and post: "db_ok prefix (db w5)" "refused config (db w5) prefix = refused config (db w) prefix" "swarms_of prefix (db w5) = (swarms_of prefix (db w))(?h :=
         announce_spec (event r) (left r = 0) (peer_id r) (announced_addr r client_addr) (swarms_of prefix (db w) ?h))"
      "answer_peers (swarm (db w5) prefix ?h) (left r = 0) (nat (sint (clamp_num_want config (num_want r)))) peers"
    using body unfolding w0(4) by (elim exE conjE)
  have mem: "memory_available w5" using b(4) w0(2) same_env_keeps(1) [of w0 w5] by (auto simp: becomes_def)
  let ?w' = "w5\<lparr>malloc_pos := malloc_pos w5 + 2\<rparr>"
  have db: "db ?w' = db w5" "becomes w (db w5) ?w'"
    using becomes_trans [OF head(1) b(4)] by (auto simp: becomes_def)
  have "bt_handle_announce api request config buff buflen client_addr redis w =
      Inr (Some \<lparr>resp_length = 20 + 6 * length peers,
        resp_data = map Some (announce_answer config prefix request (db w5) ?h peers)\<rparr>, ?w')"
    using bt_serialize_announce_response_eq [OF mem]
    by (simp add: bt_handle_announce_def Let_def head assms(8) b(1-3) announce_answer_def)
  then show ?thesis
    unfolding Let_def using db post by (intro exI [of _ peers] exI [of _ ?w']) simp
qed

end

text \<open>Every announce is handled without a fault, and the answer is bounded.\<close>

context tracker_store
begin

lemma handle_announce_total:
  assumes "store_inv w" "memory_available w" "rand_below_max w" "98 \<le> length buff"
    "action request = BT_ACTION_ANNOUNCE"
    and size: "\<And>h b. card (dom (swarm (db w) prefix h b)) < 2 ^ 22 - 1"
  shows "\<exists>resp w'. bt_handle_announce api request config buff buflen client_addr redis w = Inr (resp, w') \<and>
    becomes w (db w') w' \<and> db_ok prefix (db w') \<and>
    (\<forall>r. resp = Some r \<longrightarrow> length (resp_data r) \<le> max 125 (20 + 6 * unat (announce_max_numwant config)))"
proof -
  obtain r where r: "bt_read_announce_request_data buff = Inr r" "length (info_hash r) = 20"
    using bt_read_announce_request_data_total [OF assms(4)] by blast
  have inv: "idle w" "db_ok prefix (db w)" using assms(1) by blast+
  note lists = db_ok_lists [OF inv(2)]
  consider (ignored) "\<not> request_accepted prefix (db w) request buflen"
    | (refused) "request_accepted prefix (db w) request buflen" "refused config (db w) prefix (hex (info_hash r))"
    | (accepted) "request_accepted prefix (db w) request buflen" "\<not> refused config (db w) prefix (hex (info_hash r))"
    by blast
  then show ?thesis
  proof cases
    case ignored
    then show ?thesis
      using valid_request_effect [OF inv(1), of request buflen] inv(2)
      by (auto simp: bt_handle_announce_def becomes_def)
  next
    case refused
    then show ?thesis
      using handle_announce_refused [OF inv(1) assms(2) lists(1,2) assms(5) refused(1) r refused(2), of client_addr] inv(2)
      by (auto simp: becomes_def encode_error_response_def)
  next
    case accepted
    obtain peers w' where acc: "bt_handle_announce api request config buff buflen client_addr redis w =
        Inr (Some \<lparr>resp_length = 20 + 6 * length peers,
          resp_data = map Some (announce_answer config prefix request (db w') (hex (info_hash r)) peers)\<rparr>, w')"
        "becomes w (db w') w'" "db_ok prefix (db w')"
        "answer_peers (swarm (db w') prefix (hex (info_hash r))) (left r = 0)
          (nat (sint (clamp_num_want config (num_want r)))) peers"
      using handle_announce_accepted [OF assms(1-3) lists(1,2) assms(5) accepted(1) r accepted(2) size, of client_addr]
      unfolding Let_def by blast
    have "length peers \<le> unat (announce_max_numwant config)"
      unfolding unat_eq_nat_uint answer_peers_length [OF acc(4)]
      by (rule order_trans [OF min.cobounded1 nat_mono [OF clamp_num_want_bounds(2)]])
    then show ?thesis using acc by (intro exI [of _ w'] exI) (auto simp: announce_answer_def)
  qed
qed

end

section \<open>Properties\<close>

text \<open>
  C1. An announce is answered by the BEP 15 encoding of its transaction identifier, the configured
  interval, the numbers of leechers and seeders after the announce, and a list of peers: distinct
  peers of the other role first, then of the client's own, as many as there are up to the number
  wanted, which the configuration bounds. The swarm of the torrent changes as the event says, no
  other swarm changes, and the invariant of the database is kept.
\<close>

theorem bt_handle_announce_correct:
  assumes "tracker_store api view pending config prefix" "pending redis (server w) = []"
    "db_ok prefix (view redis (server w))" "memory_available w" "rand_below_max w"
    "length (info_hash r) = 20" "length (peer_id r) = 20" "action r = BT_ACTION_ANNOUNCE" "20 \<le> buflen"
    "\<not> refused config (view redis (server w)) prefix (hex (info_hash r))"
    "\<forall>b. card (dom (swarm (view redis (server w)) prefix (hex (info_hash r)) b)) < 2 ^ 22 - 1"
  shows "\<exists>peers w'.
    bt_handle_announce api (bt_req_t.truncate r) config (encode_announce_request r @ rest) buflen client_addr redis w =
      Inr (Some \<lparr>resp_length = 20 + 6 * length peers, resp_data = map Some (encode_announce_response
        \<lparr>resp_action = BT_ACTION_ANNOUNCE, resp_transaction_id = transaction_id r,
         interval = announce_wait_time config,
         leechers = of_nat (card (dom (swarm (view redis (server w')) prefix (hex (info_hash r)) False))),
         seeders = of_nat (card (dom (swarm (view redis (server w')) prefix (hex (info_hash r)) True)))\<rparr> peers)\<rparr>, w') \<and>
    pending redis (server w') = [] \<and> db_ok prefix (view redis (server w')) \<and>
    swarms_of prefix (view redis (server w')) = (swarms_of prefix (view redis (server w)))
      (hex (info_hash r) := announce_spec (event r) (left r = 0) (peer_id r) (announced_addr r client_addr)
         (swarms_of prefix (view redis (server w)) (hex (info_hash r)))) \<and>
    answer_peers (swarm (view redis (server w')) prefix (hex (info_hash r))) (left r = 0)
      (nat (sint (clamp_num_want config (num_want r)))) peers \<and>
    length peers \<le> unat (announce_max_numwant config)"
proof -
  have acc: "action (bt_req_t.truncate r) = BT_ACTION_ANNOUNCE"
      "request_accepted prefix (view redis (server w)) (bt_req_t.truncate r) buflen"
      "transaction_id (bt_req_t.truncate r) = transaction_id r"
    using assms(8,9) db_ok_lists(3) [OF assms(3)] by (auto simp: request_accepted_def bt_req_t.truncate_def)
  have rd: "bt_read_announce_request_data (encode_announce_request r @ rest) = Inr r"
    using announce_request_decoded [OF assms(6,7)] by blast
  obtain peers w' where w': "bt_handle_announce api (bt_req_t.truncate r) config (encode_announce_request r @ rest)
        buflen client_addr redis w = Inr (Some \<lparr>resp_length = 20 + 6 * length peers, resp_data = map Some
          (announce_answer config prefix (bt_req_t.truncate r) (view redis (server w')) (hex (info_hash r)) peers)\<rparr>, w')"
      "tracker_store.becomes view pending redis w (view redis (server w')) w'" "db_ok prefix (view redis (server w'))"
      "swarms_of prefix (view redis (server w')) = (swarms_of prefix (view redis (server w)))
        (hex (info_hash r) := announce_spec (event r) (left r = 0) (peer_id r) (announced_addr r client_addr)
         (swarms_of prefix (view redis (server w)) (hex (info_hash r))))"
      "answer_peers (swarm (view redis (server w')) prefix (hex (info_hash r))) (left r = 0)
         (nat (sint (clamp_num_want config (num_want r)))) peers"
    using tracker_store.handle_announce_accepted [OF assms(1) _ assms(4,5) db_ok_lists(1,2) [OF assms(3)]
        acc(1,2) rd assms(6,10)] assms(2,3,11)
    unfolding Let_def by blast
  moreover have "length peers \<le> unat (announce_max_numwant config)"
    unfolding unat_eq_nat_uint answer_peers_length [OF w'(5)]
    by (rule order_trans [OF min.cobounded1 nat_mono [OF clamp_num_want_bounds(2)]])
  ultimately show ?thesis
    unfolding announce_answer_def acc(1,3) tracker_store.becomes_def [OF assms(1)] by blast
qed

lemma example_announce_simps [simp]:
  "info_hash example_announce = replicate 20 0xA5" "peer_id example_announce = replicate 20 0x2D"
  "action example_announce = BT_ACTION_ANNOUNCE" "transaction_id example_announce = 77"
  "event example_announce = BT_EVENT_STARTED" "left example_announce = 1000" "num_want example_announce = -1"
  by (simp_all add: example_announce_def)

theorem bt_handle_announce_correct_witness:
  "\<exists>peers w'. bt_handle_announce ref_api (bt_req_t.truncate example_announce) test_config
       (encode_announce_request example_announce @ replicate 1398 0) 98 \<lparr>sin_port = 0, s_addr = 0x0100007F\<rparr> 0
       (quiet_world ref_empty) =
     Inr (Some \<lparr>resp_length = 26, resp_data = map Some (encode_announce_response
        \<lparr>resp_action = BT_ACTION_ANNOUNCE, resp_transaction_id = 77, interval = 1800, leechers = 1, seeders = 0\<rparr> peers)\<rparr>, w') \<and>
     length peers = 1"
proof -
  let ?p = "str ''bttracker''" and ?h = "hex (replicate 20 0xA5)" and ?pid = "replicate 20 0x2D :: bytes"
    and ?from = "\<lparr>sin_port = 0, s_addr = 0x0100007F\<rparr>"
  have "\<not> refused test_config (ref_view 0 (server (quiet_world ref_empty))) ?p ?h"
    by (simp add: refused_def test_config_def)
  then obtain peers w' where w': "bt_handle_announce ref_api (bt_req_t.truncate example_announce) test_config
       (encode_announce_request example_announce @ replicate 1398 0) 98 ?from 0 (quiet_world ref_empty) =
     Inr (Some \<lparr>resp_length = 20 + 6 * length peers, resp_data = map Some (encode_announce_response
        \<lparr>resp_action = BT_ACTION_ANNOUNCE, resp_transaction_id = 77, interval = announce_wait_time test_config,
         leechers = of_nat (card (dom (swarm (ref_view 0 (server w')) ?p ?h False))),
         seeders = of_nat (card (dom (swarm (ref_view 0 (server w')) ?p ?h True)))\<rparr> peers)\<rparr>, w')"
     "swarms_of ?p (ref_view 0 (server w')) = (swarms_of ?p Map.empty) (?h := announce_spec BT_EVENT_STARTED False ?pid
        (announced_addr example_announce ?from) (swarms_of ?p Map.empty ?h))"
     "answer_peers (swarm (ref_view 0 (server w')) ?p ?h) False
        (nat (sint (clamp_num_want test_config (num_want example_announce)))) peers"
    using bt_handle_announce_correct [OF ref_tracker, of 0 "quiet_world ref_empty" example_announce 98 "replicate 1398 0" ?from]
    by auto
  have sw: "swarm (ref_view 0 (server w')) ?p ?h b = (if b then Map.empty else [?pid \<mapsto> announced_addr example_announce ?from])" for b
    using arg_cong [OF fun_cong [OF w'(2), of ?h], of sw_peers]
    by (simp add: swarms_of_def announce_spec_def add_peer_def fun_eq_iff)
  have "nat (sint (clamp_num_want test_config (num_want example_announce))) = 80"
    by (simp add: clamp_num_want_def test_config_def)
  then have "length peers = 1" using answer_peers_length [OF w'(3)] by (simp add: sw)
  then show ?thesis using w'(1) by (auto simp: sw test_config_def)
qed

text \<open>
  C17. An announce for an info hash the restriction refuses is answered by the error response
  \<open>Blacklisted info hash\<close> with the transaction identifier of the request, and the database is left as
  it was.
\<close>

theorem bt_handle_announce_refused:
  assumes "tracker_store api view pending config prefix" "pending redis (server w) = []"
    "db_ok prefix (view redis (server w))" "memory_available w"
    "length (info_hash r) = 20" "length (peer_id r) = 20" "action r = BT_ACTION_ANNOUNCE" "20 \<le> buflen"
    "refused config (view redis (server w)) prefix (hex (info_hash r))"
  shows "\<exists>resp w'. bt_handle_announce api (bt_req_t.truncate r) config (encode_announce_request r @ rest) buflen
      client_addr redis w = Inr (Some resp, w') \<and>
    take 30 (resp_data resp) =
      map Some (encode_error_response (transaction_id r) (str ''Blacklisted info hash'')) \<and>
    pending redis (server w') = [] \<and> view redis (server w') = view redis (server w)"
proof -
  have acc: "action (bt_req_t.truncate r) = BT_ACTION_ANNOUNCE"
      "request_accepted prefix (view redis (server w)) (bt_req_t.truncate r) buflen"
      "transaction_id (bt_req_t.truncate r) = transaction_id r"
    using assms(7,8) db_ok_lists(3) [OF assms(3)] by (auto simp: request_accepted_def bt_req_t.truncate_def)
  have rd: "bt_read_announce_request_data (encode_announce_request r @ rest) = Inr r"
    using announce_request_decoded [OF assms(5,6)] by blast
  show ?thesis
    using tracker_store.handle_announce_refused [OF assms(1,2,4) db_ok_lists(1,2) [OF assms(3)]
        acc(1,2) rd assms(5,9), of client_addr]
    unfolding tracker_store.becomes_def [OF assms(1)] acc(3)
    by (auto simp: encode_error_response_def)
qed

theorem bt_handle_announce_refused_witness:
  "\<exists>resp w'. bt_handle_announce ref_api (bt_req_t.truncate example_announce)
       (test_config\<lparr>info_hash_restriction := BT_RESTRICTION_WHITELIST\<rparr>)
       (encode_announce_request example_announce @ replicate 1398 0) 98 \<lparr>sin_port = 0, s_addr = 0x0100007F\<rparr> 0
       (quiet_world ref_empty) = Inr (Some resp, w') \<and>
     take 30 (resp_data resp) = map Some (encode_error_response 77 (str ''Blacklisted info hash''))"
proof -
  let ?config = "test_config\<lparr>info_hash_restriction := BT_RESTRICTION_WHITELIST\<rparr>" and ?p = "str ''bttracker''"
  have "tracker_store ref_api ref_view ref_pending ?config ?p"
    by (rule ref_tracker_config) (simp_all add: test_config_def str_simps)
  moreover have "refused ?config (ref_view 0 (server (quiet_world ref_empty))) ?p (hex (replicate 20 0xA5))"
    by (simp add: refused_def listed_def)
  ultimately show ?thesis
    using bt_handle_announce_refused [of ref_api ref_view ref_pending ?config ?p 0 "quiet_world ref_empty"
        example_announce 98 "replicate 1398 0" "\<lparr>sin_port = 0, s_addr = 0x0100007F\<rparr>"]
    by auto
qed

text \<open>
  C2. Any sequence of announces, of any peers for any torrents, leaves exactly the swarms that its
  abstract specification computes, and keeps the invariant of the database. (Refinement.)
\<close>

theorem announces_refine_swarms:
  assumes "tracker_store api view pending config prefix" "pending redis (server w) = []"
    "db_ok prefix (view redis (server w))" "memory_available w"
    "\<forall>(r, client_addr) \<in> set rs. length (info_hash r) = 20"
  shows "\<exists>w'. run_all (\<lambda>(r, client_addr). bt_update_peer_list api redis config r client_addr
      (hex (info_hash r)) (left r = 0)) rs w = Inr w' \<and>
    pending redis (server w') = [] \<and> db_ok prefix (view redis (server w')) \<and>
    swarms_of prefix (view redis (server w')) =
      fold (\<lambda>(r, client_addr) sw. sw(hex (info_hash r) := announce_spec (event r) (left r = 0) (peer_id r)
        (announced_addr r client_addr) (sw (hex (info_hash r))))) rs (swarms_of prefix (view redis (server w)))"
  using tracker_store.announces_refine [OF assms(1), of redis w rs] assms(2-5) by blast

theorem announces_refine_swarms_witness:
  "\<exists>w'. run_all (\<lambda>(r, client_addr). bt_update_peer_list ref_api 0 test_config r client_addr
      (hex (info_hash r)) (left r = 0))
      [(example_announce, \<lparr>sin_port = 0, s_addr = 1\<rparr>),
       (example_announce\<lparr>event := BT_EVENT_STOPPED\<rparr>, \<lparr>sin_port = 0, s_addr = 1\<rparr>)] (quiet_world ref_empty) = Inr w' \<and>
    swarm (ref_view 0 (server w')) (str ''bttracker'') (hex (replicate 20 0xA5)) False = Map.empty"
proof -
  let ?rs = "[(example_announce, \<lparr>sin_port = 0, s_addr = 1\<rparr>),
       (example_announce\<lparr>event := BT_EVENT_STOPPED\<rparr>, \<lparr>sin_port = 0, s_addr = 1\<rparr>)]"
    and ?p = "str ''bttracker''" and ?h = "hex (replicate 20 0xA5)"
  let ?spec = "\<lambda>(r, client_addr) sw. sw(hex (info_hash r) := announce_spec (event r) (left r = 0) (peer_id r)
        (announced_addr r client_addr) (sw (hex (info_hash r))))"
  obtain w' where w': "run_all (\<lambda>(r, client_addr). bt_update_peer_list ref_api 0 test_config r client_addr
      (hex (info_hash r)) (left r = 0)) ?rs (quiet_world ref_empty) = Inr w'"
    "swarms_of ?p (ref_view 0 (server w')) = fold ?spec ?rs (swarms_of ?p Map.empty)"
    using announces_refine_swarms [OF ref_tracker, of 0 "quiet_world ref_empty" ?rs] by auto
  have "swarm (ref_view 0 (server w')) ?p ?h False = sw_peers (fold ?spec ?rs (swarms_of ?p Map.empty) ?h) False"
    unfolding w'(2) [symmetric] by (simp add: swarms_of_def)
  also have "\<dots> = Map.empty"
    by (simp add: announce_spec_def add_peer_def drop_peer_def swarms_of_def fun_eq_iff)
  finally show ?thesis using w'(1) by blast
qed

text \<open>No peer is both a seeder and a leecher.\<close>

definition one_role :: "swarm_state \<Rightarrow> bool" where
  "one_role s \<longleftrightarrow> dom (sw_peers s True) \<inter> dom (sw_peers s False) = {}"

text \<open>
  C22. A peer is listed in at most one role as long as it changes from leecher to seeder by the event
  \<open>COMPLETED\<close>: an announce keeps this property when a peer that announces itself in a role is not
  listed in the other.
\<close>

theorem announce_keeps_one_role:
  assumes "tracker_store api view pending config prefix" "pending redis (server w) = []"
    "db_ok prefix (view redis (server w))" "memory_available w" "length h = 40"
    "one_role (swarms_of prefix (view redis (server w)) h)"
    "event r = BT_EVENT_NONE \<or> event r = BT_EVENT_STARTED \<Longrightarrow>
       peer_id r \<notin> dom (swarm (view redis (server w)) prefix h (left r \<noteq> 0))"
  shows "\<exists>w'. bt_update_peer_list api redis config r client_addr h (left r = 0) w = Inr w' \<and>
    one_role (swarms_of prefix (view redis (server w')) h)"
proof -
  obtain w' where w': "bt_update_peer_list api redis config r client_addr h (left r = 0) w = Inr w'"
    "swarms_of prefix (view redis (server w')) h = announce_spec (event r) (left r = 0) (peer_id r)
      (announced_addr r client_addr) (swarms_of prefix (view redis (server w)) h)"
    using tracker_store.update_peer_list_effect [OF assms(1) _ assms(4,5), of redis r client_addr "left r = 0"]
      assms(2,3) by auto
  have "sw_peers (swarms_of prefix (view redis (server w)) h) = swarm (view redis (server w)) prefix h"
    using assms(5) by (simp add: swarms_of_def)
  then have "one_role (announce_spec (event r) (left r = 0) (peer_id r)
      (announced_addr r client_addr) (swarms_of prefix (view redis (server w)) h))"
    using assms(6,7)
    by (cases "left r = 0")
      (auto simp: one_role_def announce_spec_def add_peer_def drop_peer_def complete_peer_def split: option.splits)
  then show ?thesis using w' by auto
qed

theorem announce_keeps_one_role_witness:
  "\<exists>w'. bt_update_peer_list ref_api 0 test_config example_announce \<lparr>sin_port = 0, s_addr = 1\<rparr> example_hash
      False (quiet_world ref_empty) = Inr w' \<and>
    one_role (swarms_of (str ''bttracker'') (ref_view 0 (server w')) example_hash)"
proof -
  have "one_role (swarms_of (str ''bttracker'') Map.empty example_hash)"
    by (simp add: one_role_def swarms_of_def)
  then show ?thesis
    using announce_keeps_one_role [OF ref_tracker, of 0 "quiet_world ref_empty" example_hash example_announce
        "\<lparr>sin_port = 0, s_addr = 1\<rparr>"] by simp
qed

text \<open>
  C36. A leecher that announces \<open>left = 0\<close> with the event \<open>NONE\<close> or \<open>STARTED\<close> is added to the seeders and
  stays among the leechers: until its old entry expires it is counted, and handed out, in both roles.
\<close>

theorem peer_in_both_roles:
  assumes "tracker_store api view pending config prefix" "pending redis (server w) = []"
    "db_ok prefix (view redis (server w))" "memory_available w" "length h = 40"
    "peer_id r \<in> dom (swarm (view redis (server w)) prefix h False)"
    "event r = BT_EVENT_NONE \<or> event r = BT_EVENT_STARTED" "left r = 0"
  shows "\<exists>w'. bt_update_peer_list api redis config r client_addr h True w = Inr w' \<and>
    peer_id r \<in> dom (swarm (view redis (server w')) prefix h True) \<and>
    peer_id r \<in> dom (swarm (view redis (server w')) prefix h False)"
proof -
  obtain w' where w': "bt_update_peer_list api redis config r client_addr h True w = Inr w'"
    "swarms_of prefix (view redis (server w')) h = announce_spec (event r) True (peer_id r)
      (announced_addr r client_addr) (swarms_of prefix (view redis (server w)) h)"
    using tracker_store.update_peer_list_effect [OF assms(1) _ assms(4,5), of redis r client_addr True]
      assms(2,3) by auto
  have "swarm (view redis (server w')) prefix h b = sw_peers (announce_spec (event r) True (peer_id r)
      (announced_addr r client_addr) (swarms_of prefix (view redis (server w)) h)) b" for b
    using arg_cong [OF w'(2), of sw_peers] assms(5) by (simp add: swarms_of_def)
  then show ?thesis
    using w'(1) assms(5-7) by (auto simp: announce_spec_def add_peer_def swarms_of_def)
qed

theorem peer_in_both_roles_witness:
  "\<exists>w w'. bt_update_peer_list ref_api 0 test_config example_announce \<lparr>sin_port = 0, s_addr = 1\<rparr> example_hash
      False (quiet_world ref_empty) = Inr w \<and>
    bt_update_peer_list ref_api 0 test_config (example_announce\<lparr>event := BT_EVENT_NONE, left := 0\<rparr>)
      \<lparr>sin_port = 0, s_addr = 1\<rparr> example_hash True w = Inr w' \<and>
    replicate 20 0x2D \<in> dom (swarm (ref_view 0 (server w')) (str ''bttracker'') example_hash True) \<and>
    replicate 20 0x2D \<in> dom (swarm (ref_view 0 (server w')) (str ''bttracker'') example_hash False)"
proof -
  let ?p = "str ''bttracker''" and ?from = "\<lparr>sin_port = 0, s_addr = 1\<rparr>"
  obtain w where w: "bt_update_peer_list ref_api 0 test_config example_announce ?from example_hash False
      (quiet_world ref_empty) = Inr w"
      "ref_store.becomes (quiet_world ref_empty) (ref_view 0 (server w)) w" "db_ok ?p (ref_view 0 (server w))"
      "swarms_of ?p (ref_view 0 (server w)) example_hash = announce_spec BT_EVENT_STARTED False (replicate 20 0x2D)
        (announced_addr example_announce ?from) (swarms_of ?p Map.empty example_hash)"
    using ref_store.update_peer_list_effect [of "quiet_world ref_empty" example_hash example_announce ?from False] by auto
  have "replicate 20 0x2D \<in> dom (swarm (ref_view 0 (server w)) ?p example_hash False)"
    using arg_cong [OF w(4), of sw_peers] by (simp add: swarms_of_def announce_spec_def add_peer_def)
  moreover have "ref_pending 0 (server w) = []" "memory_available w"
    using w(2) same_env_keeps(1) [of "quiet_world ref_empty" w] by (auto simp: ref_store.becomes_def)
  ultimately show ?thesis
    using peer_in_both_roles [OF ref_tracker, of 0 w example_hash "example_announce\<lparr>event := BT_EVENT_NONE, left := 0\<rparr>" ?from]
      w(1,3) by auto
qed

end
