(* ===== verification/Bt_Scrape.thy ===== *)
theory Bt_Scrape
  imports Bt_Handshake Bt_Error
begin

text \<open>\<open>scrape.c\<close>: the answer to a scrape request.\<close>

declare str_simps [simp del]

definition bt_serialize_scrape_response ::
    "bt_scrape_resp_t \<Rightarrow> 's world \<Rightarrow> (bt_response_buffer_t \<times> 's world) result" where
  "bt_serialize_scrape_response response_data w =
     (let num_entries = length (scrape_entries response_data);
          len = 8 + num_entries * 12
      in bindE (malloc_or_exit sizeof_bt_response_buffer_t w) (\<lambda>(_, w).
         bindE (malloc_or_exit len w) (\<lambda>(dat, w).
         bindE (bt_write_scrape_response_data dat response_data) (\<lambda>(dat, _).
         Inr (\<lparr>resp_length = len, resp_data = dat\<rparr>, w)))))"

text \<open>
  The loop over the info hashes from index \<open>i\<close> on. It either returns an error response early or the
  entries, latest first. The counter of the C code is a \<open>uint8_t\<close>; it does not wrap around, because
  the block of info hashes ends at index 8 and reading behind it is out of bounds.
\<close>

function scrape_loop :: "('c, 's) hiredis_api \<Rightarrow> bt_req_t \<Rightarrow> bt_config_t \<Rightarrow> bt_scrape_req_t \<Rightarrow> 'c \<Rightarrow> nat \<Rightarrow>
    bt_torrent_stats_t list \<Rightarrow> 's world \<Rightarrow>
    ((bt_response_buffer_t + bt_torrent_stats_t list) \<times> 's world) result" where
  "scrape_loop api request config scrape_request redis i entries w =
     (if i < unat (info_hash_len scrape_request) then
        bindE (read_block (scrape_info_hash scrape_request) (i * 20) 20) (\<lambda>ih.
        bindE (bt_bytearray_to_hexarray ih 20 w) (\<lambda>(hexarray, w).
        let info_hash_str = c_str hexarray
        in bindE (bt_info_hash_blacklisted api redis config info_hash_str w) (\<lambda>(blacklisted, w).
           if blacklisted then
             bindE (bt_send_error request (Some (str ''Blacklisted info hash'')) w) (\<lambda>(resp, w).
             Inr (Inl resp, w))
           else
             bindE (malloc_unchecked sizeof_bt_torrent_stats_t w) (\<lambda>(_, w).
             bindE (bt_get_torrent_stats api redis config info_hash_str w) (\<lambda>(stats, w).
             scrape_loop api request config scrape_request redis (i + 1) (stats # entries) w)))))
      else Inr (Inr entries, w))"
  by pat_completeness auto
termination
  by (relation "measure (\<lambda>(_, _, _, req, _, i, _, _). unat (info_hash_len req) - i)") auto

declare scrape_loop.simps [simp del]

definition bt_handle_scrape :: "('c, 's) hiredis_api \<Rightarrow> bt_req_t \<Rightarrow> bt_config_t \<Rightarrow> bytes \<Rightarrow> 64 word \<Rightarrow> 'c \<Rightarrow>
    's world \<Rightarrow> (bt_response_buffer_t option \<times> 's world) result" where
  "bt_handle_scrape api request config buff buflen redis w =
     bindE (bt_valid_request api redis config request buflen w) (\<lambda>(valid, w).
     if \<not> valid then Inr (None, w)
     else
       bindE (bt_read_scrape_request_data buff buflen) (\<lambda>scrape_request.
       bindE (scrape_loop api request config scrape_request redis 0 [] w) (\<lambda>(outcome, w).
       case outcome of
         Inl resp \<Rightarrow> Inr (Some resp, w)
       | Inr entries \<Rightarrow>
           let response_header = \<lparr>resp_action = action request,
                 resp_transaction_id = transaction_id request, scrape_entries = rev entries\<rparr>
           in bindE (bt_serialize_scrape_response response_header w) (\<lambda>(resp, w). Inr (Some resp, w)))))"

section \<open>Reading the request\<close>

text \<open>The info hashes of a scrape request: the blocks of 20 bytes behind the header.\<close>

definition scrape_hashes :: "bytes \<Rightarrow> nat \<Rightarrow> bytes list" where
  "scrape_hashes buff n = map (\<lambda>i. take 20 (drop (16 + 20 * i) buff)) [0..<n]"

lemma scrape_hashes_simps [simp]:
  "length (scrape_hashes buff n) = n"
  "i < n \<Longrightarrow> scrape_hashes buff n ! i = take 20 (drop (16 + 20 * i) buff)"
  by (simp_all add: scrape_hashes_def)

lemma unat_sub_16: "16 \<le> buflen \<Longrightarrow> unat (buflen - 16 :: 64 word) = unat buflen - 16"
  by (simp add: unat_sub)

lemma bt_read_scrape_request_data_ok:
  assumes "16 \<le> buflen" "buflen \<le> 176" "176 \<le> length buff"
  shows "\<exists>r. bt_read_scrape_request_data buff buflen = Inr r \<and>
    unat (info_hash_len r) = (unat buflen - 16) div 20 \<and>
    (\<forall>i < (unat buflen - 16) div 20. read_block (scrape_info_hash r) (i * 20) 20 = Inr (take 20 (drop (16 + 20 * i) buff)))"
proof -
  have len: "unat buflen \<le> 176" "16 \<le> unat buflen" using assms(1,2) by (simp_all add: word_le_nat_alt)
  let ?n = "unat buflen - 16" and ?hashes = "take (unat buflen - 16) (drop 16 buff)"
  have n: "unat (buflen - 16) = ?n" using assms(1) by (rule unat_sub_16)
  have 1: "read_bytes buff 16 ?n = Inr ?hashes" using len assms(3) by (simp add: read_bytes_def)
  have 2: "memcpy_to (replicate 160 None) 0 ?hashes = Inr (map Some ?hashes @ replicate (160 - ?n) None)"
    using len assms(3) by (simp add: memcpy_to_front)
  have blocks: "read_block (map Some ?hashes @ replicate (160 - ?n) None) (i * 20) 20 =
      Inr (take 20 (drop (16 + 20 * i) buff))" if "i < ?n div 20" for i
  proof -
    have i: "i * 20 + 20 \<le> ?n" using that by linarith
    then have "read_block (map Some ?hashes @ replicate (160 - ?n) None) (i * 20) 20 = Inr (take 20 (drop (i * 20) ?hashes))"
      using len assms(3) by (intro read_block_written) simp
    moreover have "take 20 (drop (i * 20) ?hashes) = take 20 (drop (16 + 20 * i) buff)"
      using i by (simp add: drop_take min_def mult.commute add.commute)
    ultimately show ?thesis by simp
  qed
  have "unat ((buflen - 16) div 20) = ?n div 20" by (simp add: unat_div_distrib n)
  then show ?thesis
    using 1 2 blocks assms(3)
    by (simp add: bt_read_scrape_request_data_def n scrape_info_hash_size_def load_def read_bytes_def)
qed

section \<open>The answer\<close>

definition torrent_stats :: "bytes \<Rightarrow> redis_db \<Rightarrow> bytes \<Rightarrow> bt_torrent_stats_t" where
  "torrent_stats prefix d h =
     \<lparr>st_seeders = of_nat (card (dom (swarm d prefix (hex h) True))),
      st_downloads = word_of_int (downloads_of d prefix (hex h)),
      st_leechers = of_nat (card (dom (swarm d prefix (hex h) False)))\<rparr>"

definition refusal :: "32 word \<Rightarrow> bt_response_buffer_t" where
  "refusal tid = \<lparr>resp_length = 86,
     resp_data = map Some (encode_error_response tid (str ''Blacklisted info hash'')) @ replicate 56 None\<rparr>"

lemma bt_serialize_scrape_response_eq:
  assumes "memory_available w"
  shows "bt_serialize_scrape_response resp w =
    Inr (\<lparr>resp_length = 8 + 12 * length (scrape_entries resp), resp_data = map Some (encode_scrape_response resp)\<rparr>,
         w\<lparr>malloc_pos := malloc_pos w + 2\<rparr>)"
  using bt_write_scrape_response_data_eq [of "8 + length (scrape_entries resp) * 12" resp] assms
  by (auto simp: bt_serialize_scrape_response_def Let_def)

context tracker_store
begin

abbreviation lists_ok :: "'s world \<Rightarrow> bool" where
  "lists_ok w \<equiv> list_ok (db w) (whitelist_key prefix) \<and> list_ok (db w) (blacklist_key prefix)"

text \<open>One round of the loop: the check and, if the hash is not refused, the statistics.\<close>

lemma scrape_round:
  assumes "store_inv w" "memory_available w" "lists_ok w" "length h = 20"
  shows "\<exists>w1 w2 hexarray. bt_bytearray_to_hexarray h 20 w = Inr (hexarray, w1) \<and> c_str hexarray = hex h \<and>
      bt_info_hash_blacklisted api redis config (hex h) w1 = Inr (refused config (db w) prefix (hex h), w2) \<and>
      becomes w (db w) w2 \<and> memory_available w2"
    and "\<exists>w3. bt_get_torrent_stats api redis config (hex h) w = Inr (torrent_stats prefix (db w) h, w3) \<and>
      becomes w (db w) w3"
proof -
  let ?w1 = "w\<lparr>malloc_pos := Suc (malloc_pos w)\<rparr>"
  have 1: "bt_bytearray_to_hexarray h 20 w = Inr (map Some (hex h @ [0]), ?w1)"
    by (rule bt_bytearray_to_hexarray_eq [OF assms(2,4)])
  have chars: "c_str (map Some (hex h @ [0])) = hex h"
    by (rule c_str_hex)
  have "idle ?w1" using assms(1) by simp
  then obtain w2 where 2: "bt_info_hash_blacklisted api redis config (hex h) ?w1 =
      Inr (refused config (db w) prefix (hex h), w2)" "becomes ?w1 (db w) w2"
    using blacklisted_effect [of ?w1 "hex h"] assms(3) by auto
  then have "becomes w (db w) w2" "memory_available w2"
    using assms(2) same_env_keeps(1) [of w w2] by (auto simp: becomes_def)
  then show "\<exists>w1 w2 hexarray. bt_bytearray_to_hexarray h 20 w = Inr (hexarray, w1) \<and> c_str hexarray = hex h \<and>
      bt_info_hash_blacklisted api redis config (hex h) w1 = Inr (refused config (db w) prefix (hex h), w2) \<and>
      becomes w (db w) w2 \<and> memory_available w2"
    using 1 2 chars by blast
  have "length (hex h) = 40" "glob_free (hex h)" using assms(4) hex_text by auto
  then show "\<exists>w3. bt_get_torrent_stats api redis config (hex h) w = Inr (torrent_stats prefix (db w) h, w3) \<and>
      becomes w (db w) w3"
    using torrent_stats_effect [of w "hex h"] assms(1) by (auto simp: torrent_stats_def)
qed

lemma scrape_loop_effect:
  assumes "store_inv w" "memory_available w" "lists_ok w" "i \<le> length hs"
    and req: "unat (info_hash_len req) = length hs" "\<forall>h \<in> set hs. length h = 20"
      "\<forall>j < length hs. read_block (scrape_info_hash req) (j * 20) 20 = Inr (hs ! j)"
  shows "\<exists>w'. scrape_loop api request config req redis i entries w =
      Inr (if \<exists>h \<in> set (drop i hs). refused config (db w) prefix (hex h)
           then Inl (refusal (transaction_id request))
           else Inr (rev (map (torrent_stats prefix (db w)) (drop i hs)) @ entries), w') \<and> becomes w (db w) w'"
  using assms(1-4)
proof (induction "length hs - i" arbitrary: i entries w)
  case 0
  then show ?case by (subst scrape_loop.simps) (simp add: req becomes_def)
next
  case (Suc n)
  let ?h = "hs ! i"
  have i: "i < length hs" using Suc(2) by simp
  have drop: "drop i hs = ?h # drop (Suc i) hs" using i by (rule Cons_nth_drop_Suc [symmetric])
  have h: "length ?h = 20" "read_block (scrape_info_hash req) (i * 20) 20 = Inr ?h" using req i by simp_all
  obtain w1 w2 hexarray where round: "bt_bytearray_to_hexarray ?h 20 w = Inr (hexarray, w1)" "c_str hexarray = hex ?h"
      "bt_info_hash_blacklisted api redis config (hex ?h) w1 = Inr (refused config (db w) prefix (hex ?h), w2)"
      "becomes w (db w) w2" "memory_available w2"
    using scrape_round(1) [OF Suc.prems(1-3) h(1)] by blast
  show ?case
  proof (cases "refused config (db w) prefix (hex ?h)")
    case True
    then have "scrape_loop api request config req redis i entries w =
        Inr (Inl (refusal (transaction_id request)), w2\<lparr>malloc_pos := malloc_pos w2 + 2\<rparr>)"
      using i h round by (subst scrape_loop.simps) (simp add: req refusal_def bt_send_error_eq Let_def)
    moreover have "\<exists>h \<in> set (drop i hs). refused config (db w) prefix (hex h)" using True drop by simp
    ultimately show ?thesis using round(4) by (auto simp: becomes_def)
  next
    case False
    let ?w2 = "w2\<lparr>malloc_pos := Suc (malloc_pos w2)\<rparr>"
    have w2: "store_inv ?w2" "memory_available ?w2" "lists_ok ?w2" "becomes w (db w) ?w2" "db ?w2 = db w"
      using round(4,5) Suc.prems by (auto simp: becomes_def)
    obtain w3 where 3: "bt_get_torrent_stats api redis config (hex ?h) ?w2 = Inr (torrent_stats prefix (db w) ?h, w3)"
        "becomes ?w2 (db w) w3"
      using scrape_round(2) [OF w2(1-3) h(1)] unfolding w2(5) by blast
    then have w3: "store_inv w3" "memory_available w3" "lists_ok w3" "becomes w (db w) w3" "db w3 = db w"
      using w2 Suc.prems same_env_keeps(1) [of ?w2 w3] by (auto simp: becomes_def intro: same_env_trans)
    have "scrape_loop api request config req redis i entries w =
        scrape_loop api request config req redis (Suc i) (torrent_stats prefix (db w) ?h # entries) w3"
      using False i h round 3(1) by (subst scrape_loop.simps) (simp add: req Let_def)
    moreover have "n = length hs - Suc i" "Suc i \<le> length hs" using Suc(2) i by simp_all
    ultimately show ?thesis
      using Suc.hyps(1) [of "Suc i" w3 "torrent_stats prefix (db w) ?h # entries"] w3 False drop
        becomes_trans [OF w3(4)] by auto
  qed
qed

end

section \<open>Properties\<close>

lemma handle_scrape_eq:
  assumes "tracker_store api view pending config prefix" "pending redis (server w) = []"
    "db_ok prefix (view redis (server w))" "memory_available w"
    "action request = BT_ACTION_SCRAPE"
    "16 \<le> buflen" "buflen \<le> 176" "176 \<le> length buff"
    and hs: "hs = scrape_hashes buff ((unat buflen - 16) div 20)"
  shows "\<exists>w'. bt_handle_scrape api request config buff buflen redis w =
      Inr (Some (if \<exists>h \<in> set hs. refused config (view redis (server w)) prefix (hex h)
        then refusal (transaction_id request)
        else \<lparr>resp_length = 8 + 12 * length hs, resp_data = map Some (encode_scrape_response
          \<lparr>resp_action = BT_ACTION_SCRAPE, resp_transaction_id = transaction_id request,
           scrape_entries = map (torrent_stats prefix (view redis (server w))) hs\<rparr>)\<rparr>), w') \<and>
    pending redis (server w') = [] \<and> view redis (server w') = view redis (server w) \<and> same_env w w'"
proof -
  note becomes = tracker_store.becomes_def [OF assms(1)]
  have "(8 :: 64 word) \<le> buflen" using assms(6) by (rule order_trans [rotated]) simp
  then obtain w1 where 1: "bt_valid_request api redis config request buflen w = Inr (True, w1)"
      "tracker_store.becomes view pending redis w (view redis (server w)) w1"
    using tracker_store.valid_request_effect [OF assms(1,2), of request buflen] assms(5) db_ok_lists(3) [OF assms(3)]
    by (auto simp: request_accepted_def)
  then have w1: "pending redis (server w1) = [] \<and> db_ok prefix (view redis (server w1))" "memory_available w1"
      "view redis (server w1) = view redis (server w)"
    using assms(3,4) same_env_keeps(1) [of w w1] by (auto simp: becomes)
  obtain r where r: "bt_read_scrape_request_data buff buflen = Inr r" "unat (info_hash_len r) = length hs"
      "\<forall>j < length hs. read_block (scrape_info_hash r) (j * 20) 20 = Inr (hs ! j)"
    using bt_read_scrape_request_data_ok [OF assms(6-8)] hs by auto
  have "unat buflen \<le> 176" using assms(7) by (simp add: word_le_nat_alt)
  then have "\<forall>h \<in> set hs. length h = 20" using hs assms(8) by (auto simp: scrape_hashes_def)
  then obtain w2 where 2: "scrape_loop api request config r redis 0 [] w1 =
      Inr (if \<exists>h \<in> set hs. refused config (view redis (server w)) prefix (hex h)
           then Inl (refusal (transaction_id request))
           else Inr (rev (map (torrent_stats prefix (view redis (server w))) hs)), w2)"
      "tracker_store.becomes view pending redis w1 (view redis (server w)) w2"
    using tracker_store.scrape_loop_effect [OF assms(1) w1(1,2) _ _ r(2) _ r(3), of 0 request "[]"] db_ok_lists(1,2) [OF assms(3)] w1(3)
    by auto
  then have w2: "pending redis (server w2) = []" "view redis (server w2) = view redis (server w)" "memory_available w2"
      "same_env w w2"
    using w1(2) same_env_keeps(1) [of w1 w2] 1(2) by (auto simp: becomes intro: same_env_trans)
  show ?thesis
    using w2 by (auto simp: bt_handle_scrape_def 1(1) r(1) 2(1) assms(5) Let_def bt_serialize_scrape_response_eq)
qed

text \<open>
  C9. A scrape request of one to eight info hashes is answered by the BEP 15 encoding of their
  statistics, in the order of the request; if the restriction refuses one of them, by the error
  response instead. Nothing changes in the database.
\<close>

theorem bt_handle_scrape_correct:
  assumes "tracker_store api view pending config prefix" "pending redis (server w) = []"
    "db_ok prefix (view redis (server w))" "memory_available w"
    "action request = BT_ACTION_SCRAPE"
    "16 \<le> buflen" "buflen \<le> 176" "176 \<le> length buff"
    and hs: "hs = scrape_hashes buff ((unat buflen - 16) div 20)"
  shows "\<exists>w'. bt_handle_scrape api request config buff buflen redis w =
      Inr (Some (if \<exists>h \<in> set hs. refused config (view redis (server w)) prefix (hex h)
        then refusal (transaction_id request)
        else \<lparr>resp_length = 8 + 12 * length hs, resp_data = map Some (encode_scrape_response
          \<lparr>resp_action = BT_ACTION_SCRAPE, resp_transaction_id = transaction_id request,
           scrape_entries = map (torrent_stats prefix (view redis (server w))) hs\<rparr>)\<rparr>), w') \<and>
    pending redis (server w') = [] \<and> view redis (server w') = view redis (server w)"
  using handle_scrape_eq [OF assms] by blast

theorem bt_handle_scrape_correct_witness:
  "\<exists>w'. bt_handle_scrape ref_api \<lparr>connection_id = 42, action = BT_ACTION_SCRAPE, transaction_id = 9\<rparr> test_config
      (replicate 1496 0) 56 0 (quiet_world ref_empty) =
    Inr (Some \<lparr>resp_length = 32, resp_data = map Some (encode_scrape_response
      \<lparr>resp_action = BT_ACTION_SCRAPE, resp_transaction_id = 9,
       scrape_entries = replicate 2 \<lparr>st_seeders = 0, st_downloads = 0, st_leechers = 0\<rparr>\<rparr>)\<rparr>, w')"
proof -
  let ?req = "\<lparr>connection_id = 42, action = BT_ACTION_SCRAPE, transaction_id = 9\<rparr>"
    and ?hs = "scrape_hashes (replicate 1496 0) ((unat (56 :: 64 word) - 16) div 20)"
  have "(16 :: 64 word) \<le> 56" "(56 :: 64 word) \<le> 176" by simp_all
  moreover have "(unat (56 :: 64 word) - 16) div 20 = 2" by simp
  then have hs: "length ?hs = 2" by (simp only: scrape_hashes_simps)
  moreover have "torrent_stats p Map.empty = (\<lambda>_. \<lparr>st_seeders = 0, st_downloads = 0, st_leechers = 0\<rparr>)" for p
    by (simp add: torrent_stats_def downloads_of_def fun_eq_iff)
  moreover have "map (\<lambda>_. x) ?hs = replicate 2 x" for x :: bt_torrent_stats_t
    unfolding map_replicate_const hs by (rule refl)
  moreover have "\<not> refused test_config (ref_view 0 (server (quiet_world ref_empty))) (str ''bttracker'') (hex h)" for h
    by (simp add: refused_def test_config_def)
  ultimately show ?thesis
    using bt_handle_scrape_correct [OF ref_tracker, of 0 "quiet_world ref_empty" ?req 56 "replicate 1496 0" ?hs]
    by (simp del: scrape_hashes_simps) blast
qed

text \<open>The readers run before anything is looked up, so their faults are the handler's.\<close>

lemma bt_handle_scrape_fault:
  assumes "tracker_store api view pending config prefix" "pending redis (server w) = []"
    "db_ok prefix (view redis (server w))" "action request = BT_ACTION_SCRAPE"
    "8 \<le> buflen" "bt_read_scrape_request_data buff buflen = Inl e"
  shows "bt_handle_scrape api request config buff buflen redis w = Inl e"
proof -
  obtain w1 where "bt_valid_request api redis config request buflen w = Inr (True, w1)"
    using tracker_store.valid_request_effect [OF assms(1,2), of request buflen] assms(4,5) db_ok_lists(3) [OF assms(3)]
    by (auto simp: request_accepted_def)
  then show ?thesis using assms(6) by (simp add: bt_handle_scrape_def)
qed

text \<open>
  C33. A scrape request of more than 176 bytes, that is of nine info hashes or more, makes
  \<open>bt_read_scrape_request_data\<close> write behind the 160 bytes that \<open>int8_t *info_hash[20]\<close> reserves.
\<close>

theorem bt_handle_scrape_overflows:
  assumes "tracker_store api view pending config prefix" "pending redis (server w) = []"
    "db_ok prefix (view redis (server w))" "action request = BT_ACTION_SCRAPE"
    "176 < buflen" "unat buflen \<le> length buff"
  shows "bt_handle_scrape api request config buff buflen redis w = Inl Write_Out_Of_Bounds"
proof -
  have len: "176 < unat buflen" using assms(5) by (simp add: word_less_nat_alt)
  then have n: "unat (buflen - 16) = unat buflen - 16" by (intro unat_sub_16) (simp add: word_le_nat_alt)
  let ?hashes = "take (unat buflen - 16) (drop 16 buff)"
  have "read_bytes buff 16 (unat buflen - 16) = Inr ?hashes" using len assms(6) by (simp add: read_bytes_def)
  moreover have "memcpy_to (replicate 160 None) 0 ?hashes = Inl Write_Out_Of_Bounds"
    using len assms(6) by (intro memcpy_to_overflow) simp
  ultimately have "bt_read_scrape_request_data buff buflen = Inl Write_Out_Of_Bounds"
    by (simp add: bt_read_scrape_request_data_def n scrape_info_hash_size_def)
  moreover have "8 \<le> buflen" using len by (simp add: word_le_nat_alt)
  ultimately show ?thesis using bt_handle_scrape_fault [OF assms(1-4)] by blast
qed

theorem bt_handle_scrape_overflows_witness:
  "bt_handle_scrape ref_api \<lparr>connection_id = 42, action = BT_ACTION_SCRAPE, transaction_id = 9\<rparr> test_config
      (replicate 1496 0) 196 0 (quiet_world ref_empty) = Inl Write_Out_Of_Bounds"
  using bt_handle_scrape_overflows [OF ref_tracker, of 0 "quiet_world ref_empty"
      "\<lparr>connection_id = 42, action = BT_ACTION_SCRAPE, transaction_id = 9\<rparr>" 196 "replicate 1496 0"]
  by simp

text \<open>
  C34. A scrape request of 8 to 15 bytes passes the length check of \<open>bt_valid_request\<close>; the length
  \<open>buflen - 16\<close> then wraps around to almost \<open>2\<^sup>6\<^sup>4\<close>, and the copy reads behind the receive buffer.
\<close>

theorem bt_handle_scrape_underflows:
  assumes "tracker_store api view pending config prefix" "pending redis (server w) = []"
    "db_ok prefix (view redis (server w))" "action request = BT_ACTION_SCRAPE"
    "8 \<le> buflen" "buflen < 16" "length buff = BT_RECV_BUFLEN"
  shows "bt_handle_scrape api request config buff buflen redis w = Inl Read_Out_Of_Bounds"
proof -
  have len: "unat buflen < 16" using assms(6) by (simp add: word_less_nat_alt)
  then have "2 ^ 63 < unat (buflen - 16)" by (simp add: unat_sub_if_size word_size)
  then have "bt_read_scrape_request_data buff buflen = Inl Read_Out_Of_Bounds"
    using assms(7) by (simp add: bt_read_scrape_request_data_def read_bytes_def BT_RECV_BUFLEN_def)
  then show ?thesis using bt_handle_scrape_fault [OF assms(1-5)] by blast
qed

theorem bt_handle_scrape_underflows_witness:
  "bt_handle_scrape ref_api \<lparr>connection_id = 42, action = BT_ACTION_SCRAPE, transaction_id = 9\<rparr> test_config
      (replicate 1496 0) 12 0 (quiet_world ref_empty) = Inl Read_Out_Of_Bounds"
  using bt_handle_scrape_underflows [OF ref_tracker, of 0 "quiet_world ref_empty"
      "\<lparr>connection_id = 42, action = BT_ACTION_SCRAPE, transaction_id = 9\<rparr>" 12 "replicate 1496 0"]
  by (simp add: BT_RECV_BUFLEN_def)

end
