(* ===== verification/Bt_Pool.thy ===== *)
theory Bt_Pool
  imports Bt_Connect Bt_Announce Bt_Scrape
begin

text \<open>
  \<open>pool.h\<close> and \<open>pool.c\<close>: the jobs of the thread pool and the function a worker runs on a job. A worker
  keeps its Redis connection in thread-local storage; that storage is an argument and a result of
  the functions below.
\<close>

declare str_simps [simp del]

section \<open>Jobs\<close>

text \<open>
  The member \<open>from_addr\<close> points to a variable of the main thread. It is not part of the record: the
  functions that dereference it take the address they find there.
\<close>

record bt_job_params_t =
  job_buff :: bytes
  job_buflen :: "64 word"
  job_sock :: int
  job_from_addr_len :: nat

text \<open>A datagram handed to \<open>sendto\<close>.\<close>

record datagram =
  dg_sock :: int
  dg_data :: bytes
  dg_to :: sockaddr_in

section \<open>The worker's connection\<close>

definition bt_free_redis :: "('c, 's) hiredis_api \<Rightarrow> 'c \<Rightarrow> 's world \<Rightarrow> 's world" where
  "bt_free_redis api redis w = w\<lparr>server := redisFree api redis (server w)\<rparr>"

text \<open>\<open>g_private_replace\<close> destroys the value it replaces, if there is one.\<close>

definition g_private_replace :: "('c, 's) hiredis_api \<Rightarrow> 'c option \<Rightarrow> 'c option \<Rightarrow> 's world \<Rightarrow>
    'c option \<times> 's world" where
  "g_private_replace api old new w =
     (new, case old of None \<Rightarrow> w | Some c \<Rightarrow> bt_free_redis api c w)"

definition storage_error :: bytes where
  "storage_error = str ''Tracker temporarily unavailable: data storage is not working''"

text \<open>\<open>int redis_timeout = config->redis_timeout * 1000\<close>, unsigned arithmetic on 32 bits.\<close>

definition redis_timeout_of :: "bt_config_t \<Rightarrow> int" where
  "redis_timeout_of config = sint (redis_timeout config * 1000)"

text \<open>
  The code behind the label \<open>redis_connect\<close>: the new connection, the request (its action replaced when
  there is no connection), the error message and the thread-local storage.
\<close>

definition redis_reconnect :: "('c, 's) hiredis_api \<Rightarrow> bt_config_t \<Rightarrow> 'c option \<Rightarrow> bt_req_t \<Rightarrow> 's world \<Rightarrow>
    ('c option \<times> bt_req_t \<times> bytes option \<times> 'c option) \<times> 's world" where
  "redis_reconnect api config tls request w =
     (let (redis, w) = bt_redis_connect api (redis_socket_path config) (redis_host config)
            (uint (redis_port config)) (redis_timeout_of config) (uint (redis_db config)) w;
          (request, err) = (case redis of
             None \<Rightarrow> (request\<lparr>action := BT_ACTION_ERROR\<rparr>, Some storage_error)
           | Some _ \<Rightarrow> (request, None));
          (tls, w) = g_private_replace api tls redis w
      in ((redis, request, err, tls), w))"

definition redis_acquire :: "('c, 's) hiredis_api \<Rightarrow> bt_config_t \<Rightarrow> 'c option \<Rightarrow> bt_req_t \<Rightarrow> 's world \<Rightarrow>
    ('c option \<times> bt_req_t \<times> bytes option \<times> 'c option) \<times> 's world" where
  "redis_acquire api config tls request w =
     (case tls of
        None \<Rightarrow> redis_reconnect api config tls request w
      | Some redis \<Rightarrow>
          let (ok, w) = bt_redis_ping api redis w
          in if \<not> ok then redis_reconnect api config tls request w
             else ((Some redis, request, None, tls), w))"

section \<open>Dispatch\<close>

text \<open>
  The \<open>switch\<close>. The handlers receive the connection as a pointer and pass it to hiredis, which
  dereferences it.
\<close>

definition dispatch :: "('c, 's) hiredis_api \<Rightarrow> bt_config_t \<Rightarrow> bt_job_params_t \<Rightarrow> sockaddr_in \<Rightarrow>
    'c option \<Rightarrow> bt_req_t \<Rightarrow> bytes option \<Rightarrow> 's world \<Rightarrow> (bt_response_buffer_t option \<times> 's world) result" where
  "dispatch api config params from_addr redis request err w =
     (if action request = BT_ACTION_CONNECT then
        bindE (deref redis) (\<lambda>redis.
        bt_handle_connection api request config (job_buflen params) redis w)
      else if action request = BT_ACTION_ANNOUNCE then
        bindE (deref redis) (\<lambda>redis.
        bt_handle_announce api request config (job_buff params) (job_buflen params) from_addr redis w)
      else if action request = BT_ACTION_SCRAPE then
        bindE (deref redis) (\<lambda>redis.
        bt_handle_scrape api request config (job_buff params) (job_buflen params) redis w)
      else if action request = BT_ACTION_ERROR then
        bindE (bt_send_error request err w) (\<lambda>(resp, w). Inr (Some resp, w))
      else Inr (None, w))"

text \<open>\<open>bt_request_processor\<close> up to the answer: the response, the thread-local storage, the state.\<close>

definition process_request :: "('c, 's) hiredis_api \<Rightarrow> bt_config_t \<Rightarrow> bt_job_params_t \<Rightarrow> sockaddr_in \<Rightarrow>
    'c option \<Rightarrow> 's world \<Rightarrow> ((bt_response_buffer_t option \<times> 'c option) \<times> 's world) result" where
  "process_request api config params from_addr tls w =
     bindE (bt_read_request_data (job_buff params)) (\<lambda>request.
     let ((redis, request, err, tls), w) = redis_acquire api config tls request w
     in bindE (dispatch api config params from_addr redis request err w) (\<lambda>(resp_buffer, w).
        Inr ((resp_buffer, tls), w)))"

text \<open>The datagram sent for a response.\<close>

definition send_response :: "bt_job_params_t \<Rightarrow> bt_response_buffer_t option \<Rightarrow> sockaddr_in \<Rightarrow> 's world \<Rightarrow>
    datagram list" where
  "send_response params resp_buffer from_addr w =
     (case resp_buffer of
        None \<Rightarrow> []
      | Some resp \<Rightarrow>
          [\<lparr>dg_sock = job_sock params, dg_data = take (resp_length resp) (sent_bytes w (resp_data resp)),
            dg_to = from_addr\<rparr>])"

text \<open>
  The whole function, when the variable behind \<open>from_addr\<close> holds \<open>from_addr\<close> while the request is
  handled and \<open>from_addr'\<close> when the answer is sent.
\<close>

definition bt_request_processor :: "('c, 's) hiredis_api \<Rightarrow> bt_config_t \<Rightarrow> bt_job_params_t \<Rightarrow>
    sockaddr_in \<Rightarrow> sockaddr_in \<Rightarrow> 'c option \<Rightarrow> 's world \<Rightarrow> ((datagram list \<times> 'c option) \<times> 's world) result" where
  "bt_request_processor api config params from_addr from_addr' tls w =
     bindE (process_request api config params from_addr tls w) (\<lambda>((resp_buffer, tls), w).
     Inr ((send_response params resp_buffer from_addr' w, tls), w))"

section \<open>The pool\<close>

text \<open>What \<open>bt_new_request_processor_pool\<close> asks GLib for.\<close>

record thread_pool =
  max_idle_time :: "32 word"
  max_threads :: int
  exclusive :: bool

definition bt_new_request_processor_pool :: "bt_config_t \<Rightarrow> thread_pool" where
  "bt_new_request_processor_pool config =
     \<lparr>max_idle_time = thread_max_idle_time config * 1000,
      max_threads = uint (thread_max config), exclusive = True\<rparr>"

section \<open>Acquiring a connection\<close>

text \<open>When a worker ends up without a connection: there is none, or it is dead, and a new one fails.\<close>

definition storage_unreachable :: "('c, 's) hiredis_api \<Rightarrow> bt_config_t \<Rightarrow> 'c option \<Rightarrow> 's world \<Rightarrow> bool" where
  "storage_unreachable api config tls w \<longleftrightarrow>
     (let connect = (\<lambda>w. fst (bt_redis_connect api (redis_socket_path config) (redis_host config)
            (uint (redis_port config)) (redis_timeout_of config) (uint (redis_db config)) w))
      in case tls of
           None \<Rightarrow> connect w = None
         | Some c \<Rightarrow> \<not> fst (bt_redis_ping api c w) \<and> connect (snd (bt_redis_ping api c w)) = None)"

lemma redis_command_env: "same_env w (snd (redis_command api c cmd w))"
  by (simp add: redis_command_def split_beta)

lemma bt_redis_ping_env: "same_env w (snd (bt_redis_ping api c w))"
  using redis_command_env [of w api c PING] by (simp add: bt_redis_ping_def split_beta)

lemma bt_redis_connect_env: "same_env w (snd (bt_redis_connect api path host prt timeout n w))"
  by (auto simp: bt_redis_connect_def Let_def redis_command_def split: prod.split option.split)

lemma redis_reconnect_env: "same_env w (snd (redis_reconnect api config tls request w))"
  using bt_redis_connect_env [of w api "redis_socket_path config" "redis_host config" "uint (redis_port config)"
      "redis_timeout_of config" "uint (redis_db config)"]
  by (auto simp: redis_reconnect_def g_private_replace_def bt_free_redis_def split: prod.splits option.splits)

lemma redis_acquire_env: "same_env w (snd (redis_acquire api config tls request w))"
proof (cases tls)
  case None
  then show ?thesis by (simp add: redis_acquire_def redis_reconnect_env)
next
  case (Some c)
  obtain ok w1 where ping: "bt_redis_ping api c w = (ok, w1)" by fastforce
  then have "same_env w w1" using bt_redis_ping_env [of w api c] by simp
  then show ?thesis
    using Some ping same_env_trans [OF \<open>same_env w w1\<close> redis_reconnect_env [of w1 api config tls request]] by (simp add: redis_acquire_def)
qed

lemma redis_acquire_unreachable:
  assumes "storage_unreachable api config tls w"
  shows "fst (redis_acquire api config tls request w) =
    (None, request\<lparr>action := BT_ACTION_ERROR\<rparr>, Some storage_error, None)"
  using assms
  by (auto simp: storage_unreachable_def redis_acquire_def redis_reconnect_def g_private_replace_def Let_def
      split: option.splits prod.splits)

text \<open>
  A handler runs only with a connection. Whatever the worker's storage and the server do, the
  connection a request is handled with is the one left in thread-local storage; if there is none, the
  request has become an error request with a message, which needs no connection; otherwise the
  request is unchanged and there is no message.
\<close>

lemma acquire_cases:
  assumes "redis_acquire api config tls request w = ((redis, request', err, tls'), w')"
  shows "tls' = redis"
    "redis = None \<Longrightarrow> request' = request\<lparr>action := BT_ACTION_ERROR\<rparr> \<and> err = Some storage_error"
    "redis = Some c \<Longrightarrow> request' = request \<and> err = None"
  using assms
  by (auto simp: redis_acquire_def redis_reconnect_def g_private_replace_def Let_def
      split: option.splits prod.splits if_splits)

text \<open>A server that cannot be reached, for the examples: every connection attempt fails.\<close>

definition down_api :: "(nat, unit) hiredis_api" where
  "down_api = \<lparr>redisConnectUnixWithTimeout = (\<lambda>_ _ s. (None, s)), redisConnectWithTimeout = (\<lambda>_ _ _ s. (None, s)),
     redis_err = (\<lambda>_ _. True), redisFree = (\<lambda>_ s. s), redisCommand = (\<lambda>_ _ s. (None, s)),
     redisAppendCommand = (\<lambda>_ _ s. s), redisGetReply = (\<lambda>_ s. (None, s))\<rparr>"

lemma down_unreachable [simp]: "storage_unreachable down_api config tls w"
  by (simp add: storage_unreachable_def down_api_def bt_redis_ping_def redis_command_def bt_redis_connect_def Let_def
      split: option.split)

lemma process_request_unreachable:
  assumes "storage_unreachable api config tls w" "memory_available w"
    "bt_read_request_data (job_buff params) = Inr request"
  shows "\<exists>w'. process_request api config params from_addr tls w =
      Inr ((Some \<lparr>resp_length = 125, resp_data = map Some (encode_error_response (transaction_id request) storage_error) @
        replicate 56 None\<rparr>, None), w') \<and> same_env w w'"
proof -
  obtain w1 where acq: "redis_acquire api config tls request w =
      ((None, request\<lparr>action := BT_ACTION_ERROR\<rparr>, Some storage_error, None), w1)"
    using redis_acquire_unreachable [OF assms(1), of request] by (metis prod.collapse)
  have env: "same_env w w1" using redis_acquire_env [of w api config tls request] acq by simp
  then have mem: "memory_available w1" using assms(2) same_env_keeps(1) by blast
  have "length storage_error = 60" by (simp add: storage_error_def)
  then show ?thesis
    using bt_send_error_eq [OF mem, of "request\<lparr>action := BT_ACTION_ERROR\<rparr>" storage_error] env
    by (simp add: process_request_def assms(3) acq dispatch_def)
qed

text \<open>
  C21. When the data storage cannot be reached, every request, whatever its action, is answered by the
  error \<open>Tracker temporarily unavailable: data storage is not working\<close> with its own transaction
  identifier, and the worker is left without a connection, so that it tries again next time.
\<close>

theorem storage_failure_reported:
  assumes "storage_unreachable api config tls w" "memory_available w"
    "job_buff params = encode_request request @ rest"
  shows "\<exists>dg w'. bt_request_processor api config params from_addr from_addr' tls w = Inr (([dg], None), w') \<and>
    dg_to dg = from_addr' \<and>
    take 69 (dg_data dg) = encode_error_response (transaction_id request) storage_error"
proof -
  let ?req = "bt_req_t.truncate request" and ?msg = "encode_error_response (transaction_id request) storage_error"
  have rd: "bt_read_request_data (job_buff params) = Inr ?req" "transaction_id ?req = transaction_id request"
    using bt_read_request_data_encode [of request rest] assms(3) by (simp_all add: bt_req_t.truncate_def)
  have len: "length ?msg = 69" by (simp add: encode_error_response_def storage_error_def)
  obtain w' where "process_request api config params from_addr tls w =
      Inr ((Some \<lparr>resp_length = 125, resp_data = map Some ?msg @ replicate 56 None\<rparr>, None), w')"
    using process_request_unreachable [OF assms(1,2) rd(1)] rd(2) by auto
  then show ?thesis by (simp add: bt_request_processor_def send_response_def len sent_bytes_initialised)
qed

theorem storage_failure_reported_witness:
  "\<exists>dg w'. bt_request_processor down_api test_config
      \<lparr>job_buff = encode_request \<lparr>connection_id = 42, action = BT_ACTION_ANNOUNCE, transaction_id = 77\<rparr> @ replicate 1480 0,
       job_buflen = 98, job_sock = 3, job_from_addr_len = 16\<rparr>
      \<lparr>sin_port = 1, s_addr = 2\<rparr> \<lparr>sin_port = 1, s_addr = 2\<rparr> None (quiet_world ()) = Inr (([dg], None), w') \<and>
    take 69 (dg_data dg) = encode_error_response 77 storage_error"
  using storage_failure_reported [OF down_unreachable quiet_world_env(1), of
      "\<lparr>job_buff = encode_request \<lparr>connection_id = 42, action = BT_ACTION_ANNOUNCE, transaction_id = 77\<rparr> @ replicate 1480 0,
       job_buflen = 98, job_sock = 3, job_from_addr_len = 16\<rparr>"
      "\<lparr>connection_id = 42, action = BT_ACTION_ANNOUNCE, transaction_id = 77\<rparr>" "replicate 1480 0" test_config
      "\<lparr>sin_port = 1, s_addr = 2\<rparr>" "\<lparr>sin_port = 1, s_addr = 2\<rparr>" None "()"]
  by auto

section \<open>Serving requests\<close>

context tracker_store
begin

text \<open>A live connection is kept and not disturbed.\<close>

lemma acquire_live:
  assumes "idle w"
  shows "\<exists>w'. redis_acquire api config (Some redis) request w = ((Some redis, request, None, Some redis), w') \<and>
    becomes w (db w) w'"
proof -
  obtain r s where "redis_command api redis PING w = (Some r, w\<lparr>server := s\<rparr>)"
    "redis_ok (db w) PING r (view redis s)" "pending redis s = []"
    using run_command [OF assms] by blast
  then show ?thesis
    by (auto simp: redis_acquire_def bt_redis_ping_def becomes_def status_reply_def)
qed

end

text \<open>The first steps on a request whose worker holds a live connection.\<close>

lemma process_request_live:
  assumes "tracker_store api view pending config prefix" "pending redis (server w) = []"
    "bt_read_request_data (job_buff params) = Inr request"
  shows "\<exists>w1. process_request api config params from_addr (Some redis) w =
      bindE (dispatch api config params from_addr (Some redis) request None w1) (\<lambda>(resp, w2). Inr ((resp, Some redis), w2)) \<and>
    pending redis (server w1) = [] \<and> view redis (server w1) = view redis (server w) \<and> same_env w w1"
  using tracker_store.acquire_live [OF assms(1,2), of request] assms(3)
  unfolding tracker_store.becomes_def [OF assms(1)] by (fastforce simp: process_request_def)

text \<open>
  C19. A connect datagram, received as raw bytes by a worker with a live connection, is answered by
  one datagram of 16 bytes to the address in \<open>from_addr\<close>: action, transaction identifier and a new
  connection identifier, which is then stored. The worker keeps its connection.
\<close>

theorem connect_datagram_answered:
  assumes "tracker_store api view pending config prefix" "pending redis (server w) = []" "memory_available w"
    "job_buff params = encode_request \<lparr>connection_id = BT_PROTOCOL_ID, action = BT_ACTION_CONNECT,
       transaction_id = tid\<rparr> @ rest" "16 \<le> job_buflen params"
  shows "\<exists>conn_id w'. bt_request_processor api config params from_addr from_addr' (Some redis) w =
      Inr (([\<lparr>dg_sock = job_sock params, dg_data = be_bytes 4 BT_ACTION_CONNECT @ be_bytes 4 tid @ be_bytes 8 conn_id,
        dg_to = from_addr'\<rparr>], Some redis), w') \<and>
    pending redis (server w') = [] \<and>
    view redis (server w') = (view redis (server w))(conn_key prefix conn_id \<mapsto> (RString (str ''1''), Some 120))"
proof -
  let ?req = "\<lparr>connection_id = BT_PROTOCOL_ID, action = BT_ACTION_CONNECT, transaction_id = tid\<rparr>"
  have "bt_read_request_data (job_buff params) = Inr ?req"
    using bt_read_request_data_encode [of ?req rest] assms(4) by (simp add: bt_req_t.truncate_def)
  then obtain w1 where 1: "process_request api config params from_addr (Some redis) w =
      bindE (dispatch api config params from_addr (Some redis) ?req None w1) (\<lambda>(resp, w2). Inr ((resp, Some redis), w2))"
      "pending redis (server w1) = []" "view redis (server w1) = view redis (server w)" "same_env w w1"
    using process_request_live [OF assms(1,2)] by blast
  have "memory_available w1" using 1(4) assms(3) same_env_keeps(1) by blast
  then obtain conn_id w' where "bt_handle_connection api ?req config (job_buflen params) redis w1 =
      Inr (Some \<lparr>resp_length = 16, resp_data = map Some (encode_connection_response
        \<lparr>resp_action = BT_ACTION_CONNECT, resp_transaction_id = tid, resp_connection_id = conn_id\<rparr>)\<rparr>, w')"
      "tracker_store.becomes view pending redis w1
        ((view redis (server w))(conn_key prefix conn_id \<mapsto> (RString (str ''1''), Some 120))) w'"
    using tracker_store.handle_connection_effect [OF assms(1) 1(2), of ?req "job_buflen params"] assms(5) 1(3) by auto
  then show ?thesis
    unfolding tracker_store.becomes_def [OF assms(1)]
    by (auto simp: bt_request_processor_def 1(1) dispatch_def send_response_def encode_connection_response_def
        simp flip: map_append)
qed

theorem connect_datagram_answered_witness:
  "\<exists>conn_id :: 64 word. \<exists>w'. bt_request_processor ref_api test_config
      \<lparr>job_buff = encode_request \<lparr>connection_id = BT_PROTOCOL_ID, action = BT_ACTION_CONNECT, transaction_id = 77\<rparr>
         @ replicate 1480 0, job_buflen = 16, job_sock = 3, job_from_addr_len = 16\<rparr>
      \<lparr>sin_port = 1, s_addr = 2\<rparr> \<lparr>sin_port = 1, s_addr = 2\<rparr> (Some 0) (quiet_world ref_empty) =
    Inr (([\<lparr>dg_sock = 3, dg_data = be_bytes 4 BT_ACTION_CONNECT @ be_bytes 4 (77 :: 32 word) @ be_bytes 8 conn_id,
      dg_to = \<lparr>sin_port = 1, s_addr = 2\<rparr>\<rparr>], Some 0), w')"
proof -
  let ?params = "\<lparr>job_buff = encode_request \<lparr>connection_id = BT_PROTOCOL_ID, action = BT_ACTION_CONNECT,
         transaction_id = 77\<rparr> @ replicate 1480 0, job_buflen = 16, job_sock = 3, job_from_addr_len = 16\<rparr>"
  show ?thesis
    using connect_datagram_answered [OF ref_tracker, of 0 "quiet_world ref_empty" ?params 77 "replicate 1480 0"
        "\<lparr>sin_port = 1, s_addr = 2\<rparr>" "\<lparr>sin_port = 1, s_addr = 2\<rparr>"] by auto
qed

text \<open>
  C32. A client that sends the action \<open>ERROR\<close> itself makes the worker call \<open>bt_send_error\<close> with the
  message \<open>NULL\<close>, whose length it then takes: any client can crash the tracker.
\<close>

theorem client_error_action_crashes:
  assumes "tracker_store api view pending config prefix" "pending redis (server w) = []" "memory_available w"
    "job_buff params = encode_request request @ rest" "action request = BT_ACTION_ERROR"
  shows "bt_request_processor api config params from_addr from_addr' (Some redis) w = Inl Null_Dereference"
proof -
  let ?req = "bt_req_t.truncate request"
  have rd: "bt_read_request_data (job_buff params) = Inr ?req" "action ?req = BT_ACTION_ERROR"
    using bt_read_request_data_encode [of request rest] assms(4,5) by (simp_all add: bt_req_t.truncate_def)
  obtain w1 where 1: "process_request api config params from_addr (Some redis) w =
      bindE (dispatch api config params from_addr (Some redis) ?req None w1) (\<lambda>(resp, w2). Inr ((resp, Some redis), w2))"
      "same_env w w1"
    using process_request_live [OF assms(1,2) rd(1)] by blast
  have "memory_available w1" using 1(2) assms(3) same_env_keeps(1) by blast
  then show ?thesis by (simp add: bt_request_processor_def 1(1) dispatch_def rd(2) bt_send_error_def)
qed

theorem client_error_action_crashes_witness:
  "bt_request_processor ref_api test_config
      \<lparr>job_buff = encode_request \<lparr>connection_id = 0, action = BT_ACTION_ERROR, transaction_id = 77\<rparr> @ replicate 1480 0,
       job_buflen = 16, job_sock = 3, job_from_addr_len = 16\<rparr>
      \<lparr>sin_port = 1, s_addr = 2\<rparr> \<lparr>sin_port = 1, s_addr = 2\<rparr> (Some 0) (quiet_world ref_empty) = Inl Null_Dereference"
  using client_error_action_crashes [OF ref_tracker, of 0 "quiet_world ref_empty"
      "\<lparr>job_buff = encode_request \<lparr>connection_id = 0, action = BT_ACTION_ERROR, transaction_id = 77\<rparr> @ replicate 1480 0,
       job_buflen = 16, job_sock = 3, job_from_addr_len = 16\<rparr>"
      "\<lparr>connection_id = 0, action = BT_ACTION_ERROR, transaction_id = 77\<rparr>" "replicate 1480 0"]
  by simp

section \<open>Safety\<close>

text \<open>
  The requests the code handles safely: any but the action \<open>ERROR\<close> and the scrape requests that are too
  short or too long for \<open>bt_read_scrape_request_data\<close>.
\<close>

definition safe_request :: "bt_req_t \<Rightarrow> 64 word \<Rightarrow> bool" where
  "safe_request request buflen \<longleftrightarrow> action request \<noteq> BT_ACTION_ERROR \<and>
     (action request = BT_ACTION_SCRAPE \<longrightarrow> buflen < 8 \<or> 16 \<le> buflen \<and> buflen \<le> 176)"

definition small_swarms :: "bytes \<Rightarrow> redis_db \<Rightarrow> bool" where
  "small_swarms prefix d \<longleftrightarrow> (\<forall>h b. card (dom (swarm d prefix h b)) < 2 ^ 22 - 1)"

lemma handle_scrape_total:
  assumes "tracker_store api view pending config prefix" "pending redis (server w) = []"
    "db_ok prefix (view redis (server w))" "memory_available w" "action request = BT_ACTION_SCRAPE"
    "buflen < 8 \<or> 16 \<le> buflen \<and> buflen \<le> 176" "176 \<le> length buff"
  shows "\<exists>resp w'. bt_handle_scrape api request config buff buflen redis w = Inr (resp, w') \<and>
    pending redis (server w') = [] \<and> view redis (server w') = view redis (server w) \<and> same_env w w' \<and>
    (\<forall>r. resp = Some r \<longrightarrow> length (resp_data r) \<le> 125)"
proof (cases "buflen < 8")
  case True
  then have "\<not> 8 \<le> buflen" by simp
  then have "bt_valid_request api redis config request buflen w = Inr (False, w)"
    using assms(5) by (simp add: bt_valid_request_def)
  then show ?thesis using assms(2) by (simp add: bt_handle_scrape_def)
next
  case False
  then have len: "16 \<le> buflen" "buflen \<le> 176" using assms(6) by auto
  let ?hs = "scrape_hashes buff ((unat buflen - 16) div 20)"
  have "unat buflen \<le> 176" using len(2) by (simp add: word_le_nat_alt)
  then have "length ?hs \<le> 8" by simp
  then show ?thesis
    using handle_scrape_eq [OF assms(1-5) len assms(7) refl]
    by (fastforce simp: refusal_def encode_error_response_def simp del: scrape_hashes_simps)
qed

lemma dispatch_safe:
  assumes "tracker_store api view pending config prefix" "pending redis (server w) = []"
    "db_ok prefix (view redis (server w))" "small_swarms prefix (view redis (server w))"
    "memory_available w" "rand_below_max w" "length (job_buff params) = BT_RECV_BUFLEN"
    "safe_request request (job_buflen params)"
  shows "\<exists>resp w'. dispatch api config params from_addr (Some redis) request None w = Inr (resp, w') \<and>
    pending redis (server w') = [] \<and> db_ok prefix (view redis (server w')) \<and> same_env w w' \<and>
    (\<forall>r. resp = Some r \<longrightarrow> length (resp_data r) \<le> max 125 (20 + 6 * unat (announce_max_numwant config)))"
proof -
  note becomes = tracker_store.becomes_def [OF assms(1)]
  have buff: "98 \<le> length (job_buff params)" "176 \<le> length (job_buff params)"
    using assms(7) by (simp_all add: BT_RECV_BUFLEN_def)
  consider (connect) "action request = BT_ACTION_CONNECT" | (announce) "action request = BT_ACTION_ANNOUNCE"
    | (scrape) "action request = BT_ACTION_SCRAPE"
    | (other) "action request \<notin> {BT_ACTION_CONNECT, BT_ACTION_ANNOUNCE, BT_ACTION_SCRAPE, BT_ACTION_ERROR}"
    using assms(8) by (auto simp: safe_request_def)
  then show ?thesis
  proof cases
    case connect
    then show ?thesis
      using tracker_store.handle_connection_effect [OF assms(1,2,5) connect, of "job_buflen params"] assms(3)
      by (fastforce simp: dispatch_def becomes encode_connection_response_def split: if_splits)
  next
    case announce
    then show ?thesis
      using tracker_store.handle_announce_total [OF assms(1) _ assms(5,6) buff(1) announce, of redis "job_buflen params" from_addr]
        assms(2-4) by (fastforce simp: dispatch_def becomes small_swarms_def)
  next
    case scrape
    then have "job_buflen params < 8 \<or> 16 \<le> job_buflen params \<and> job_buflen params \<le> 176"
      using assms(8) by (simp add: safe_request_def)
    from handle_scrape_total [OF assms(1-3,5) scrape this buff(2)] show ?thesis
      using scrape assms(3) by (fastforce simp: dispatch_def)
  next
    case other
    then show ?thesis using assms(2,3) by (simp add: dispatch_def)
  qed
qed



end
