(* ===== verification/Bt_Frame.thy ===== *)
theory Bt_Frame
  imports Bt_Pool
begin

text \<open>
  What a worker does to the server: whatever a function of \<open>data.c\<close> or a handler does, and whatever the
  server answers, it does by calls of hiredis on the connection it was given, and the commands it sends
  are of a few kinds, none of which can harm the invariant of the database.
\<close>

declare str_simps [simp del]

section \<open>The commands of the tracker\<close>

text \<open>
  Reads of any key; connection identifiers; peers, stored as the 40 bytes of a \<open>bt_peer_t\<close>, deleted or
  moved; and the download counter of a torrent, named by the 40 digits of its info hash.
\<close>

inductive tracker_command :: "bytes \<Rightarrow> redis_command \<Rightarrow> bool" for prefix :: bytes where
  ping: "tracker_command prefix PING"
| get: "tracker_command prefix (GET k)"
| hget: "tracker_command prefix (HGET k f)"
| sismember: "tracker_command prefix (SISMEMBER k x)"
| keys: "tracker_command prefix (KEYS q)"
| insert_connection: "tracker_command prefix (SETEX (conn_key prefix i) t v)"
| insert_peer: "length v = sizeof_bt_peer_t \<Longrightarrow> tracker_command prefix (SETEX (swarm_key prefix h r pid) t v)"
| remove_peer: "tracker_command prefix (DEL (swarm_key prefix h r pid))"
| promote_peer: "tracker_command prefix (RENAME (swarm_key prefix h r pid) (swarm_key prefix h' r' pid'))"
| count_download: "length h = 40 \<Longrightarrow> tracker_command prefix (HINCRBY (torrent_key prefix h) (str ''downs'') 1)"

declare tracker_command.intros [simp]

lemma tracker_command_not_select: "tracker_command prefix cmd \<Longrightarrow> \<nexists>n. cmd = SELECT n"
  by (auto elim: tracker_command.cases)

section \<open>Sequences of calls\<close>

inductive calls :: "('c, 's) hiredis_api \<Rightarrow> bytes \<Rightarrow> 'c \<Rightarrow> 's \<Rightarrow> 's \<Rightarrow> bool"
  for api :: "('c, 's) hiredis_api" and prefix :: bytes and c :: 'c where
  none: "calls api prefix c s s"
| command: "calls api prefix c s s' \<Longrightarrow> tracker_command prefix cmd \<Longrightarrow>
    calls api prefix c s (snd (redisCommand api c cmd s'))"
| append: "calls api prefix c s s' \<Longrightarrow> tracker_command prefix cmd \<Longrightarrow>
    calls api prefix c s (redisAppendCommand api c cmd s')"
| reply: "calls api prefix c s s' \<Longrightarrow> calls api prefix c s (snd (redisGetReply api c s'))"

declare calls.none [simp, intro]

lemma calls_trans: "calls api prefix c s' s'' \<Longrightarrow> calls api prefix c s s' \<Longrightarrow> calls api prefix c s s''"
  by (induction rule: calls.induct) (auto intro: calls.intros)

text \<open>On process states; \<open>calls_w\<close> is transitive.\<close>

definition calls_w :: "('c, 's) hiredis_api \<Rightarrow> bytes \<Rightarrow> 'c \<Rightarrow> 's world \<Rightarrow> 's world \<Rightarrow> bool" where
  "calls_w api prefix c w w' \<longleftrightarrow> calls api prefix c (server w) (server w')"

lemma calls_w_refl [simp, intro]: "calls_w api prefix c w w"
  by (simp add: calls_w_def)

lemma calls_w_trans [trans]: "calls_w api prefix c w w' \<Longrightarrow> calls_w api prefix c w' w'' \<Longrightarrow> calls_w api prefix c w w''"
  using calls_trans by (auto simp: calls_w_def)

lemma calls_w_upd [simp]:
  "calls_w api prefix c w (w'\<lparr>malloc_pos := n\<rparr>) = calls_w api prefix c w w'"
  "calls_w api prefix c w (w'\<lparr>rand_pos := n\<rparr>) = calls_w api prefix c w w'"
  by (simp_all add: calls_w_def)

text \<open>Results that were reached by calls; the two shapes are those of the functions of the model.\<close>

definition reaches :: "('c, 's) hiredis_api \<Rightarrow> bytes \<Rightarrow> 'c \<Rightarrow> 's world \<Rightarrow> ('a \<times> 's world) result \<Rightarrow> bool" where
  "reaches api prefix c w res \<longleftrightarrow> (\<forall>x w'. res = Inr (x, w') \<longrightarrow> calls_w api prefix c w w')"

definition reaches_w :: "('c, 's) hiredis_api \<Rightarrow> bytes \<Rightarrow> 'c \<Rightarrow> 's world \<Rightarrow> 's world result \<Rightarrow> bool" where
  "reaches_w api prefix c w res \<longleftrightarrow> (\<forall>w'. res = Inr w' \<longrightarrow> calls_w api prefix c w w')"

lemma reaches_Inl [simp]: "reaches api prefix c w (Inl e)" "reaches_w api prefix c w (Inl e)"
  by (simp_all add: reaches_def reaches_w_def)

lemma reaches_Inr [simp]:
  "reaches api prefix c w (Inr (x, w')) = calls_w api prefix c w w'" "reaches_w api prefix c w (Inr w') = calls_w api prefix c w w'"
  by (simp_all add: reaches_def reaches_w_def)

text \<open>
  The rules for \<open>bindE\<close>, by what is passed on: a value and a state, a state, or, from a function that
  does not see the state, a value.
\<close>

lemma reaches_bind:
  assumes "reaches api prefix c w0 m" "calls_w api prefix c w w0" "\<And>x w'. m = Inr (x, w') \<Longrightarrow> calls_w api prefix c w w' \<Longrightarrow> reaches api prefix c w (f (x, w'))"
  shows "reaches api prefix c w (bindE m f)"
proof (cases m)
  case (Inr y)
  obtain x w' where y: "y = (x, w')" by fastforce
  then have "calls_w api prefix c w w'" using Inr assms(1) calls_w_trans [OF assms(2)] by (simp add: reaches_def)
  from assms(3) [OF _ this] show ?thesis using Inr y by simp
qed simp

lemma reaches_bind_w:
  assumes "reaches_w api prefix c w0 m" "calls_w api prefix c w w0" "\<And>w'. calls_w api prefix c w w' \<Longrightarrow> reaches api prefix c w (f w')"
  shows "reaches api prefix c w (bindE m f)"
  using assms calls_w_trans [OF assms(2)] by (cases m) (auto simp: reaches_w_def)

lemma reaches_w_bind:
  assumes "reaches api prefix c w0 m" "calls_w api prefix c w w0" "\<And>x w'. calls_w api prefix c w w' \<Longrightarrow> reaches_w api prefix c w (f (x, w'))"
  shows "reaches_w api prefix c w (bindE m f)"
  using assms calls_w_trans [OF assms(2)] by (cases m) (auto simp: reaches_def)

lemma reaches_bind_pure:
  "(\<And>x. m = Inr x \<Longrightarrow> reaches api prefix c w (f x)) \<Longrightarrow> reaches api prefix c w (bindE m f)"
  "(\<And>x. m = Inr x \<Longrightarrow> reaches_w api prefix c w (g x)) \<Longrightarrow> reaches_w api prefix c w (bindE m g)"
  by (cases m; simp)+

lemmas reaches_pure =
  reaches_bind_pure(1) [where m = "deref p" for p]
  reaches_bind_pure(2) [where m = "deref p" for p]
  reaches_bind_pure(1) [where m = "memcpy_to b off bs" for b off bs]
  reaches_bind_pure(1) [where m = "load n b off" for n b off]
  reaches_bind_pure(1) [where m = "read_bytes b off n" for b off n]
  reaches_bind_pure(1) [where m = "read_block b off n" for b off n]
  reaches_bind_pure(1) [where m = "hexarray_loop i bs b" for i bs b]
  reaches_bind_pure(1) [where m = "bt_write_error_data b r msg" for b r msg]
  reaches_bind_pure(1) [where m = "bt_write_connection_data b r" for b r]
  reaches_bind_pure(1) [where m = "bt_write_announce_response_data b r" for b r]
  reaches_bind_pure(1) [where m = "bt_write_announce_peer_data b ps" for b ps]
  reaches_bind_pure(1) [where m = "bt_write_scrape_response_data b r" for b r]
  reaches_bind_pure(1) [where m = "bt_read_announce_request_data b" for b]
  reaches_bind_pure(1) [where m = "bt_read_scrape_request_data b len" for b len]

lemma reaches_weaken:
  "reaches api prefix c w' res \<Longrightarrow> calls_w api prefix c w w' \<Longrightarrow> reaches api prefix c w res"
  "reaches_w api prefix c w' res' \<Longrightarrow> calls_w api prefix c w w' \<Longrightarrow> reaches_w api prefix c w res'"
  using calls_w_trans by (auto simp: reaches_def reaches_w_def)

lemma redis_command_calls:
  "redis_command api c cmd w = (r, w') \<Longrightarrow> tracker_command prefix cmd \<Longrightarrow> calls_w api prefix c w w'"
  using calls.command [OF calls.none, of prefix cmd api c "server w"]
  by (auto simp: redis_command_def calls_w_def split: prod.splits)

lemma append_command_calls:
  "tracker_command prefix cmd \<Longrightarrow> calls_w api prefix c w w' \<Longrightarrow> calls_w api prefix c w (append_command api c cmd w')"
  by (simp add: append_command_def calls_w_def calls.append)

lemma get_reply_calls: "get_reply api c w = (r, w') \<Longrightarrow> calls_w api prefix c w w'"
  using calls.reply [OF calls.none, of api prefix c "server w"]
  by (auto simp: get_reply_def calls_w_def split: prod.splits)

abbreviation key_prefix :: "bt_config_t \<Rightarrow> bytes" where
  "key_prefix config \<equiv> the (redis_key_prefix config)"

section \<open>The functions of \<open>data.c\<close>\<close>

lemma bt_insert_connection_reaches: "reaches_w api (key_prefix config) c w (bt_insert_connection api c config conn_id w)"
  by (auto simp: bt_insert_connection_def intro!: reaches_pure redis_command_calls split: prod.split)

lemma bt_connection_valid_reaches: "reaches api (key_prefix config) c w (bt_connection_valid api c config conn_id w)"
  by (auto simp: bt_connection_valid_def intro!: reaches_pure redis_command_calls split: prod.split option.split)

lemma bt_insert_peer_reaches: "reaches_w api (key_prefix config) c w (bt_insert_peer api c config h pid p b w)"
  by (auto simp: bt_insert_peer_def length_peer_image intro!: reaches_pure redis_command_calls split: prod.split)

lemma bt_remove_peer_reaches: "reaches_w api (key_prefix config) c w (bt_remove_peer api c config h pid b w)"
  by (auto simp: bt_remove_peer_def intro!: reaches_pure redis_command_calls split: prod.split)

lemma bt_increment_downloads_reaches: "length h = 40 \<Longrightarrow> reaches_w api (key_prefix config) c w (bt_increment_downloads api c config h w)"
  by (auto simp: bt_increment_downloads_def intro!: reaches_pure redis_command_calls split: prod.split)

lemma bt_promote_peer_reaches:
  assumes "length h = 40"
  shows "reaches_w api (key_prefix config) c w (bt_promote_peer api c config h pid w)"
proof (cases "redis_key_prefix config")
  case (Some p)
  have inc: "reaches_w api p c w (bt_increment_downloads api c config h w)" for w
    using bt_increment_downloads_reaches [OF assms, of api config c w] Some by simp
  show ?thesis
    by (auto simp: bt_promote_peer_def Some intro!: redis_command_calls reaches_weaken(2) [OF inc]
        split: prod.split option.split)
qed (simp add: bt_promote_peer_def)

lemma bt_info_hash_blacklisted_reaches: "reaches api (key_prefix config) c w (bt_info_hash_blacklisted api c config h w)"
  by (auto simp: bt_info_hash_blacklisted_def intro!: reaches_pure redis_command_calls
      split: prod.split option.split bt_restriction.split)

lemma take_reply_reaches: "reaches api prefix c w (take_reply api c w)"
  by (auto simp: take_reply_def dest: get_reply_calls split: prod.split option.split)

lemma bt_get_torrent_stats_reaches: "reaches api (key_prefix config) c w (bt_get_torrent_stats api c config h w)"
  unfolding bt_get_torrent_stats_def Let_def
  by (auto intro!: reaches_pure reaches_bind [OF take_reply_reaches] append_command_calls)

lemma shuffle_loop_reaches: "reaches api prefix c w (shuffle_loop i n element w)"
proof (induction i n element w rule: shuffle_loop.induct)
  case (1 i n element w)
  obtain j where j: "randr (of_nat i) (of_nat (length element) - 1) w = (j, w\<lparr>rand_pos := Suc (rand_pos w)\<rparr>)"
    using randr_world by (metis prod.collapse)
  show ?case
    using 1 [OF _ refl j [symmetric]] by (subst shuffle_loop.simps) (auto simp: j intro: reaches_weaken(1))
qed

lemma append_loop_calls: "calls_w api prefix c w' w \<Longrightarrow> calls_w api prefix c w' (append_loop api c rs w)"
  by (induction rs arbitrary: w) (simp_all add: append_command_calls)

lemma malloc_reaches: "reaches api prefix c w (malloc_unchecked n w)" "reaches api prefix c w (malloc_or_exit n w)"
  by (auto simp: malloc_unchecked_def malloc_or_exit_def malloc_def)

lemma bt_new_peer_reaches: "reaches api prefix c w (bt_new_peer r a w)" "reaches api prefix c w (bt_new_peer_addr i p w)"
  by (auto simp: bt_new_peer_def bt_new_peer_addr_def intro!: reaches_bind [OF malloc_reaches(1)])

lemma fetch_loop_reaches: "calls_w api prefix c w' w \<Longrightarrow> reaches api prefix c w' (fetch_loop api c n lst k w)"
proof (induction n arbitrary: lst k w)
  case (Suc n)
  obtain reply w1 where 1: "get_reply api c w = (reply, w1)" by fastforce
  from calls_w_trans [OF Suc.prems get_reply_calls [OF 1]] have "calls_w api prefix c w' w1" .
  then show ?case
    by (auto simp: 1 split: option.split intro!: Suc.IH reaches_pure reaches_bind [OF bt_new_peer_reaches(2)])
qed simp

lemma bt_peer_list_reaches: "reaches api (key_prefix config) c w (bt_peer_list api c config h want n b w)"
proof -
  have "reaches api (key_prefix config) c w (bindE (shuffle_loop 0 k element w1) (\<lambda>(element, w).
      fetch_loop api c k [] 0 (append_loop api c (take k element) w)))"
    if "calls_w api (key_prefix config) c w w1" for k element w1
    using that by (auto intro!: reaches_bind [OF shuffle_loop_reaches] fetch_loop_reaches append_loop_calls)
  then show ?thesis
    unfolding bt_peer_list_def Let_def
    by (auto intro!: reaches_pure dest!: redis_command_calls split: prod.split option.split)
qed

section \<open>The handlers\<close>

lemma bt_bytearray_to_hexarray_reaches: "reaches api prefix c w (bt_bytearray_to_hexarray bin n w)"
  unfolding bt_bytearray_to_hexarray_def by (auto intro!: reaches_bind [OF malloc_reaches(1)] reaches_pure)

lemma bt_send_error_reaches: "reaches api prefix c w (bt_send_error request msg w)"
  unfolding bt_send_error_def Let_def by (auto intro!: reaches_bind [OF malloc_reaches(2)] reaches_pure)

lemma serialize_reaches:
  "reaches api prefix c w (bt_serialize_connection_response r1 w)"
  "reaches api prefix c w (bt_serialize_announce_response r2 n peers w)"
  "reaches api prefix c w (bt_serialize_scrape_response r3 w)"
  unfolding bt_serialize_connection_response_def bt_serialize_announce_response_def bt_serialize_scrape_response_def Let_def
  by (auto intro!: reaches_bind [OF malloc_reaches(1)] reaches_bind [OF malloc_reaches(2)] reaches_pure)

lemma bt_valid_request_reaches: "reaches api (key_prefix config) c w (bt_valid_request api c config req len w)"
  by (simp add: bt_valid_request_def bt_connection_valid_reaches)

lemma bt_update_peer_list_reaches: "length h = 40 \<Longrightarrow> reaches_w api (key_prefix config) c w (bt_update_peer_list api c config r a h b w)"
  by (auto simp: bt_update_peer_list_def Let_def bt_remove_peer_reaches bt_promote_peer_reaches
      intro!: reaches_w_bind [OF bt_new_peer_reaches(1)] reaches_weaken(2) [OF bt_insert_peer_reaches])

lemma collect_peers_reaches: "reaches api (key_prefix config) c w (collect_peers api c config h want b w)"
  unfolding collect_peers_def by (auto intro!: reaches_bind [OF bt_peer_list_reaches])

lemma bt_handle_connection_reaches: "reaches api (key_prefix config) c w (bt_handle_connection api request config len c w)"
proof -
  have "calls_w api (key_prefix config) c w w''" if "bt_random_int64 w' = (i, w'')" "calls_w api (key_prefix config) c w w'" for i w' w''
    using bt_random_int64_world [of w'] that by auto
  then show ?thesis
    unfolding bt_handle_connection_def Let_def
    by (auto split: prod.split intro!: reaches_bind [OF bt_valid_request_reaches]
        reaches_bind_w [OF bt_insert_connection_reaches] reaches_bind [OF serialize_reaches(1)])
qed

lemma info_hash_text_length:
  assumes "bt_read_announce_request_data buff = Inr r" "bt_bytearray_to_hexarray (info_hash r) 20 w = Inr (x, w')"
  shows "length (c_str x) = 40"
proof -
  have "length (info_hash r) = 20"
    using assms(1) by (auto simp: bt_read_announce_request_data_def bindE_eq_Inr read_bytes_def split: if_splits)
  then show ?thesis using bt_bytearray_to_hexarray_Inr [OF assms(2)] by simp
qed

lemma bt_handle_announce_reaches: "reaches api (key_prefix config) c w (bt_handle_announce api request config buff len a c w)"
  unfolding bt_handle_announce_def Let_def
  by (auto intro!: reaches_bind [OF bt_valid_request_reaches] reaches_pure
      reaches_bind [OF bt_bytearray_to_hexarray_reaches] reaches_bind [OF bt_info_hash_blacklisted_reaches]
      reaches_bind [OF bt_send_error_reaches] reaches_bind_w [OF bt_update_peer_list_reaches] info_hash_text_length
      reaches_bind [OF collect_peers_reaches] reaches_bind [OF bt_get_torrent_stats_reaches]
      reaches_bind [OF serialize_reaches(2)])

lemma scrape_loop_reaches:
  "calls_w api (key_prefix config) c w' w \<Longrightarrow> reaches api (key_prefix config) c w' (scrape_loop api request config r c i entries w)"
proof (induction "unat (info_hash_len r) - i" arbitrary: i entries w)
  case 0
  then show ?case by (subst scrape_loop.simps) simp
next
  case (Suc n)
  have "n = unat (info_hash_len r) - (i + 1)" using Suc(2) by simp
  note IH = Suc(1) [OF this]
  show ?case
    using Suc.prems by (subst scrape_loop.simps)
      (auto simp: Let_def simp del: scrape_loop.simps intro!: IH [simplified] reaches_pure
        reaches_bind [OF bt_bytearray_to_hexarray_reaches] reaches_bind [OF bt_info_hash_blacklisted_reaches]
        reaches_bind [OF bt_send_error_reaches] reaches_bind [OF malloc_reaches(1)]
        reaches_bind [OF bt_get_torrent_stats_reaches])
qed

lemma scrape_loop_bind_reaches:
  assumes "calls_w api (key_prefix config) c w w'" "\<And>x w''. calls_w api (key_prefix config) c w w'' \<Longrightarrow> reaches api (key_prefix config) c w (f (x, w''))"
  shows "reaches api (key_prefix config) c w (bindE (scrape_loop api request config r c i entries w') f)"
  by (rule reaches_bind [OF scrape_loop_reaches [OF assms(1)] calls_w_refl]) (rule assms(2))

lemma bt_handle_scrape_reaches: "reaches api (key_prefix config) c w (bt_handle_scrape api request config buff len c w)"
  unfolding bt_handle_scrape_def Let_def
  by (auto intro!: reaches_bind [OF bt_valid_request_reaches] reaches_pure scrape_loop_bind_reaches
      reaches_bind [OF serialize_reaches(3)] split: sum.split simp del: scrape_loop.simps)

lemma dispatch_reaches: "reaches api (key_prefix config) c w (dispatch api config params a (Some c) request err w)"
  by (auto simp: dispatch_def bt_handle_connection_reaches bt_handle_announce_reaches bt_handle_scrape_reaches
      intro!: reaches_bind [OF bt_send_error_reaches])

end
