(* ===== verification/Bt_Socket.thy ===== *)
theory Bt_Socket
  imports Bt_Redis
begin

text \<open>
  The socket of the tracker, \<open>bt_ipv4_udp_sock\<close> of \<open>net.c\<close>. The functions of the C library it calls are
  the fields of a record.
\<close>

section \<open>The functions of the C library\<close>

record addrinfo_hints =
  hint_family :: int
  hint_socktype :: int
  hint_flags :: int

text \<open>
  \<open>'a\<close> is the type of address lists. \<open>getaddrinfo\<close> answers \<open>None\<close> when it returns an error code;
  \<open>socket\<close> and \<open>bind\<close> return \<open>-1\<close> on failure.
\<close>

record 'a socket_api =
  c_getaddrinfo :: "bytes option \<Rightarrow> bytes \<Rightarrow> addrinfo_hints \<Rightarrow> 'a option"
  ai_family :: "'a \<Rightarrow> int"
  ai_socktype :: "'a \<Rightarrow> int"
  ai_protocol :: "'a \<Rightarrow> int"
  c_socket :: "int \<Rightarrow> int \<Rightarrow> int \<Rightarrow> int"
  c_bind :: "int \<Rightarrow> 'a \<Rightarrow> int"

definition AF_INET :: int where "AF_INET = 2"
definition SOCK_DGRAM :: int where "SOCK_DGRAM = 2"
definition AI_PASSIVE :: int where "AI_PASSIVE = 1"

section \<open>Creating the socket\<close>

text \<open>\<open>char portstr[10]; sprintf(portstr, "%d", port)\<close>, every write checked against the ten bytes.\<close>

definition sprintf_port :: "16 word \<Rightarrow> buffer result" where
  "sprintf_port portnr = memcpy_to (replicate 10 None) 0 (decimal (uint portnr) @ [0])"

definition bt_ipv4_udp_sock :: "'a socket_api \<Rightarrow> bytes option \<Rightarrow> 16 word \<Rightarrow> (int \<times> 'a) result" where
  "bt_ipv4_udp_sock net addr portnr =
     bindE (sprintf_port portnr) (\<lambda>portstr.
     case c_getaddrinfo net addr (c_str portstr)
            \<lparr>hint_family = AF_INET, hint_socktype = SOCK_DGRAM, hint_flags = AI_PASSIVE\<rparr> of
       None \<Rightarrow> Inl (Exit BT_EXIT_NETWORK_ERROR)
     | Some addrinfo \<Rightarrow>
         let sock = c_socket net (ai_family net addrinfo) (ai_socktype net addrinfo) (ai_protocol net addrinfo)
         in if sock = -1 then Inl (Exit BT_EXIT_NETWORK_ERROR) else Inr (sock, addrinfo))"

section \<open>Properties\<close>

lemma length_digits_of_nat: "n < 10 ^ Suc k \<Longrightarrow> length (digits_of_nat n) \<le> Suc k"
proof (induction k arbitrary: n)
  case 0
  then show ?case by (subst digits_of_nat.simps) simp
next
  case (Suc k)
  have "n div 10 < 10 ^ Suc k" using Suc.prems by (simp add: less_mult_imp_div_less mult.commute)
  then show ?case using Suc.IH [of "n div 10"] by (subst digits_of_nat.simps) simp
qed

lemma digits_nonzero: "0 \<notin> set (digits_of_nat n)"
proof (induction n rule: digits_of_nat.induct)
  case (1 n)
  have nz: "(of_nat (48 + m) :: byte) \<noteq> 0" if "m < 10" for m
  proof -
    have "unat (of_nat (48 + m) :: byte) = 48 + m" using that by (intro of_nat_inverse refl) simp
    then show ?thesis by (metis add_is_0 unat_0 zero_neq_numeral)
  qed
  show ?case
  proof (cases "n < 10")
    case True
    then have "digits_of_nat n = [of_nat (48 + n)]" by (subst digits_of_nat.simps) simp
    then show ?thesis using nz [OF True] by simp
  next
    case False
    let ?d = "of_nat (48 + n mod 10) :: byte"
    have d: "?d \<noteq> 0" by (rule nz) simp
    have eq: "digits_of_nat n = digits_of_nat (n div 10) @ [?d]"
      by (subst digits_of_nat.simps) (simp only: False if_False)
    have app: "0 \<notin> set (xs @ [b])" if "0 \<notin> set xs" "b \<noteq> 0" for xs and b :: byte using that by auto
    show ?thesis by (subst eq) (rule app [OF 1 [OF False] d])
  qed
qed

lemma sprintf_port_ok: "\<exists>portstr. sprintf_port portnr = Inr portstr \<and> c_str portstr = decimal (uint portnr)"
proof -
  let ?ds = "digits_of_nat (nat (uint portnr))"
  have eq: "decimal (uint portnr) = ?ds" by (simp add: decimal_def)
  have "unat portnr < 2 ^ 16" using unsigned_less [of portnr, where ?'a = nat] by simp
  then have "nat (uint portnr) < 10 ^ Suc 4" unfolding unat_eq_nat_uint [symmetric] by simp
  then have len: "length ?ds \<le> 5" using length_digits_of_nat [of "nat (uint portnr)" 4] by simp
  then have "memcpy_to (replicate 10 None) 0 (?ds @ [0]) =
      Inr (map Some ?ds @ Some 0 # replicate (9 - length ?ds) None)"
    using memcpy_to_front [of "?ds @ [0]" 10] by simp
  then show ?thesis
    using c_str_append [OF digits_nonzero] by (simp add: sprintf_port_def eq)
qed

text \<open>
  The text of the port fits into its ten bytes, so \<open>bt_ipv4_udp_sock\<close> always either returns the
  socket that the C library made for the configured address and port, or leaves the program with
  \<open>BT_EXIT_NETWORK_ERROR\<close> when the address cannot be resolved or the socket cannot be created.
\<close>

lemma bt_ipv4_udp_sock_outcome:
  "bt_ipv4_udp_sock net addr portnr =
     (case c_getaddrinfo net addr (decimal (uint portnr))
             \<lparr>hint_family = AF_INET, hint_socktype = SOCK_DGRAM, hint_flags = AI_PASSIVE\<rparr> of
        None \<Rightarrow> Inl (Exit BT_EXIT_NETWORK_ERROR)
      | Some ai \<Rightarrow>
          if c_socket net (ai_family net ai) (ai_socktype net ai) (ai_protocol net ai) = -1
          then Inl (Exit BT_EXIT_NETWORK_ERROR)
          else Inr (c_socket net (ai_family net ai) (ai_socktype net ai) (ai_protocol net ai), ai))"
  using sprintf_port_ok [of portnr] by (auto simp: bt_ipv4_udp_sock_def Let_def split: option.split)

end
