(* ===== verification/Bt_Tracker.thy ===== *)
theory Bt_Tracker
  imports Bt_Socket Bt_Pool
begin

text \<open>
  \<open>bttracker.c\<close>: the start of the program, the receive loop with the workers of the thread pool as a
  step relation, and the signal handler.
\<close>

declare str_simps [simp del]

section \<open>Starting\<close>

text \<open>The global \<open>config\<close> starts out zeroed.\<close>

definition zero_config :: bt_config_t where
  "zero_config = \<lparr>bttracker_addr = None, bttracker_port = 0, bttracker_log_level_mask = 0, thread_max = 0,
     thread_max_idle_time = 0, announce_wait_time = 0, announce_peer_ttl = 0, announce_max_numwant = 0,
     redis_socket_path = None, redis_host = None, redis_port = 0, redis_timeout = 0, redis_db = 0,
     redis_key_prefix = None, info_hash_restriction = BT_RESTRICTION_NONE\<rparr>"

text \<open>What the program holds when it enters the receive loop.\<close>

record 'a started =
  st_config :: bt_config_t
  st_pool :: thread_pool
  in_sock :: int
  in_addrinfo :: 'a

definition bt_main :: "'k gkeyfile_api \<Rightarrow> 'a socket_api \<Rightarrow> bytes list \<Rightarrow> 'a started result" where
  "bt_main gkf net argv =
     (if length argv \<noteq> 2 then Inl (Exit BT_EXIT_CONFIG_ERROR)
      else bindE (bt_load_config gkf (argv ! 1) zero_config) (\<lambda>(ok, config).
        if \<not> ok then Inl (Exit BT_EXIT_CONFIG_ERROR)
        else
          let pool = bt_new_request_processor_pool config
          in bindE (bt_ipv4_udp_sock net (bttracker_addr config) (bttracker_port config)) (\<lambda>(sock, addrinfo).
             if c_bind net sock addrinfo = -1 then Inl (Exit BT_EXIT_NETWORK_ERROR)
             else Inr \<lparr>st_config = config, st_pool = pool, in_sock = sock, in_addrinfo = addrinfo\<rparr>)))"

lemma bt_ipv4_udp_sock_fault:
  "bt_ipv4_udp_sock net addr portnr = Inl e \<Longrightarrow> e = Exit BT_EXIT_NETWORK_ERROR"
  using sprintf_port_ok [of portnr] by (auto simp: bt_ipv4_udp_sock_def Let_def split: option.splits if_splits)

lemma bt_load_config_fault:
  assumes "bt_load_config gkf filename config = Inl e"
  shows "e = Null_Dereference \<and> (\<exists>kf. g_key_file_load_from_file gkf filename = Some kf \<and>
    (g_key_file_get_string gkf kf ''Announce'' ''InfoHashRestriction'' = None \<or>
     g_key_file_get_string gkf kf ''BtTracker'' ''LogLevel'' = None))"
  using assms
  by (auto simp: bt_load_config_def Let_def bindE_eq_Inl restriction_of_string_def log_level_of_string_def deref_def
      split: option.splits if_splits)

lemma bt_load_config_unreadable:
  "bt_load_config gkf filename config = Inr (False, config') \<Longrightarrow> g_key_file_load_from_file gkf filename = None"
  by (auto simp: bt_load_config_def Let_def bindE_eq_Inr split: option.splits)


text \<open>An environment in which everything succeeds, with the configuration of the tests.\<close>

definition test_net :: "unit socket_api" where
  "test_net = \<lparr>c_getaddrinfo = (\<lambda>_ _ _. Some ()), ai_family = (\<lambda>_. 2), ai_socktype = (\<lambda>_. 2), ai_protocol = (\<lambda>_. 17),
     c_socket = (\<lambda>_ _ _. 3), c_bind = (\<lambda>_ _. 0)\<rparr>"


section \<open>The running program\<close>

text \<open>
  A worker is idle, has taken a job, or has a response (or none) to send. The main thread serves,
  waits in \<open>on_sigterm\<close> for the workers to finish, or has ended by the signal.
\<close>

datatype activity =
    Idle
  | Busy bt_job_params_t
  | Answering bt_job_params_t "bt_response_buffer_t option"

datatype phase = Serving | Stopping int | Terminated int

text \<open>
  \<open>si_other\<close> is the local variable of \<open>main\<close> that \<open>recvfrom\<close> fills and every job points to.
  \<open>received\<close> and \<open>sent\<close> record the datagrams that came in and went out; nothing reads them.
\<close>

record ('c, 's) tracker =
  t_config :: bt_config_t
  t_sock :: int
  t_workers :: nat
  t_world :: "'s world"
  si_other :: sockaddr_in
  t_queue :: "bt_job_params_t list"
  t_tls :: "nat \<Rightarrow> 'c option"
  t_act :: "nat \<Rightarrow> activity"
  t_phase :: phase
  received :: "(bytes \<times> sockaddr_in) list"
  sent :: "datagram list"

definition sizeof_bt_job_params_t :: nat where
  "sizeof_bt_job_params_t = 40"

definition sizeof_sockaddr_in :: nat where
  "sizeof_sockaddr_in = 16"

text \<open>
  The job for a datagram: the whole stack buffer is cloned, of which \<open>recvfrom\<close> has overwritten the
  first bytes; \<open>junk\<close> is what it held before. Neither \<open>malloc\<close> is checked.
\<close>

definition receive_job :: "int \<Rightarrow> bytes \<Rightarrow> bytes \<Rightarrow> 's world \<Rightarrow> (bt_job_params_t \<times> 's world) result" where
  "receive_job sock dat junk w =
     bindE (malloc_unchecked BT_RECV_BUFLEN w) (\<lambda>(_, w).
     bindE (malloc_unchecked sizeof_bt_job_params_t w) (\<lambda>(_, w).
     Inr (\<lparr>job_buff = dat @ drop (length dat) junk, job_buflen = of_nat (length dat),
           job_sock = sock, job_from_addr_len = sizeof_sockaddr_in\<rparr>, w)))"

text \<open>
  The steps. The main thread receives a datagram and pushes its job, or \<open>recvfrom\<close> fails and it goes
  on; a signal makes it drop the queue (\<open>g_thread_pool_free\<close> with \<open>immediate\<close>) and wait for the running
  workers (\<open>wait\<close>), after which the signal is raised again and ends the program. A worker takes the
  next job, handles it, and sends the response; handling and sending read \<open>si_other\<close> through the
  pointer of the job.
\<close>

inductive tracker_step :: "('c, 's) hiredis_api \<Rightarrow> ('c, 's) tracker \<Rightarrow> ('c, 's) tracker \<Rightarrow> bool"
  for api :: "('c, 's) hiredis_api" where
  recv_error: "t_phase t = Serving \<Longrightarrow> tracker_step api t t"
| recv: "t_phase t = Serving \<Longrightarrow> length dat \<le> BT_RECV_BUFLEN \<Longrightarrow> length junk = BT_RECV_BUFLEN \<Longrightarrow>
    receive_job (t_sock t) dat junk (t_world t) = Inr (job, w) \<Longrightarrow>
    tracker_step api t (t\<lparr>si_other := addr, t_world := w, t_queue := t_queue t @ [job],
      received := received t @ [(dat, addr)]\<rparr>)"
| take_job: "t_phase t = Serving \<Longrightarrow> i < t_workers t \<Longrightarrow> t_act t i = Idle \<Longrightarrow> t_queue t = job # jobs \<Longrightarrow>
    tracker_step api t (t\<lparr>t_queue := jobs, t_act := (t_act t)(i := Busy job)\<rparr>)"
| handle: "t_act t i = Busy job \<Longrightarrow>
    process_request api (t_config t) job (si_other t) (t_tls t i) (t_world t) = Inr ((resp, tls), w) \<Longrightarrow>
    tracker_step api t (t\<lparr>t_world := w, t_tls := (t_tls t)(i := tls), t_act := (t_act t)(i := Answering job resp)\<rparr>)"
| send: "t_act t i = Answering job resp \<Longrightarrow>
    tracker_step api t (t\<lparr>t_act := (t_act t)(i := Idle),
      sent := sent t @ send_response job resp (si_other t) (t_world t)\<rparr>)"
| on_sigterm: "t_phase t = Serving \<Longrightarrow>
    tracker_step api t (t\<lparr>t_phase := Stopping signum, t_queue := []\<rparr>)"
| raise_signal: "t_phase t = Stopping signum \<Longrightarrow> (\<And>i. t_act t i = Idle) \<Longrightarrow>
    tracker_step api t (t\<lparr>t_phase := Terminated signum\<rparr>)"

text \<open>The steps that end in undefined behaviour or leave the program.\<close>

inductive tracker_fault :: "('c, 's) hiredis_api \<Rightarrow> ('c, 's) tracker \<Rightarrow> fault \<Rightarrow> bool"
  for api :: "('c, 's) hiredis_api" where
  recv_fault: "t_phase t = Serving \<Longrightarrow> length dat \<le> BT_RECV_BUFLEN \<Longrightarrow> length junk = BT_RECV_BUFLEN \<Longrightarrow>
    receive_job (t_sock t) dat junk (t_world t) = Inl e \<Longrightarrow> tracker_fault api t e"
| handle_fault: "t_act t i = Busy job \<Longrightarrow>
    process_request api (t_config t) job (si_other t) (t_tls t i) (t_world t) = Inl e \<Longrightarrow> tracker_fault api t e"

definition tracker_init :: "'a started \<Rightarrow> 's world \<Rightarrow> ('c, 's) tracker" where
  "tracker_init st w =
     \<lparr>t_config = st_config st, t_sock = in_sock st, t_workers = nat (max_threads (st_pool st)), t_world = w,
      si_other = \<lparr>sin_port = 0, s_addr = 0\<rparr>, t_queue = [], t_tls = (\<lambda>_. None), t_act = (\<lambda>_. Idle),
      t_phase = Serving, received = [], sent = []\<rparr>"

inductive reachable :: "('c, 's) hiredis_api \<Rightarrow> ('c, 's) tracker \<Rightarrow> ('c, 's) tracker \<Rightarrow> bool"
  for api :: "('c, 's) hiredis_api" and t0 :: "('c, 's) tracker" where
  start: "reachable api t0 t0"
| step: "reachable api t0 t \<Longrightarrow> tracker_step api t t' \<Longrightarrow> reachable api t0 t'"

section \<open>Invariants of the running program\<close>

text \<open>The jobs that are queued or in the hands of a worker.\<close>

definition jobs_of :: "('c, 's) tracker \<Rightarrow> bt_job_params_t set" where
  "jobs_of t = set (t_queue t) \<union> {job. \<exists>i. t_act t i = Busy job \<or> (\<exists>resp. t_act t i = Answering job resp)}"

text \<open>A job that holds a datagram which was received, in a buffer of the full length.\<close>

definition faithful :: "('c, 's) tracker \<Rightarrow> bt_job_params_t \<Rightarrow> bool" where
  "faithful t job \<longleftrightarrow> (\<exists>dat addr. (dat, addr) \<in> set (received t) \<and> length dat \<le> BT_RECV_BUFLEN \<and>
     length (job_buff job) = BT_RECV_BUFLEN \<and> take (length dat) (job_buff job) = dat \<and>
     job_buflen job = of_nat (length dat) \<and> job_sock job = t_sock t)"

definition jobs_inv :: "('c, 's) tracker \<Rightarrow> bool" where
  "jobs_inv t \<longleftrightarrow> (\<forall>job \<in> jobs_of t. faithful t job)"

definition busy :: "('c, 's) tracker \<Rightarrow> nat set" where
  "busy t = {i. t_act t i \<noteq> Idle}"

definition count_inv :: "('c, 's) tracker \<Rightarrow> bool" where
  "count_inv t \<longleftrightarrow> busy t \<subseteq> {..<t_workers t} \<and>
     length (sent t) + length (t_queue t) + card (busy t) \<le> length (received t)"

definition addr_inv :: "('c, 's) tracker \<Rightarrow> bool" where
  "addr_inv t \<longleftrightarrow> (received t \<noteq> [] \<longrightarrow> si_other t = snd (last (received t))) \<and>
     (\<forall>dg \<in> set (sent t). dg_sock dg = t_sock t \<and> dg_to dg \<in> snd ` set (received t))"

definition phase_inv :: "('c, 's) tracker \<Rightarrow> bool" where
  "phase_inv t \<longleftrightarrow> (t_phase t \<noteq> Serving \<longrightarrow> t_queue t = []) \<and> (\<forall>n. t_phase t = Terminated n \<longrightarrow> busy t = {})"

lemma receive_job_eq:
  assumes "receive_job sock dat junk w = Inr (job, w')"
  shows "job = \<lparr>job_buff = dat @ drop (length dat) junk, job_buflen = of_nat (length dat),
      job_sock = sock, job_from_addr_len = sizeof_sockaddr_in\<rparr>" "same_env w w'" "server w' = server w"
  using assms
  by (auto simp: receive_job_def malloc_unchecked_def malloc_def bindE_eq_Inr split: if_splits)

lemma tracker_step_constant:
  "tracker_step api t t' \<Longrightarrow> t_config t' = t_config t \<and> t_sock t' = t_sock t \<and> t_workers t' = t_workers t"
  by (induction rule: tracker_step.induct) auto

lemma received_grows: "tracker_step api t t' \<Longrightarrow> set (received t) \<subseteq> set (received t')"
  by (induction rule: tracker_step.induct) auto

lemma faithful_step: "tracker_step api t t' \<Longrightarrow> faithful t job \<Longrightarrow> faithful t' job"
  using received_grows [of api t t'] tracker_step_constant [of api t t'] by (fastforce simp: faithful_def)

text \<open>A step adds at most the job of the datagram it receives.\<close>

lemma jobs_of_step: "tracker_step api t t' \<Longrightarrow> job \<in> jobs_of t' \<Longrightarrow> job \<in> jobs_of t \<or> faithful t' job"
proof (induction rule: tracker_step.induct)
  case (recv t dat junk job' w addr)
  have job': "job_buff job' = dat @ drop (length dat) junk" "job_buflen job' = of_nat (length dat)" "job_sock job' = t_sock t"
    using receive_job_eq(1) [OF recv(4)] by simp_all
  have "faithful (t\<lparr>si_other := addr, t_world := w, t_queue := t_queue t @ [job'],
      received := received t @ [(dat, addr)]\<rparr>) job'"
    unfolding faithful_def using recv(2,3) job' by (intro exI [of _ dat] exI [of _ addr]) simp
  moreover have "job \<in> jobs_of t \<or> job = job'" using recv(5) by (auto simp: jobs_of_def)
  ultimately show ?case by blast
qed (fastforce simp: jobs_of_def split: if_splits)+

lemma jobs_inv_step: "tracker_step api t t' \<Longrightarrow> jobs_inv t \<Longrightarrow> jobs_inv t'"
  using jobs_of_step [of api t t'] faithful_step [of api t t'] unfolding jobs_inv_def by blast

lemma length_send_response: "length (send_response job resp addr w) \<le> 1"
  by (simp add: send_response_def split: option.split)

lemma count_inv_step: "tracker_step api t t' \<Longrightarrow> count_inv t \<Longrightarrow> count_inv t'"
proof (induction rule: tracker_step.induct)
  case (take_job t i job jobs)
  have fin: "finite (busy t)" "i \<notin> busy t"
    using take_job by (auto simp: count_inv_def busy_def intro: finite_subset)
  have "busy (t\<lparr>t_queue := jobs, t_act := (t_act t)(i := Busy job)\<rparr>) = insert i (busy t)"
    using take_job(3) by (auto simp: busy_def)
  then show ?case using take_job fin by (simp add: count_inv_def)
next
  case (handle t i job resp tls w)
  have "busy (t\<lparr>t_world := w, t_tls := (t_tls t)(i := tls), t_act := (t_act t)(i := Answering job resp)\<rparr>) = busy t"
    using handle(1) by (auto simp: busy_def)
  then show ?case using handle(3) by (simp add: count_inv_def)
next
  case (send t i job resp)
  let ?sent = "send_response job resp (si_other t) (t_world t)"
  have i: "i \<in> busy t" and fin: "finite (busy t)"
    using send by (auto simp: count_inv_def busy_def intro: finite_subset)
  have "busy (t\<lparr>t_act := (t_act t)(i := Idle), sent := sent t @ ?sent\<rparr>) = busy t - {i}"
    by (auto simp: busy_def)
  moreover have "length ?sent + card (busy t - {i}) \<le> card (busy t)"
    using length_send_response [of job resp "si_other t" "t_world t"] card_Suc_Diff1 [OF fin i] by linarith
  ultimately show ?case using send(2) by (auto simp: count_inv_def)
qed (auto simp: count_inv_def busy_def)

lemma busy_worker: "count_inv t \<Longrightarrow> t_act t i \<noteq> Idle \<Longrightarrow> i < t_workers t"
  unfolding count_inv_def busy_def by blast

lemma count_inv_received: "count_inv t \<Longrightarrow> t_act t i \<noteq> Idle \<Longrightarrow> received t \<noteq> []"
  using card_gt_0_iff [of "busy t"] by (auto simp: count_inv_def busy_def intro: finite_subset)

lemma addr_inv_step:
  assumes "tracker_step api t t'" "addr_inv t" "jobs_inv t" "count_inv t"
  shows "addr_inv t'"
  using assms
proof (induction rule: tracker_step.induct)
  case (send t i job resp)
  have "received t \<noteq> []" using count_inv_received [OF send(4), of i] send(1) by simp
  then have "si_other t \<in> snd ` set (received t)" using send(2) by (simp add: addr_inv_def)
  moreover have "job_sock job = t_sock t"
    using send(1,3) by (force simp: jobs_inv_def jobs_of_def faithful_def)
  ultimately show ?case
    using send(2) by (cases resp) (simp_all add: addr_inv_def send_response_def)
qed (auto simp: addr_inv_def)

lemma phase_inv_step: "tracker_step api t t' \<Longrightarrow> phase_inv t \<Longrightarrow> phase_inv t'"
  by (induction rule: tracker_step.induct) (auto simp: phase_inv_def busy_def split: if_splits)

text \<open>All of them hold from the start.\<close>

definition tracker_inv :: "('c, 's) tracker \<Rightarrow> bool" where
  "tracker_inv t \<longleftrightarrow> jobs_inv t \<and> count_inv t \<and> addr_inv t \<and> phase_inv t"

lemma tracker_inv_init: "tracker_inv (tracker_init st w)"
  by (simp add: tracker_inv_def tracker_init_def jobs_inv_def jobs_of_def count_inv_def busy_def addr_inv_def phase_inv_def)

lemma tracker_inv_step: "tracker_step api t t' \<Longrightarrow> tracker_inv t \<Longrightarrow> tracker_inv t'"
  unfolding tracker_inv_def using jobs_inv_step count_inv_step addr_inv_step phase_inv_step by blast

lemma tracker_inv_reachable: "reachable api t0 t \<Longrightarrow> tracker_inv t0 \<Longrightarrow> tracker_inv t"
  by (induction rule: reachable.induct) (auto intro: tracker_inv_step)

text \<open>
  C14. In every reachable state, each job that is queued, being handled or being answered carries an
  unaltered datagram that was received, in a private buffer of the full receive length: later
  datagrams do not disturb the requests of earlier ones.
\<close>

theorem jobs_carry_received_datagrams:
  assumes "reachable api (tracker_init st w) t" "job \<in> jobs_of t"
  shows "\<exists>dat addr. (dat, addr) \<in> set (received t) \<and> length dat \<le> BT_RECV_BUFLEN \<and>
    length (job_buff job) = BT_RECV_BUFLEN \<and> take (length dat) (job_buff job) = dat \<and>
    job_buflen job = of_nat (length dat) \<and> job_sock job = t_sock t"
  using tracker_inv_reachable [OF assms(1) tracker_inv_init] assms(2)
  by (simp add: tracker_inv_def jobs_inv_def faithful_def)

text \<open>
  C15. In every reachable state, the datagrams sent, the jobs queued and the busy workers together are
  no more than the datagrams received, no more workers are busy than were configured, and every
  datagram sent went to an address from which one was received.
\<close>

theorem answers_bounded_by_requests:
  assumes "reachable api (tracker_init st w) t"
  shows "length (sent t) + length (t_queue t) + card (busy t) \<le> length (received t) \<and>
    card (busy t) \<le> nat (max_threads (st_pool st)) \<and>
    (\<forall>dg \<in> set (sent t). dg_sock dg = in_sock st \<and> dg_to dg \<in> snd ` set (received t))"
proof -
  have inv: "tracker_inv t" by (rule tracker_inv_reachable [OF assms tracker_inv_init])
  have "t_sock t = in_sock st \<and> t_workers t = nat (max_threads (st_pool st))"
    using assms by (induction rule: reachable.induct) (auto simp: tracker_init_def dest: tracker_step_constant)
  moreover have "card (busy t) \<le> t_workers t"
    using inv card_mono [of "{..<t_workers t}" "busy t"] by (simp add: tracker_inv_def count_inv_def)
  ultimately show ?thesis using inv by (auto simp: tracker_inv_def count_inv_def addr_inv_def)
qed

section \<open>Shutting down\<close>

text \<open>How many steps the workers still have to make.\<close>

definition work_left :: "activity \<Rightarrow> nat" where
  "work_left a = (case a of Idle \<Rightarrow> 0 | Answering _ _ \<Rightarrow> 1 | Busy _ \<Rightarrow> 2)"

definition shutdown_left :: "('c, 's) tracker \<Rightarrow> nat" where
  "shutdown_left t = (\<Sum>i < t_workers t. work_left (t_act t i)) + (case t_phase t of Terminated _ \<Rightarrow> 0 | _ \<Rightarrow> 1)"

lemma sum_work_left_upd:
  assumes "i < (n :: nat)"
  shows "(\<Sum>j < n. work_left ((f(i := a)) j)) + work_left (f i) = (\<Sum>j < n. work_left (f j)) + work_left a"
proof -
  have "(\<Sum>j < n. work_left (g j)) = work_left (g i) + (\<Sum>j \<in> {..<n} - {i}. work_left (g j))" for g
    using assms by (intro sum.remove) auto
  from this [of "f(i := a)"] this [of f] show ?thesis by simp
qed

lemma shutdown_step:
  assumes "tracker_step api t t'" "t_phase t \<noteq> Serving" "tracker_inv t"
  shows "shutdown_left t' < shutdown_left t \<and> t_phase t' \<noteq> Serving \<and>
    (\<forall>n. t_phase t = Stopping n \<longrightarrow> t_phase t' = Stopping n \<or> t_phase t' = Terminated n)"
  using assms
proof (induction rule: tracker_step.induct)
  case (handle t i job resp tls w)
  then have "i < t_workers t" using busy_worker [of t i] by (simp add: tracker_inv_def)
  from sum_work_left_upd [OF this, of "t_act t" "Answering job resp"] show ?case
    using handle by (auto simp: shutdown_left_def work_left_def)
next
  case (send t i job resp)
  then have "i < t_workers t" using busy_worker [of t i] by (simp add: tracker_inv_def)
  from sum_work_left_upd [OF this, of "t_act t" Idle] show ?case
    using send by (auto simp: shutdown_left_def work_left_def)
qed (auto simp: shutdown_left_def)

text \<open>
  C16. Once \<open>on_sigterm\<close> has been entered, the program shuts down: every further step brings it nearer
  to its end and none takes it back to serving, so that no more steps follow than two for each
  worker and one; and as long as it has not ended, either a step is possible or a worker runs into a
  fault.
\<close>

theorem shutdown_terminates:
  assumes "reachable api (tracker_init st w) t" "t_phase t = Stopping signum"
  shows "(\<forall>t'. tracker_step api t t' \<longrightarrow> shutdown_left t' < shutdown_left t \<and>
      (t_phase t' = Stopping signum \<or> t_phase t' = Terminated signum)) \<and>
    shutdown_left t \<le> 2 * t_workers t + 1 \<and>
    ((\<exists>t'. tracker_step api t t') \<or> (\<exists>e. tracker_fault api t e))"
proof (intro conjI allI impI)
  have inv: "tracker_inv t" by (rule tracker_inv_reachable [OF assms(1) tracker_inv_init])
  fix t' assume "tracker_step api t t'"
  from shutdown_step [OF this _ inv] show "shutdown_left t' < shutdown_left t"
    "t_phase t' = Stopping signum \<or> t_phase t' = Terminated signum"
    using assms(2) by auto
next
  have "(\<Sum>i < t_workers t. work_left (t_act t i)) \<le> (\<Sum>i < t_workers t. 2)"
    by (intro sum_mono) (simp add: work_left_def split: activity.split)
  then show "shutdown_left t \<le> 2 * t_workers t + 1" using assms(2) by (simp add: shutdown_left_def)
next
  show "(\<exists>t'. tracker_step api t t') \<or> (\<exists>e. tracker_fault api t e)"
  proof (cases "\<forall>i. t_act t i = Idle")
    case True
    then show ?thesis using tracker_step.raise_signal [OF assms(2)] by blast
  next
    case False
    then obtain i where "t_act t i \<noteq> Idle" by blast
    then show ?thesis
    proof (cases "t_act t i")
      case (Busy job)
      show ?thesis
      proof (cases "process_request api (t_config t) job (si_other t) (t_tls t i) (t_world t)")
        case (Inl e)
        then show ?thesis using tracker_fault.handle_fault [OF Busy] by blast
      next
        case (Inr x)
        then show ?thesis using tracker_step.handle [OF Busy] by (metis prod.exhaust)
      qed
    next
      case (Answering job resp)
      then show ?thesis using tracker_step.send by blast
    qed simp
  qed
qed

section \<open>The shared address\<close>

text \<open>
  C31. While a worker holds a response, a datagram from any address \<open>addr\<close> redirects it: the response is
  sent to \<open>addr\<close> and not to the client that asked, because the job only points to the variable the
  main thread receives into.
\<close>

theorem answer_misdirected:
  assumes "reachable api (tracker_init st w) t" "t_phase t = Serving" "t_act t i = Answering job (Some resp)"
    "memory_available (t_world t)"
  shows "\<exists>t'. reachable api (tracker_init st w) t' \<and>
    sent t' = sent t @ [\<lparr>dg_sock = job_sock job,
      dg_data = take (resp_length resp) (sent_bytes (t_world t) (resp_data resp)), dg_to = addr\<rparr>]"
proof -
  obtain job' w' where job': "receive_job (t_sock t) [] (replicate BT_RECV_BUFLEN 0) (t_world t) = Inr (job', w')"
    using assms(4) by (simp add: receive_job_def)
  let ?t1 = "t\<lparr>si_other := addr, t_world := w', t_queue := t_queue t @ [job'], received := received t @ [([], addr)]\<rparr>"
  have 1: "reachable api (tracker_init st w) ?t1"
    using reachable.step [OF assms(1) tracker_step.recv [OF assms(2) _ _ job']] by simp
  have "t_act ?t1 i = Answering job (Some resp)" using assms(3) by simp
  from reachable.step [OF 1 tracker_step.send [OF this]]
  have "reachable api (tracker_init st w) (?t1\<lparr>t_act := (t_act ?t1)(i := Idle),
      sent := sent ?t1 @ send_response job (Some resp) (si_other ?t1) (t_world ?t1)\<rparr>)" .
  moreover have "sent_bytes w' = sent_bytes (t_world t)"
    using same_env_keeps(3) [OF receive_job_eq(2) [OF job']] .
  ultimately show ?thesis by (intro exI conjI) (assumption, simp add: send_response_def)
qed

section \<open>Short datagrams\<close>

text \<open>
  C37. An announce of 20 bytes is accepted although the packet has 98: the missing fields are read from
  what the receive buffer held before. After a datagram \<open>r\<close>, its first 20 bytes alone are handled as
  if all of \<open>r\<close> had been sent again.
\<close>

theorem short_announce_completed_from_stale_bytes:
  assumes "tracker_store api view pending config prefix" "pending redis (server w) = []"
    "db_ok prefix (view redis (server w))" "length (info_hash r) = 20" "length (peer_id r) = 20"
    "action r = BT_ACTION_ANNOUNCE" "length pad = BT_RECV_BUFLEN - 98"
    "receive_job sock (take 20 (encode_announce_request r)) (encode_announce_request r @ pad) w0 = Inr (job, w1)"
  shows "bt_read_announce_request_data (job_buff job) = Inr r \<and>
    (\<exists>w'. bt_valid_request api redis config (bt_req_t.truncate r) (job_buflen job) w = Inr (True, w'))"
proof -
  have len: "length (encode_announce_request r) = 98"
    using assms(4,5) by (simp add: encode_announce_request_def encode_request_def)
  have job: "job_buff job = encode_announce_request r @ pad" "job_buflen job = 20"
    using receive_job_eq(1) [OF assms(8)] len by simp_all
  have "request_accepted prefix (view redis (server w)) (bt_req_t.truncate r) (job_buflen job)"
    using assms(6) job(2) db_ok_lists(3) [OF assms(3)] by (simp add: request_accepted_def bt_req_t.truncate_def)
  then show ?thesis
    using tracker_store.valid_request_effect [OF assms(1,2), of "bt_req_t.truncate r" "job_buflen job"]
      announce_request_decoded [OF assms(4,5), of pad] job(1) by auto
qed

theorem short_announce_completed_from_stale_bytes_witness:
  "\<exists>job w1 w'. receive_job 3 (take 20 (encode_announce_request example_announce))
       (encode_announce_request example_announce @ replicate 1398 0) (quiet_world ref_empty) = Inr (job, w1) \<and>
     job_buflen job = 20 \<and> bt_read_announce_request_data (job_buff job) = Inr example_announce \<and>
     bt_valid_request ref_api 0 test_config (bt_req_t.truncate example_announce) (job_buflen job)
       (quiet_world ref_empty) = Inr (True, w')"
proof -
  have len: "length (encode_announce_request example_announce) = 98"
    by (simp add: encode_announce_request_def encode_request_def)
  obtain job w1 where job: "receive_job 3 (take 20 (encode_announce_request example_announce))
      (encode_announce_request example_announce @ replicate 1398 0) (quiet_world ref_empty) = Inr (job, w1)"
    by (simp add: receive_job_def)
  have "job_buflen job = 20" using receive_job_eq(1) [OF job] len by simp
  then show ?thesis
    using short_announce_completed_from_stale_bytes [OF ref_tracker, of 0 "quiet_world ref_empty" example_announce
        "replicate 1398 0" 3 "quiet_world ref_empty" job w1] job
    by (auto simp: BT_RECV_BUFLEN_def)
qed

section \<open>Examples\<close>

text \<open>A client at one address sends a request while the data storage is down.\<close>

definition example_started :: "unit started" where
  "example_started = \<lparr>st_config = test_config, st_pool = bt_new_request_processor_pool test_config,
     in_sock = 3, in_addrinfo = ()\<rparr>"

definition example_request :: bytes where
  "example_request = encode_request \<lparr>connection_id = BT_PROTOCOL_ID, action = BT_ACTION_CONNECT, transaction_id = 77\<rparr>"

definition example_job :: bt_job_params_t where
  "example_job = \<lparr>job_buff = example_request @ replicate 1480 0, job_buflen = 16, job_sock = 3, job_from_addr_len = 16\<rparr>"

definition example_client :: sockaddr_in where
  "example_client = \<lparr>sin_port = 1, s_addr = 1\<rparr>"

abbreviation example_init :: "'s \<Rightarrow> (nat, 's) tracker" where
  "example_init s \<equiv> tracker_init example_started (quiet_world s)"

definition example_received :: "'s \<Rightarrow> (nat, 's) tracker" where
  "example_received s = (example_init s)\<lparr>si_other := example_client, t_world := (quiet_world s)\<lparr>malloc_pos := 2\<rparr>,
     t_queue := [example_job], received := [(example_request, example_client)]\<rparr>"

lemma length_example_request [simp]: "length example_request = 16"
  by (simp add: example_request_def encode_request_def)

lemma example_request_read:
  "bt_read_request_data (job_buff example_job) =
     Inr \<lparr>connection_id = BT_PROTOCOL_ID, action = BT_ACTION_CONNECT, transaction_id = 77\<rparr>"
  using bt_read_request_data_encode [of "\<lparr>connection_id = BT_PROTOCOL_ID, action = BT_ACTION_CONNECT,
      transaction_id = 77\<rparr>" "replicate 1480 0"]
  by (simp add: example_job_def example_request_def bt_req_t.truncate_def)

lemma example_received_step: "tracker_step api (example_init s) (example_received s)"
proof -
  have "receive_job 3 example_request (replicate BT_RECV_BUFLEN 0) (quiet_world s) =
      Inr (example_job, (quiet_world s)\<lparr>malloc_pos := 2\<rparr>)"
    by (simp add: receive_job_def example_job_def BT_RECV_BUFLEN_def sizeof_sockaddr_in_def quiet_world_def memory_available_def)
  then have "tracker_step api (example_init s) ((example_init s)\<lparr>si_other := example_client,
      t_world := (quiet_world s)\<lparr>malloc_pos := 2\<rparr>, t_queue := t_queue (example_init s) @ [example_job],
      received := received (example_init s) @ [(example_request, example_client)]\<rparr>)"
    by (intro tracker_step.recv [where junk = "replicate BT_RECV_BUFLEN 0"])
      (simp_all add: tracker_init_def example_started_def BT_RECV_BUFLEN_def)
  then show ?thesis by (simp add: example_received_def tracker_init_def)
qed

lemma example_received_reachable: "reachable api (example_init s) (example_received s)"
  by (rule reachable.step [OF reachable.start example_received_step])

lemma example_received_simps [simp]:
  "t_phase (example_received s) = Serving" "t_workers (example_received s) = 4" "t_act (example_received s) i = Idle"
  "t_queue (example_received s) = [example_job]" "t_tls (example_received s) i = None" "sent (example_received s) = []"
  "t_config (example_received s) = test_config" "t_world (example_received s) = (quiet_world s)\<lparr>malloc_pos := 2\<rparr>"
  "received (example_received s) = [(example_request, example_client)]"
  by (simp_all add: example_received_def tracker_init_def example_started_def bt_new_request_processor_pool_def test_config_def)

text \<open>A worker takes the job.\<close>

definition example_busy :: "'s \<Rightarrow> (nat, 's) tracker" where
  "example_busy s = (example_received s)\<lparr>t_queue := [], t_act := (t_act (example_received s))(0 := Busy example_job)\<rparr>"

lemma example_busy_step: "tracker_step api (example_received s) (example_busy s)"
  unfolding example_busy_def by (rule tracker_step.take_job) simp_all

lemma example_busy_simps [simp]:
  "t_phase (example_busy s) = Serving" "t_act (example_busy s) = (t_act (example_received s))(0 := Busy example_job)"
  "t_tls (example_busy s) i = None" "sent (example_busy s) = []" "t_config (example_busy s) = test_config"
  "t_world (example_busy s) = (quiet_world s)\<lparr>malloc_pos := 2\<rparr>" "t_queue (example_busy s) = []"
  by (simp_all add: example_busy_def)

text \<open>The worker has its response: the error that the data storage is not working.\<close>

lemma example_answering_step:
  "\<exists>t. tracker_step down_api (example_busy ()) t \<and> t_phase t = Serving \<and> memory_available (t_world t) \<and> sent t = [] \<and>
     t_queue t = [] \<and> t_act t = (\<lambda>_. Idle)(0 := Answering example_job (Some \<lparr>resp_length = 125,
       resp_data = map Some (encode_error_response 77 storage_error) @ replicate 56 None\<rparr>))"
proof -
  let ?t1 = "example_busy ()"
  have mem: "memory_available (t_world ?t1)" by simp
  obtain w where w: "process_request down_api (t_config ?t1) example_job (si_other ?t1) (t_tls ?t1 0) (t_world ?t1) =
      Inr ((Some \<lparr>resp_length = 125, resp_data = map Some (encode_error_response 77 storage_error) @ replicate 56 None\<rparr>,
        None), w)" "same_env (t_world ?t1) w"
    using process_request_unreachable [OF down_unreachable mem example_request_read, of "t_config ?t1" "si_other ?t1" "t_tls ?t1 0"]
    by auto
  have "t_act ?t1 0 = Busy example_job" by simp
  from tracker_step.handle [OF this w(1)] show ?thesis
    using same_env_keeps(1) [OF w(2)] mem by (intro exI conjI) (assumption, simp_all add: fun_eq_iff)
qed

lemma example_answering:
  "\<exists>t. reachable down_api (example_init ()) t \<and> t_phase t = Serving \<and> memory_available (t_world t) \<and> sent t = [] \<and>
     t_act t 0 = Answering example_job (Some \<lparr>resp_length = 125,
       resp_data = map Some (encode_error_response 77 storage_error) @ replicate 56 None\<rparr>)"
  using example_answering_step reachable.step [OF reachable.step [OF example_received_reachable example_busy_step]] by fastforce

theorem answer_misdirected_witness:
  "\<exists>t dg. reachable down_api (example_init ()) t \<and> sent t = [dg] \<and> dg_to dg = \<lparr>sin_port = 9, s_addr = 9\<rparr> \<and>
     dg_to dg \<noteq> example_client \<and> take 69 (dg_data dg) = encode_error_response 77 storage_error"
proof -
  obtain t where t: "reachable down_api (example_init ()) t" "t_phase t = Serving" "memory_available (t_world t)" "sent t = []"
     "t_act t 0 = Answering example_job (Some \<lparr>resp_length = 125,
       resp_data = map Some (encode_error_response 77 storage_error) @ replicate 56 None\<rparr>)"
    using example_answering by blast
  have "length (encode_error_response 77 storage_error) = 69"
    by (simp add: encode_error_response_def storage_error_def)
  then show ?thesis
    using answer_misdirected [OF t(1,2,5,3), of "\<lparr>sin_port = 9, s_addr = 9\<rparr>"] t(4)
    by (auto simp: sent_bytes_initialised example_client_def)
qed

theorem jobs_carry_received_datagrams_witness:
  "\<exists>dat addr. (dat, addr) \<in> set (received (example_received ())) \<and> take (length dat) (job_buff example_job) = dat"
  using jobs_carry_received_datagrams [OF example_received_reachable [where s = "()"], of example_job]
  by (auto simp: jobs_of_def)

theorem answers_bounded_by_requests_witness:
  "length (sent (example_received ())) + length (t_queue (example_received ())) + card (busy (example_received ())) \<le>
     length (received (example_received ())) \<and> length (received (example_received ())) = 1"
  using answers_bounded_by_requests [OF example_received_reachable [where s = "()"]] by simp

theorem shutdown_terminates_witness:
  "shutdown_left ((example_init ())\<lparr>t_phase := Stopping 15, t_queue := []\<rparr>) \<le> 9 \<and>
   (\<exists>t. tracker_step down_api ((example_init ())\<lparr>t_phase := Stopping 15, t_queue := []\<rparr>) t) "
proof -
  let ?t = "(example_init ())\<lparr>t_phase := Stopping 15, t_queue := []\<rparr>"
  have "t_phase (example_init ()) = Serving" by (simp add: tracker_init_def)
  from reachable.step [OF reachable.start tracker_step.on_sigterm [OF this]]
  have r: "reachable down_api (example_init ()) ?t" .
  have "t_workers ?t = 4"
    by (simp add: tracker_init_def example_started_def bt_new_request_processor_pool_def test_config_def)
  moreover have "\<not> tracker_fault down_api ?t e" for e
    by (auto simp: tracker_init_def elim!: tracker_fault.cases)
  ultimately show ?thesis using shutdown_terminates [OF r, of 15] by auto
qed

end
