(* ===== verification/Bt_Service.thy ===== *)
theory Bt_Service
  imports Bt_Frame Bt_Tracker
begin

text \<open>
  The whole program over one Redis server: the workers, each with a connection of its own, share the
  database, and the invariant of the database and the safety of the workers hold along every run.
\<close>

declare str_simps [simp del]

section \<open>Connections of the workers\<close>

context redis_service
begin

text \<open>Established connections other than the worker's stay as they are.\<close>

definition kept :: "'c option \<Rightarrow> 's world \<Rightarrow> 's world \<Rightarrow> bool" where
  "kept tls w w' \<longleftrightarrow> (\<forall>d. tls \<noteq> Some d \<longrightarrow> selected d (server w) \<noteq> None \<longrightarrow>
     selected d (server w') = selected d (server w) \<and> pending d (server w') = pending d (server w))"

lemma kept_refl [simp]: "kept tls w w"
  by (simp add: kept_def)

lemma kept_upd [simp]: "kept tls w (w'\<lparr>malloc_pos := n\<rparr>) = kept tls w w'"
  by (simp add: kept_def)

lemma kept_trans: "kept tls w w' \<Longrightarrow> kept tls' w' w'' \<Longrightarrow> tls' = tls \<or> (\<forall>c. tls' = Some c \<longrightarrow> selected c (server w) = None) \<Longrightarrow>
    kept tls w w''"
  unfolding kept_def by (metis option.exhaust)

lemma kept_new:
  "other_connections selected pending c (server w) (server w') \<Longrightarrow> selected c (server w) = None \<Longrightarrow> kept tls w w'"
  unfolding kept_def other_connections_def by metis

lemmas appended = append(2)

lemma calls_frame:
  assumes "calls api prefix c s s'" "select_free (pending c s)"
  shows "other_connections selected pending c s s' \<and> selected c s' = selected c s \<and> select_free (pending c s')"
  using assms
proof (induction rule: calls.induct)
  case (command s s' cmd)
  then show ?case
    using tracker_command_not_select [OF command(2)] command_frame [of c s' cmd "fst (redisCommand api c cmd s')" "snd (redisCommand api c cmd s')"]
    by (auto simp: other_connections_def)
next
  case (append s s' cmd)
  then show ?case
    using tracker_command_not_select [OF append(2)] append_frame [of c cmd s'] by (auto simp: other_connections_def appended)
next
  case (reply s s')
  then show ?case
    using reply_frame [of c s' "fst (redisGetReply api c s')" "snd (redisGetReply api c s')"]
    by (auto simp: other_connections_def)
qed (simp add: other_connections_def)

text \<open>Connecting: the other connections and the databases stay; the new one is on the requested database,
  if the server has it, and else on database 0.\<close>

lemma connect_effect:
  assumes "bt_redis_connect api path host portnr timeout n w = (conn, w')"
  shows "stores (server w') = stores (server w)" "kept None w w'"
    "conn = Some c \<Longrightarrow> selected c (server w) = None \<and> pending c (server w') = [] \<and>
       selected c (server w') = Some (if n \<in> databases then n else 0)"
proof -
  obtain c0 s where open0: "(case path of Some p \<Rightarrow> redisConnectUnixWithTimeout api p (0, timeout) (server w)
      | None \<Rightarrow> redisConnectWithTimeout api host portnr (0, timeout) (server w)) = (c0, s)"
    by fastforce
  have "stores (server w') = stores (server w) \<and> kept None w w' \<and>
    (\<forall>c. conn = Some c \<longrightarrow> selected c (server w) = None \<and> pending c (server w') = [] \<and>
       selected c (server w') = Some (if n \<in> databases then n else 0))"
  proof (cases c0)
    case None
    then have "stores s = stores (server w) \<and> selected d s = selected d (server w) \<and> pending d s = pending d (server w)" for d
      using open0 connect_fails [of _ "(0, timeout)" "server w" s] by (fastforce split: option.splits)
    then show ?thesis using assms open0 None by (auto simp: bt_redis_connect_def kept_def)
  next
    case (Some c1)
    then have new: "stores s = stores (server w)" "other_connections selected pending c1 (server w) s"
        "selected c1 (server w) = None" "redis_err api c1 s \<or> selected c1 s = Some 0 \<and> pending c1 s = []"
      using open0 connect [of _ "(0, timeout)" "server w" c1 s] by (fastforce split: option.splits)+
    show ?thesis
    proof (cases "redis_err api c1 s")
      case True
      then show ?thesis
        using assms open0 Some new free [of c1 s]
        by (auto simp: bt_redis_connect_def other_connections_def intro!: kept_new [of c1])
    next
      case False
      obtain r s' where sel: "redisCommand api c1 (SELECT n) s = (r, s')" by fastforce
      then show ?thesis
        using assms open0 Some False new select [of c1 s 0 n r s']
        by (auto simp: bt_redis_connect_def redis_command_def other_connections_def intro!: kept_new [of c1])
    qed
  qed
  then show "stores (server w') = stores (server w)" "kept None w w'"
    "conn = Some c \<Longrightarrow> selected c (server w) = None \<and> pending c (server w') = [] \<and>
       selected c (server w') = Some (if n \<in> databases then n else 0)"
    by simp_all
qed

end

text \<open>The server, with the configuration the tracker was started with.\<close>

locale tracker_service = redis_service api view pending selected stores databases
  for api :: "('c, 's) hiredis_api" and view :: "'c \<Rightarrow> 's \<Rightarrow> redis_db" and pending :: "'c \<Rightarrow> 's \<Rightarrow> redis_command list"
    and selected :: "'c \<Rightarrow> 's \<Rightarrow> int option" and stores :: "'s \<Rightarrow> int \<Rightarrow> redis_db" and databases :: "int set" +
  fixes config :: bt_config_t and prefix :: bytes
  assumes key_prefix: "redis_key_prefix config = Some prefix" "glob_free prefix"
    and peer_ttl: "0 < sint (announce_peer_ttl config)"
    and db_exists: "uint (redis_db config) \<in> databases"
begin

lemma tracker: "tracker_store api view pending config prefix"
  using key_prefix peer_ttl by unfold_locales

abbreviation dbno :: int where
  "dbno \<equiv> uint (redis_db config)"

abbreviation shared_db :: "'s world \<Rightarrow> redis_db" where
  "shared_db w \<equiv> stores (server w) dbno"

text \<open>A connection a worker may hold: on the configured database and with no reply unread.\<close>

definition ready :: "'s world \<Rightarrow> 'c \<Rightarrow> bool" where
  "ready w c \<longleftrightarrow> selected c (server w) = Some dbno \<and> pending c (server w) = []"

lemma ready_view: "ready w c \<Longrightarrow> view c (server w) = shared_db w"
  by (simp add: ready_def shared)

lemma ready_kept: "ready w c \<Longrightarrow> kept tls w w' \<Longrightarrow> tls \<noteq> Some c \<Longrightarrow> ready w' c"
  by (simp add: ready_def kept_def)

lemma calls_ready:
  assumes "calls_w api prefix c w w'" "ready w c" "pending c (server w') = []"
  shows "ready w' c" "kept (Some c) w w'"
  using calls_frame [of prefix c "server w" "server w'"] assms
  by (auto simp: calls_w_def ready_def kept_def other_connections_def)

text \<open>What a worker has when it comes to the handlers.\<close>

lemma acquire_effect:
  assumes "redis_acquire api config tls request w = ((redis, request', err, tls'), w')"
    "\<And>c. tls = Some c \<Longrightarrow> ready w c"
  shows "shared_db w' = shared_db w \<and> kept tls w w' \<and>
    (\<forall>c. redis = Some c \<longrightarrow> ready w' c \<and> (tls = Some c \<or> tls = None \<and> selected c (server w) = None))"
proof (cases tls)
  case None
  then show ?thesis
    using assms(1) connect_effect [of "redis_socket_path config" "redis_host config" "uint (redis_port config)"
        "redis_timeout_of config" dbno w] db_exists
    by (auto simp: redis_acquire_def redis_reconnect_def g_private_replace_def ready_def split: prod.splits)
next
  case (Some c)
  then have c: "ready w c" using assms(2) by simp
  then obtain r s where ping: "redis_command api c PING w = (Some r, w\<lparr>server := s\<rparr>)"
      "redis_ok (view c (server w)) PING r (view c s)" "pending c s = []"
    using tracker_store.run_command [OF tracker, of c w PING] by (auto simp: ready_def)
  let ?w1 = "w\<lparr>server := s\<rparr>"
  have w1: "redis_acquire api config (Some c) request w = ((Some c, request, None, Some c), ?w1)" "view c s = view c (server w)"
    using ping(1,2) by (auto simp: redis_acquire_def bt_redis_ping_def status_reply_def)
  have "calls_w api prefix c w ?w1" using redis_command_calls [OF ping(1), of prefix] by simp
  then have "ready ?w1 c" "kept (Some c) w ?w1" using calls_ready [of c w ?w1] c ping(3) by simp_all
  then show ?thesis using Some assms(1) w1 ready_view [OF c] ready_view [of ?w1 c] by auto
qed

text \<open>
  A worker handles a safe request: it ends with a response or none and with a connection that is
  ready, or without one; the database keeps its invariant and the other workers their connections.
\<close>

lemma process_request_shared:
  assumes tls: "\<And>c. tls = Some c \<Longrightarrow> ready w c"
    and db: "db_ok prefix (shared_db w)" "small_swarms prefix (shared_db w)"
    and env: "memory_available w" "rand_below_max w"
    and job: "length (job_buff job) = BT_RECV_BUFLEN"
      "\<And>request. bt_read_request_data (job_buff job) = Inr request \<Longrightarrow> safe_request request (job_buflen job)"
  shows "\<exists>resp tls' w'. process_request api config job addr tls w = Inr ((resp, tls'), w') \<and> same_env w w' \<and>
    db_ok prefix (shared_db w') \<and> kept tls w w' \<and>
    (\<forall>c. tls' = Some c \<longrightarrow> ready w' c \<and> (tls = Some c \<or> tls = None \<and> selected c (server w) = None))"
proof -
  obtain request where rd: "bt_read_request_data (job_buff job) = Inr request"
    using bt_read_request_data_total [of "job_buff job"] job(1) by (auto simp: BT_RECV_BUFLEN_def)
  obtain redis request' err tls' w1 where acq: "redis_acquire api config tls request w = ((redis, request', err, tls'), w1)"
    by (metis prod.exhaust)
  note got = acquire_effect [OF acq tls]
  have env1: "same_env w w1" using redis_acquire_env [of w api config tls request] acq by simp
  have mem: "memory_available w1" "rand_below_max w1" using env same_env_keeps [OF env1] by simp_all
  show ?thesis
  proof (cases redis)
    case None
    then have eq: "request' = request\<lparr>action := BT_ACTION_ERROR\<rparr>" "err = Some storage_error" "tls' = None"
      using acquire_cases [OF acq] by simp_all
    then show ?thesis
      using bt_send_error_eq [OF mem(1), of request' storage_error] got env1 db None
      by (auto simp: process_request_def rd acq dispatch_def)
  next
    case (Some c)
    then have eq: "request' = request" "err = None" "tls' = Some c" using acquire_cases [OF acq] by simp_all
    have c: "ready w1 c" "view c (server w1) = shared_db w" using got Some ready_view [of w1 c] by simp_all
    obtain resp w2 where d: "dispatch api config job addr (Some c) request None w1 = Inr (resp, w2)"
        "pending c (server w2) = []" "db_ok prefix (view c (server w2))" "same_env w1 w2"
      using dispatch_safe [OF tracker, of c w1 job request addr] c db mem job(1) job(2) [OF rd] by (auto simp: ready_def)
    have "calls_w api prefix c w1 w2" using dispatch_reaches [of api config c w1 job addr request None] d(1) key_prefix(1) by simp
    then have c2: "ready w2 c" "kept (Some c) w1 w2" using calls_ready [OF _ c(1) d(2)] by simp_all
    then have "kept tls w w2" using got Some by (auto intro: kept_trans)
    then show ?thesis
      using d c2 got Some eq ready_view [OF c2(1)] same_env_trans [OF env1 d(4)]
      by (auto simp: process_request_def rd acq)
  qed
qed

end

section \<open>Runs\<close>

text \<open>
  A state in which every request a worker has taken is safe and no swarm is larger than the
  shuffle of \<open>bt_peer_list\<close> is proved for, and the states reached through such states only.
\<close>

definition safe_job :: "bt_job_params_t \<Rightarrow> bool" where
  "safe_job job \<longleftrightarrow> (\<forall>request. bt_read_request_data (job_buff job) = Inr request \<longrightarrow> safe_request request (job_buflen job))"

definition calm :: "(('c, 's) tracker \<Rightarrow> redis_db) \<Rightarrow> bytes \<Rightarrow> ('c, 's) tracker \<Rightarrow> bool" where
  "calm dbof prefix t \<longleftrightarrow> small_swarms prefix (dbof t) \<and> (\<forall>i job. t_act t i = Busy job \<longrightarrow> safe_job job)"

inductive calm_run :: "('c, 's) hiredis_api \<Rightarrow> (('c, 's) tracker \<Rightarrow> redis_db) \<Rightarrow> bytes \<Rightarrow>
    ('c, 's) tracker \<Rightarrow> ('c, 's) tracker \<Rightarrow> bool"
  for api :: "('c, 's) hiredis_api" and dbof :: "('c, 's) tracker \<Rightarrow> redis_db" and prefix :: bytes
    and t0 :: "('c, 's) tracker" where
  start: "calm_run api dbof prefix t0 t0"
| step: "calm_run api dbof prefix t0 t \<Longrightarrow> calm dbof prefix t \<Longrightarrow> tracker_step api t t' \<Longrightarrow> calm_run api dbof prefix t0 t'"

lemma calm_run_reachable: "calm_run api dbof prefix t0 t \<Longrightarrow> reachable api t0 t"
  by (induction rule: calm_run.induct) (auto intro: reachable.intros)

context tracker_service
begin

definition database :: "('c, 's) tracker \<Rightarrow> redis_db" where
  "database t = shared_db (t_world t)"

text \<open>
  The invariant: the database is sound, every worker's connection is ready, no two workers share
  one, and the environment is a friendly one.
\<close>

definition service_inv :: "('c, 's) tracker \<Rightarrow> bool" where
  "service_inv t \<longleftrightarrow> t_config t = config \<and> memory_available (t_world t) \<and> rand_below_max (t_world t) \<and>
     db_ok prefix (database t) \<and>
     (\<forall>i c. t_tls t i = Some c \<longrightarrow> ready (t_world t) c) \<and>
     (\<forall>i j c. t_tls t i = Some c \<longrightarrow> t_tls t j = Some c \<longrightarrow> i = j)"

lemma handle_shared:
  assumes "service_inv t" "jobs_inv t" "calm database prefix t" "t_act t i = Busy job"
  obtains resp tls' w' where
    "process_request api (t_config t) job (si_other t) (t_tls t i) (t_world t) = Inr ((resp, tls'), w')"
    "same_env (t_world t) w'" "db_ok prefix (shared_db w')" "kept (t_tls t i) (t_world t) w'"
    "\<And>c. tls' = Some c \<Longrightarrow> ready w' c \<and> (t_tls t i = Some c \<or> selected c (server (t_world t)) = None)"
proof -
  have len: "length (job_buff job) = BT_RECV_BUFLEN" using assms(2,4) by (auto simp: jobs_inv_def jobs_of_def faithful_def)
  have inv: "db_ok prefix (shared_db (t_world t))" "memory_available (t_world t)" "rand_below_max (t_world t)"
      "\<And>c. t_tls t i = Some c \<Longrightarrow> ready (t_world t) c" "t_config t = config"
    using assms(1) by (simp_all add: service_inv_def database_def)
  have safe: "small_swarms prefix (shared_db (t_world t))"
      "\<And>request. bt_read_request_data (job_buff job) = Inr request \<Longrightarrow> safe_request request (job_buflen job)"
    using assms(3,4) by (simp_all add: calm_def safe_job_def database_def)
  have "\<exists>resp tls' w'. process_request api config job (si_other t) (t_tls t i) (t_world t) = Inr ((resp, tls'), w') \<and>
    same_env (t_world t) w' \<and> db_ok prefix (shared_db w') \<and> kept (t_tls t i) (t_world t) w' \<and>
    (\<forall>c. tls' = Some c \<longrightarrow> ready w' c \<and> (t_tls t i = Some c \<or> t_tls t i = None \<and> selected c (server (t_world t)) = None))"
    by (rule process_request_shared) (fact inv safe len | erule inv safe)+
  then obtain resp tls' w' where h: "process_request api config job (si_other t) (t_tls t i) (t_world t) = Inr ((resp, tls'), w')"
      "same_env (t_world t) w'" "db_ok prefix (shared_db w')" "kept (t_tls t i) (t_world t) w'"
      "\<forall>c. tls' = Some c \<longrightarrow> ready w' c \<and> (t_tls t i = Some c \<or> t_tls t i = None \<and> selected c (server (t_world t)) = None)"
    by (elim exE conjE)
  show thesis
  proof (rule that [of resp tls' w'])
    show "process_request api (t_config t) job (si_other t) (t_tls t i) (t_world t) = Inr ((resp, tls'), w')"
      using h(1) inv(5) by simp
  qed (use h in auto)
qed

lemma service_inv_step:
  assumes "tracker_step api t t'" "service_inv t" "jobs_inv t" "calm database prefix t"
  shows "service_inv t'"
  using assms
proof (induction rule: tracker_step.induct)
  case (recv t dat junk job w addr)
  then show ?case
    using receive_job_eq(2,3) [OF recv(4)] same_env_keeps [OF receive_job_eq(2) [OF recv(4)]]
    by (simp add: service_inv_def database_def ready_def)
next
  case (handle t i job resp tls w)
  obtain resp' tls' w' where h: "process_request api (t_config t) job (si_other t) (t_tls t i) (t_world t) = Inr ((resp', tls'), w')"
      "same_env (t_world t) w'" "db_ok prefix (shared_db w')" "kept (t_tls t i) (t_world t) w'"
      "\<And>c. tls' = Some c \<Longrightarrow> ready w' c \<and> (t_tls t i = Some c \<or> selected c (server (t_world t)) = None)"
    using handle_shared [OF handle(3-5,1)] by metis
  then have eq: "tls = tls'" "w = w'" using handle(2) by simp_all
  have old: "ready w' c" "tls' \<noteq> Some c" if "t_tls t j = Some c" "j \<noteq> i" for j c
  proof -
    have "ready (t_world t) c" "t_tls t i \<noteq> Some c" using that handle(3) by (auto simp: service_inv_def)
    then show "ready w' c" "tls' \<noteq> Some c" using h(5) [of c] ready_kept [OF _ h(4)] by (auto simp: ready_def)
  qed
  have "rand_below_max w'" "memory_available w'" using same_env_keeps [OF h(2)] handle(3) by (simp_all add: service_inv_def)
  then show ?case
    using handle(3) h(3,5) old(1) unfolding eq by (auto simp: service_inv_def database_def dest: old(2) split: if_splits)
qed (auto simp: service_inv_def database_def)

lemma service_inv_run:
  assumes "calm_run api database prefix t0 t" "service_inv t0" "tracker_inv t0"
  shows "service_inv t"
  using assms
proof (induction rule: calm_run.induct)
  case (step t t')
  have "tracker_inv t" using tracker_inv_reachable [OF calm_run_reachable [OF step(1)]] step by simp
  then show ?case using service_inv_step [OF step(3)] step by (simp add: tracker_inv_def)
qed

lemma no_fault:
  assumes "service_inv t" "tracker_inv t" "calm database prefix t"
  shows "\<not> tracker_fault api t e"
proof
  assume "tracker_fault api t e"
  then show False
  proof cases
    case (recv_fault dat junk)
    then show False using assms(1) by (simp add: receive_job_def service_inv_def)
  next
    case (handle_fault i job)
    have "jobs_inv t" using assms(2) by (simp add: tracker_inv_def)
    then show False using handle_shared [OF assms(1) _ assms(3) handle_fault(1)] handle_fault(2) by (metis Inr_not_Inl)
  qed
qed

end


interpretation ref_tracker_service: tracker_service ref_api ref_view ref_pending ref_connected ref_stores ref_databases
    test_config "str ''bttracker''"
  by unfold_locales (simp_all add: test_config_def str_simps ref_databases_def)


text \<open>
  C26. A new connection does not disturb the established ones. It works on the requested database if the
  server has one of this number; if not, the error reply to \<open>SELECT\<close> is ignored and the connection
  works on database 0.
\<close>

theorem bt_redis_connect_database:
  assumes "redis_service api view pending selected stores databases"
    "bt_redis_connect api path host portnr timeout n w = (Some c, w')"
  shows "selected c (server w) = None \<and> selected c (server w') = Some (if n \<in> databases then n else 0) \<and>
    pending c (server w') = [] \<and> stores (server w') = stores (server w) \<and>
    (\<forall>d. selected d (server w) \<noteq> None \<longrightarrow> selected d (server w') = selected d (server w) \<and>
       pending d (server w') = pending d (server w))"
  using redis_service.connect_effect [OF assms] unfolding redis_service.kept_def [OF assms(1)] by simp

theorem bt_redis_connect_database_witness:
  "\<exists>w'. bt_redis_connect ref_api None None 6379 0 99 (quiet_world ref_empty) = (Some 0, w') \<and>
     ref_connected 0 (server w') = Some 0"
proof -
  obtain w' where w': "bt_redis_connect ref_api None None 6379 0 99 (quiet_world ref_empty) = (Some 0, w')"
    by (simp add: bt_redis_connect_def ref_api_def ref_connect_def ref_empty_def redis_command_def split_beta)
  then show ?thesis
    using bt_redis_connect_database [OF ref_service.redis_service_axioms w'] by (simp add: ref_databases_def)
qed

end
