(* ===== verification/Bt_Interleaving.thy ===== *)
theory Bt_Interleaving
  imports Bt_Service
begin

text \<open>
  The database under interference. While a worker handles a request, the commands of other workers
  run between its own, keys expire and an operator edits the lists; connections fail. The contract
  \<open>shared_redis\<close> allows all of this, and the invariant of the database holds nevertheless.
\<close>

declare str_simps [simp del]

section \<open>Steps of the database\<close>

text \<open>What may happen to the database at any moment.\<close>

inductive db_step :: "bytes \<Rightarrow> redis_db \<Rightarrow> redis_db \<Rightarrow> bool" for prefix :: bytes where
  command: "tracker_command prefix cmd \<Longrightarrow> redis_ok d cmd r d' \<Longrightarrow> db_step prefix d d'"
| expire: "d k = Some (x, Some t) \<Longrightarrow> db_step prefix d (d(k := None))"
| tick: "db_step prefix d (\<lambda>k. map_option (map_prod id (map_option (\<lambda>t. t - 1))) (d k))"
| edit_list: "k = whitelist_key prefix \<or> k = blacklist_key prefix \<Longrightarrow> db_step prefix d (d(k \<mapsto> (RSet A, None)))"

text \<open>The commands of the tracker keep the invariant, each by itself.\<close>

lemma rename_db_ok:
  assumes "redis_ok d (RENAME (swarm_key prefix h a pid) (swarm_key prefix h' a' pid')) r d'" "db_ok prefix d"
  shows "db_ok prefix d'"
proof (cases "d (swarm_key prefix h a pid)")
  case (Some e)
  obtain v t where "e = (RString v, t)" "length v = sizeof_bt_peer_t"
    using db_ok_swarm_key [OF assms(2), of h a pid "fst e" "snd e"] Some by (metis prod.collapse)
  then show ?thesis using assms Some by auto
qed (use assms in auto)

lemma tracker_command_db_ok:
  assumes "tracker_command prefix cmd" "redis_ok d cmd r d'" "db_ok prefix d"
  shows "db_ok prefix d'"
  using assms
proof (cases rule: tracker_command.cases)
  case (promote_peer h a pid h' a' pid')
  then show ?thesis using assms rename_db_ok by simp
next
  case (count_download h)
  then show ?thesis using assms hincrby_downloads by simp
next
  case (keys q)
  then show ?thesis using assms by (auto elim: redis_ok_KEYS)
qed auto

lemma db_ok_same_values:
  assumes "db_ok prefix d" "\<And>k. map_option fst (d' k) = map_option fst (d k)"
  shows "db_ok prefix d'"
proof -
  have val: "\<exists>t. d k = Some (x, t)" if "d' k = Some (x, t')" for k x t'
    using assms(2) [of k] that by (cases "d k") auto
  have "d' k = None \<longleftrightarrow> d k = None" for k using assms(2) [of k] by (cases "d k"; cases "d' k") auto
  then have "dom d' = dom d" by (simp add: dom_def)
  then show ?thesis
    using assms(1) by (fastforce simp: db_ok_def list_ok_def conn_ok_def dest!: val)
qed

lemma db_ok_edit_list:
  assumes "db_ok prefix d" "k = whitelist_key prefix \<or> k = blacklist_key prefix"
  shows "db_ok prefix (d(k \<mapsto> (RSet A, t)))"
  using assms torrent_key_lists [of _ prefix]
  by (auto simp: db_ok_def list_ok_def conn_ok_def keys_differ)

lemma db_step_ok: "db_step prefix d d' \<Longrightarrow> db_ok prefix d \<Longrightarrow> db_ok prefix d'"
proof (induction rule: db_step.induct)
  case (tick d)
  show ?case by (rule db_ok_same_values [OF tick]) (simp add: option.map_comp comp_def)
qed (auto intro: tracker_command_db_ok db_ok_edit_list)

lemma db_steps_ok: "(db_step prefix)\<^sup>*\<^sup>* d d' \<Longrightarrow> db_ok prefix d \<Longrightarrow> db_ok prefix d'"
  by (induction rule: rtranclp_induct) (auto intro: db_step_ok)

section \<open>A server that is shared\<close>

text \<open>
  \<open>store s\<close> is the configured database, \<open>clean s\<close> says that only commands of the tracker wait to be
  executed. Whatever a worker calls, the database makes some steps, its own command among them or not:
  the contract says nothing about replies, so they may be missing or out of date.
\<close>

definition evolves :: "('s \<Rightarrow> redis_db) \<Rightarrow> ('s \<Rightarrow> bool) \<Rightarrow> bytes \<Rightarrow> 's \<Rightarrow> 's \<Rightarrow> bool" where
  "evolves store clean prefix s s' \<longleftrightarrow>
     (clean s \<longrightarrow> clean s' \<and> (db_step prefix)\<^sup>*\<^sup>* (store s) (store s'))"

lemma evolves_refl [simp]: "evolves store clean prefix s s"
  by (simp add: evolves_def)

lemma evolves_trans:
  "evolves store clean prefix s s' \<Longrightarrow> evolves store clean prefix s' s'' \<Longrightarrow> evolves store clean prefix s s''"
  by (auto simp: evolves_def)

locale shared_redis =
  fixes api :: "('c, 's) hiredis_api" and store :: "'s \<Rightarrow> redis_db" and clean :: "'s \<Rightarrow> bool" and prefix :: bytes
  assumes command: "tracker_command prefix cmd \<Longrightarrow> evolves store clean prefix s (snd (redisCommand api c cmd s))"
    and select: "evolves store clean prefix s (snd (redisCommand api c (SELECT n) s))"
    and append: "tracker_command prefix cmd \<Longrightarrow> evolves store clean prefix s (redisAppendCommand api c cmd s)"
    and reply: "evolves store clean prefix s (snd (redisGetReply api c s))"
    and connect: "evolves store clean prefix s (snd (redisConnectUnixWithTimeout api path tv s))"
      "evolves store clean prefix s (snd (redisConnectWithTimeout api host portnr tv s))"
    and free: "evolves store clean prefix s (redisFree api c s)"
begin

abbreviation evolves_w :: "'s world \<Rightarrow> 's world \<Rightarrow> bool" where
  "evolves_w w w' \<equiv> evolves store clean prefix (server w) (server w')"

lemma calls_evolves: "calls api prefix c s s' \<Longrightarrow> evolves store clean prefix s s'"
proof (induction rule: calls.induct)
  case (command s s' cmd)
  show ?case by (rule evolves_trans [OF command.IH shared_redis.command [OF shared_redis_axioms command.hyps(2)]])
next
  case (append s s' cmd)
  show ?case by (rule evolves_trans [OF append.IH shared_redis.append [OF shared_redis_axioms append.hyps(2)]])
next
  case (reply s s')
  show ?case by (rule evolves_trans [OF reply.IH shared_redis.reply [OF shared_redis_axioms]])
qed simp

lemma connect_evolves: "evolves_w w (snd (bt_redis_connect api path host portnr timeout n w))"
proof -
  let ?open = "case path of Some p \<Rightarrow> redisConnectUnixWithTimeout api p (0, timeout) (server w)
      | None \<Rightarrow> redisConnectWithTimeout api host portnr (0, timeout) (server w)"
  have opened: "evolves store clean prefix (server w) (snd ?open)" using connect by (simp split: option.split)
  show ?thesis
    using opened evolves_trans [OF opened free] evolves_trans [OF opened select]
    by (auto simp: bt_redis_connect_def redis_command_def Let_def split_beta split: option.splits)
qed

lemma reconnect_evolves: "evolves_w w (snd (redis_reconnect api config tls request w))"
proof -
  obtain conn w1 where c: "bt_redis_connect api (redis_socket_path config) (redis_host config)
      (uint (redis_port config)) (redis_timeout_of config) (uint (redis_db config)) w = (conn, w1)" by fastforce
  then have "evolves_w w w1" using connect_evolves [of w "redis_socket_path config"] by (metis snd_conv)
  then show ?thesis
    using evolves_trans [OF _ free]
    by (auto simp: redis_reconnect_def c g_private_replace_def bt_free_redis_def split: option.split)
qed

lemma acquire_evolves: "evolves_w w (snd (redis_acquire api config tls request w))"
proof (cases tls)
  case None
  then show ?thesis by (simp add: redis_acquire_def reconnect_evolves)
next
  case (Some c)
  obtain ok w1 where ping: "bt_redis_ping api c w = (ok, w1)" by fastforce
  then have "calls_w api prefix c w w1"
    by (auto simp: bt_redis_ping_def split: prod.splits dest: redis_command_calls)
  then have "evolves_w w w1" using calls_evolves by (simp add: calls_w_def)
  then show ?thesis using Some ping evolves_trans [OF _ reconnect_evolves] by (simp add: redis_acquire_def)
qed

lemma process_request_evolves:
  assumes "process_request api config job addr tls w = Inr ((resp, tls'), w')" "redis_key_prefix config = Some prefix"
  shows "evolves_w w w'"
proof -
  obtain request where rd: "bt_read_request_data (job_buff job) = Inr request"
    using assms(1) by (auto simp: process_request_def bindE_eq_Inr)
  obtain redis request' err tls1 w1 where acq: "redis_acquire api config tls request w = ((redis, request', err, tls1), w1)"
    by (metis prod.exhaust)
  then have disp: "dispatch api config job addr redis request' err w1 = Inr (resp, w')"
    using assms(1) rd by (auto simp: process_request_def bindE_eq_Inr)
  have "calls_w api prefix c w1 w'" if "redis = Some c" for c
    using dispatch_reaches [of api config c w1 job addr request' err] disp that assms(2) by (simp add: reaches_def)
  moreover have "calls_w api prefix c w1 w'" if "redis = None" for c
    using disp that bt_send_error_reaches [of api prefix c w1 request' err]
    by (auto simp: dispatch_def bindE_eq_Inr reaches_def split: if_splits)
  ultimately have "evolves_w w1 w'" using calls_evolves by (cases redis) (auto simp: calls_w_def)
  then show ?thesis using evolves_trans acquire_evolves [of w config tls request] acq by auto
qed

lemma step_evolves:
  assumes "tracker_step api t t'" "redis_key_prefix (t_config t) = Some prefix"
  shows "evolves_w (t_world t) (t_world t')"
  using assms
proof (induction rule: tracker_step.induct)
  case (recv t dat junk job w addr)
  then show ?case using receive_job_eq(3) [OF recv(4)] by simp
next
  case (handle t i job resp tls w)
  then show ?case using process_request_evolves by simp
qed simp_all

lemma run_evolves:
  assumes "reachable api t0 t" "redis_key_prefix (t_config t0) = Some prefix"
  shows "evolves_w (t_world t0) (t_world t) \<and> t_config t = t_config t0"
  using assms
proof (induction rule: reachable.induct)
  case (step t t')
  then show ?case using tracker_step_constant [OF step(2)] evolves_trans [OF _ step_evolves [OF step(2)]] by simp
qed simp

end

section \<open>Shared servers\<close>

text \<open>
  The reference server satisfies the contract, and so does one on which, before the reply to a
  pipelined command is computed, every key that can expire has expired.
\<close>

definition ref_clean :: "bytes \<Rightarrow> ref_server \<Rightarrow> bool" where
  "ref_clean prefix s \<longleftrightarrow> (\<forall>c. list_all (tracker_command prefix) (ref_queue s c))"

definition live_entries :: "ref_db \<Rightarrow> ref_db" where
  "live_entries al = filter (\<lambda>(k, _). \<forall>x t. map_of al k \<noteq> Some (x, Some t)) al"

definition ref_expire :: "ref_server \<Rightarrow> ref_server" where
  "ref_expire s = s\<lparr>ref_dbs := live_entries \<circ> ref_dbs s\<rparr>"

definition expiring_api :: "(nat, ref_server) hiredis_api" where
  "expiring_api = ref_api\<lparr>redisGetReply := (\<lambda>c s. redisGetReply ref_api c (ref_expire s))\<rparr>"

lemma ref_command_evolves:
  assumes "tracker_command prefix cmd"
  shows "ref_queue (snd (ref_command c cmd s)) = ref_queue s"
    "(db_step prefix)\<^sup>*\<^sup>* (ref_stores s n) (ref_stores (snd (ref_command c cmd s)) n)"
proof -
  note eq = ref_command_eq [OF tracker_command_not_select [OF assms]]
  have "db_step prefix (map_of al) (map_of (snd (ref_exec al cmd)))" for al
    by (rule db_step.command [OF assms ref_exec_ok [OF tracker_command_not_select [OF assms]]])
  then show "(db_step prefix)\<^sup>*\<^sup>* (ref_stores s n) (ref_stores (snd (ref_command c cmd s)) n)"
    by (cases "n = ref_selected s c") (simp_all add: eq ref_stores_def r_into_rtranclp)
qed (simp add: ref_command_eq [OF tracker_command_not_select [OF assms]])

interpretation ref_shared: shared_redis ref_api "\<lambda>s. ref_stores s n" "ref_clean prefix" prefix
proof unfold_locales
  show "evolves (\<lambda>s. ref_stores s n) (ref_clean prefix) prefix s (snd (redisCommand ref_api c cmd s))"
    if "tracker_command prefix cmd" for cmd s c
    using ref_command_evolves [OF that, where c = c and s = s] by (simp add: evolves_def ref_clean_def ref_api_def split_beta)
  show "evolves (\<lambda>s. ref_stores s n) (ref_clean prefix) prefix s (snd (redisGetReply ref_api c s))" for s c
  proof (cases "ref_queue s c")
    case (Cons cmd cmds)
    have "tracker_command prefix cmd" if "ref_clean prefix s"
      using that Cons by (metis ref_clean_def list.pred_inject(2))
    then show ?thesis
      using Cons ref_command_evolves [where prefix = prefix and cmd = cmd and c = c and s = s]
      by (auto simp: evolves_def ref_clean_def ref_api_def ref_stores_def split_beta) (metis list.pred_inject(2))
  qed (simp add: ref_api_def)
qed (auto simp: evolves_def ref_clean_def ref_api_def ref_command_def ref_connect_def ref_stores_def split_beta)

text \<open>Expiry is a sequence of steps.\<close>

lemma expire_steps:
  assumes "finite K" "\<And>k. k \<in> K \<Longrightarrow> \<exists>x t. d k = Some (x, Some t)"
  shows "(db_step prefix)\<^sup>*\<^sup>* d (d |` (- K))"
  using assms
proof (induction K)
  case (insert k K)
  obtain x t where "d k = Some (x, Some t)" using insert.prems [of k] by auto
  then have "db_step prefix (d |` (- K)) ((d |` (- K))(k := None))"
    using insert.hyps(2) db_step.expire [of "d |` (- K)" k x t] by simp
  moreover have "(d |` (- K))(k := None) = d |` (- insert k K)"
    by (auto simp: restrict_map_def fun_eq_iff)
  ultimately show ?case using insert by (metis insertCI rtranclp.rtrancl_into_rtrancl)
qed (simp add: restrict_map_def)

lemma map_of_live_entries:
  "map_of (live_entries al) = map_of al |` (- {k. \<exists>x t. map_of al k = Some (x, Some t)})"
proof -
  have "map_of (filter (\<lambda>(k, _). P k) al) k = (if P k then map_of al k else None)" for P :: "bytes \<Rightarrow> bool" and k
    by (induction al) auto
  then show ?thesis by (auto simp: live_entries_def restrict_map_def fun_eq_iff)
qed

lemma ref_expire_evolves: "evolves (\<lambda>s. ref_stores s n) (ref_clean prefix) prefix s (ref_expire s)"
proof -
  let ?al = "ref_dbs s n"
  have "finite {k. \<exists>x t. map_of ?al k = Some (x, Some t)}"
    by (rule finite_subset [OF _ finite_dom_map_of [of ?al]]) auto
  from expire_steps [OF this, of "map_of ?al" prefix] show ?thesis
    by (simp add: evolves_def ref_clean_def ref_expire_def ref_stores_def map_of_live_entries)
qed

interpretation expiring: shared_redis expiring_api "\<lambda>s. ref_stores s n" "ref_clean prefix" prefix
proof unfold_locales
  show "evolves (\<lambda>s. ref_stores s n) (ref_clean prefix) prefix s (snd (redisGetReply expiring_api c s))" for s c
    using evolves_trans [OF ref_expire_evolves ref_shared.reply] by (simp add: expiring_api_def)
qed (simp_all add: expiring_api_def ref_shared.command ref_shared.select ref_shared.append ref_shared.connect ref_shared.free)

section \<open>Properties\<close>

text \<open>
  C7. The invariant of the database does not depend on the workers being undisturbed. In every state the
  program can reach, whatever datagrams arrive, whatever the server answers, and even if the commands of
  other workers and clients of the tracker, the expiry of keys and edits of the lists come between any
  two calls of a worker, the database has got there by documented effects of the tracker's commands, and
  it satisfies its invariant if it did at the start.
\<close>

theorem database_invariant_interleaved:
  assumes "shared_redis api store clean prefix" "redis_key_prefix (st_config st) = Some prefix"
    "clean (server w)" "db_ok prefix (store (server w))" "reachable api (tracker_init st w) t"
  shows "(db_step prefix)\<^sup>*\<^sup>* (store (server w)) (store (server (t_world t))) \<and>
    db_ok prefix (store (server (t_world t)))"
proof -
  have "evolves store clean prefix (server w) (server (t_world t))"
    using shared_redis.run_evolves [OF assms(1,5)] assms(2) by (simp add: tracker_init_def)
  then have "(db_step prefix)\<^sup>*\<^sup>* (store (server w)) (store (server (t_world t)))"
    using assms(3) by (simp add: evolves_def)
  then show ?thesis using db_steps_ok assms(4) by blast
qed

theorem database_invariant_interleaved_witness:
  "reachable expiring_api (example_init ref_empty) (example_busy ref_empty) \<and>
   db_ok (str ''bttracker'') (ref_stores (server (t_world (example_busy ref_empty))) 0)"
proof -
  have run: "reachable expiring_api (example_init ref_empty) (example_busy ref_empty)"
    by (rule reachable.step [OF example_received_reachable example_busy_step])
  have "ref_clean (str ''bttracker'') ref_empty" "ref_stores ref_empty 0 = Map.empty"
    by (simp_all add: ref_clean_def ref_empty_def ref_stores_def)
  then show ?thesis
    using database_invariant_interleaved [OF expiring.shared_redis_axioms _ _ _ run, of "str ''bttracker''" 0] run
    by (simp add: example_started_def test_config_def)
qed

text \<open>
  C38. A peer that expires while the list of peers is made crashes the tracker: on a server on which the
  keys found by \<open>KEYS\<close> have expired when the \<open>GET\<close> commands are executed, the reply has no text and
  \<open>bt_peer_list\<close> dereferences \<open>NULL\<close>.
\<close>

theorem bt_peer_list_expired_peer:
  assumes "0 < sint want" "0 < sint (announce_peer_ttl config)" "redis_key_prefix config = Some prefix"
  shows "\<exists>w. bt_insert_peer expiring_api c config h pid p b (quiet_world ref_empty) = Inr w \<and>
    bt_peer_list expiring_api c config h want n b w = Inl Null_Dereference"
proof -
  let ?k = "swarm_key prefix h (peer_prefix_of b) pid"
  let ?q = "swarm_prefix prefix h (peer_prefix_of b)"
  let ?al = "[(?k, RString (sent_bytes (quiet_world ref_empty) (peer_image p)), Some (nat (sint (announce_peer_ttl config))))]"
  let ?s = "ref_empty\<lparr>ref_dbs := (ref_dbs ref_empty)(0 := ?al)\<rparr>"
  have ins: "bt_insert_peer expiring_api c config h pid p b (quiet_world ref_empty) = Inr ((quiet_world ref_empty)\<lparr>server := ?s\<rparr>)"
    using assms by (simp add: bt_insert_peer_def redis_command_def expiring_api_def ref_api_def ref_command_def ref_empty_def)
  have keys: "redis_command expiring_api c (KEYS (?q @ [42])) ((quiet_world ref_empty)\<lparr>server := ?s\<rparr>) =
      (Some (array_reply [string_reply ?k]), (quiet_world ref_empty)\<lparr>server := ?s\<rparr>)"
    by (simp add: redis_command_def expiring_api_def ref_api_def ref_command_def ref_empty_def swarm_key_def str_simps)
  have ui: "upper_index_of 1 want = 1" using upper_index_of_min [of 1 want] assms(1) by simp
  let ?w = "(quiet_world ref_empty)\<lparr>server := ?s\<rparr>"
  have rand: "rand_below_max ?w" using quiet_world_rand [of ref_empty] by (simp add: rand_below_max_def)
  obtain element m where "shuffle_loop 0 1 [string_reply ?k] ?w = Inr (element, ?w\<lparr>rand_pos := m\<rparr>)"
      "mset element = mset [string_reply ?k]"
    using shuffle_loop_permutes [of 0 1 "[string_reply ?k]" ?w] rand by auto
  then have sh: "shuffle_loop 0 1 [string_reply ?k] ?w = Inr ([string_reply ?k], ?w\<lparr>rand_pos := m\<rparr>)" by simp
  have "live_entries ?al = []" by (simp add: live_entries_def)
  then have get: "fst (get_reply expiring_api c (append_command expiring_api c (GET ?k) (?w\<lparr>rand_pos := m\<rparr>))) = Some nil_reply"
    by (simp add: get_reply_def append_command_def expiring_api_def ref_api_def ref_expire_def ref_command_def ref_empty_def split_beta)
  have "bt_peer_list expiring_api c config h want n b ?w = Inl Null_Dereference"
    using get sh ui by (simp add: bt_peer_list_def assms(3) keys array_reply_def string_reply_def nil_reply_def split_beta)
  then show ?thesis using ins by blast
qed

theorem bt_peer_list_expired_peer_witness:
  "\<exists>w. bt_insert_peer expiring_api 0 test_config example_hash [7] example_peer True (quiet_world ref_empty) = Inr w \<and>
     bt_peer_list expiring_api 0 test_config example_hash 50 0 True w = Inl Null_Dereference"
  by (rule bt_peer_list_expired_peer) (simp_all add: test_config_def)

end
