(* ===== verification/Bt_Liveness.thy ===== *)
theory Bt_Liveness
  imports Bt_Tracker
begin

text \<open>
  Progress of the serving program: in a fair run every queued job is taken by a worker, handled and
  answered, in the order of the queue.
\<close>

declare str_simps [simp del]

section \<open>Infinite runs\<close>

definition infinite_run :: "('c, 's) hiredis_api \<Rightarrow> (nat \<Rightarrow> ('c, 's) tracker) \<Rightarrow> bool" where
  "infinite_run api f \<longleftrightarrow> (\<forall>n. tracker_step api (f n) (f (Suc n)))"

text \<open>
  The scheduler: a worker that is not idle goes on eventually, and while there are jobs and an idle
  worker, a job is taken eventually.
\<close>

definition worker_fair :: "(nat \<Rightarrow> ('c, 's) tracker) \<Rightarrow> bool" where
  "worker_fair f \<longleftrightarrow> (\<forall>n i. t_act (f n) i \<noteq> Idle \<longrightarrow> (\<exists>m \<ge> n. t_act (f m) i \<noteq> t_act (f n) i))"

definition takes :: "(nat \<Rightarrow> ('c, 's) tracker) \<Rightarrow> nat \<Rightarrow> bool" where
  "takes f m \<longleftrightarrow> t_queue (f m) \<noteq> [] \<and> t_queue (f (Suc m)) = tl (t_queue (f m))"

definition pool_fair :: "(nat \<Rightarrow> ('c, 's) tracker) \<Rightarrow> bool" where
  "pool_fair f \<longleftrightarrow> (\<forall>n. t_queue (f n) \<noteq> [] \<longrightarrow> (\<exists>i < t_workers (f n). t_act (f n) i = Idle) \<longrightarrow> (\<exists>m \<ge> n. takes f m))"

text \<open>What one step does to one worker and to the queue.\<close>

lemma step_act:
  assumes "tracker_step api t t'"
  shows "t_act t i = Busy job \<Longrightarrow> t_act t' i = Busy job \<or> (\<exists>resp tls w. t_act t' i = Answering job resp \<and>
       process_request api (t_config t) job (si_other t) (t_tls t i) (t_world t) = Inr ((resp, tls), w))"
    "t_act t i = Answering job resp \<Longrightarrow> t_act t' i = Answering job resp \<or>
       t_act t' i = Idle \<and> sent t' = sent t @ send_response job resp (si_other t) (t_world t)"
  using assms by (induction rule: tracker_step.induct) auto

lemma step_queue:
  assumes "tracker_step api t t'" "t_phase t' = Serving"
  shows "(\<exists>jobs. t_queue t' = t_queue t @ jobs) \<or>
    (\<exists>i job. t_queue t = job # t_queue t' \<and> t_act t' i = Busy job)"
  using assms by (induction rule: tracker_step.induct) auto

lemma step_takes:
  assumes "tracker_step api t t'" "t_phase t' = Serving" "t_queue t = job # jobs" "t_queue t' = jobs"
  shows "\<exists>i. t_act t' i = Busy job"
proof -
  have "t_queue t' \<noteq> t_queue t @ js" for js using assms(3,4) by (metis append_Cons length_append length_Cons not_add_less1 lessI)
  then show ?thesis using step_queue [OF assms(1,2)] assms(3,4) by auto
qed

text \<open>The moment of a change.\<close>

lemma last_before:
  assumes "n \<le> m" "P (n :: nat)" "\<not> P m"
  shows "\<exists>k \<ge> n. P k \<and> \<not> P (Suc k)"
  using assms(1,3)
proof (induction m rule: dec_induct)
  case (step m)
  then show ?case by (cases "P m") auto
qed (use assms(2) in simp)

lemma worker_leaves:
  assumes "worker_fair f" "t_act (f n) i = a" "a \<noteq> Idle"
  obtains k where "n \<le> k" "t_act (f k) i = a" "t_act (f (Suc k)) i \<noteq> a"
proof -
  obtain m where "n \<le> m" "t_act (f m) i \<noteq> a" using assms unfolding worker_fair_def by metis
  then show ?thesis using last_before [of n m "\<lambda>k. t_act (f k) i = a"] assms(2) that by blast
qed

lemma infinite_runD: "infinite_run api f \<Longrightarrow> tracker_step api (f n) (f (Suc n))"
  by (simp add: infinite_run_def)

section \<open>Progress\<close>

text \<open>
  A job is answered by step \<open>n\<close> of a run: the response of its handler, which ran before, is sent.
\<close>

definition answered :: "('c, 's) hiredis_api \<Rightarrow> (nat \<Rightarrow> ('c, 's) tracker) \<Rightarrow> nat \<Rightarrow> bt_job_params_t \<Rightarrow> bool" where
  "answered api f n job \<longleftrightarrow> (\<exists>h i resp tls w. h < n \<and>
     process_request api (t_config (f h)) job (si_other (f h)) (t_tls (f h) i) (t_world (f h)) = Inr ((resp, tls), w) \<and>
     sent (f (Suc n)) = sent (f n) @ send_response job resp (si_other (f n)) (t_world (f n)))"

lemma answering_done:
  assumes "infinite_run api f" "worker_fair f" "t_act (f n) i = Answering job resp"
  shows "\<exists>m \<ge> n. t_act (f (Suc m)) i = Idle \<and>
    sent (f (Suc m)) = sent (f m) @ send_response job resp (si_other (f m)) (t_world (f m))"
proof -
  obtain k where k: "n \<le> k" "t_act (f k) i = Answering job resp" "t_act (f (Suc k)) i \<noteq> Answering job resp"
    using worker_leaves [OF assms(2,3)] by blast
  from step_act(2) [OF infinite_runD [OF assms(1)] k(2)] show ?thesis using k by auto
qed

lemma busy_answered:
  assumes "infinite_run api f" "worker_fair f" "t_act (f n) i = Busy job"
  shows "\<exists>m \<ge> n. answered api f m job \<and> t_act (f (Suc m)) i = Idle"
proof -
  obtain k where k: "n \<le> k" "t_act (f k) i = Busy job" "t_act (f (Suc k)) i \<noteq> Busy job"
    using worker_leaves [OF assms(2,3)] by blast
  then obtain resp tls w where ans: "t_act (f (Suc k)) i = Answering job resp"
      "process_request api (t_config (f k)) job (si_other (f k)) (t_tls (f k) i) (t_world (f k)) = Inr ((resp, tls), w)"
    using step_act(1) [OF infinite_runD [OF assms(1)] k(2)] by blast
  obtain m where m: "Suc k \<le> m" "t_act (f (Suc m)) i = Idle"
      "sent (f (Suc m)) = sent (f m) @ send_response job resp (si_other (f m)) (t_world (f m))"
    using answering_done [OF assms(1,2) ans(1)] by blast
  then have "answered api f m job" using ans(2) unfolding answered_def by (meson Suc_le_lessD)
  then show ?thesis using m k(1) by (meson Suc_leD le_trans)
qed

lemma worker_becomes_idle:
  assumes "infinite_run api f" "worker_fair f"
  shows "\<exists>m \<ge> n. t_act (f m) i = Idle"
proof (cases "t_act (f n) i")
  case (Busy job)
  then show ?thesis using busy_answered [OF assms Busy] by (meson le_SucI)
next
  case (Answering job resp)
  then show ?thesis using answering_done [OF assms Answering] by (meson le_SucI)
qed blast

text \<open>The queue is served in order.\<close>

lemma queue_grows:
  assumes "n \<le> m" "infinite_run api f" "\<And>n. t_phase (f n) = Serving" "\<And>j. n \<le> j \<Longrightarrow> j < m \<Longrightarrow> \<not> takes f j"
  shows "\<exists>jobs. t_queue (f m) = t_queue (f n) @ jobs"
  using assms(1,4)
proof (induction m rule: dec_induct)
  case (step m)
  then obtain jobs where "t_queue (f m) = t_queue (f n) @ jobs" by auto
  moreover have "\<not> takes f m" using step by simp
  ultimately show ?case
    using step_queue [OF infinite_runD [OF assms(2)] assms(3), of m] by (auto simp: takes_def)
qed simp

lemma next_take:
  assumes "infinite_run api f" "worker_fair f" "pool_fair f" "\<And>n. t_phase (f n) = Serving" "\<And>n. 0 < t_workers (f n)"
    "t_queue (f n) \<noteq> []"
  obtains m jobs where "n \<le> m" "takes f m" "t_queue (f m) = t_queue (f n) @ jobs"
proof -
  have "\<exists>m. n \<le> m \<and> takes f m"
  proof (rule ccontr)
    assume none: "\<not> ?thesis"
    obtain n1 where n1: "n \<le> n1" "t_act (f n1) 0 = Idle" using worker_becomes_idle [OF assms(1,2)] by blast
    then have "t_queue (f n1) \<noteq> []" using queue_grows [OF n1(1) assms(1,4)] none assms(6) by auto
    then have "\<exists>m \<ge> n1. takes f m" using assms(3,5) n1(2) unfolding pool_fair_def by blast
    then show False using none n1(1) order_trans by blast
  qed
  then have "n \<le> (LEAST m. n \<le> m \<and> takes f m) \<and> takes f (LEAST m. n \<le> m \<and> takes f m)" by (rule LeastI_ex)
  moreover have "\<not> takes f j" if "n \<le> j" "j < (LEAST m. n \<le> m \<and> takes f m)" for j
    using that not_less_Least by blast
  ultimately show ?thesis using queue_grows [OF _ assms(1,4)] that by blast
qed

lemma queue_served:
  assumes "infinite_run api f" "worker_fair f" "pool_fair f" "\<And>n. t_phase (f n) = Serving" "\<And>n. 0 < t_workers (f n)"
    "k < length (t_queue (f n))"
  shows "\<exists>m \<ge> n. \<exists>i. t_act (f m) i = Busy (t_queue (f n) ! k)"
  using assms(6)
proof (induction k arbitrary: n)
  case 0
  then obtain m jobs where m: "n \<le> m" "takes f m" "t_queue (f m) = t_queue (f n) @ jobs"
    using next_take [OF assms(1-5), of n] by auto
  then have "t_queue (f m) = t_queue (f n) ! 0 # t_queue (f (Suc m))"
    using 0 by (cases "t_queue (f n)") (auto simp: takes_def)
  from step_takes [OF infinite_runD [OF assms(1)] assms(4) this] show ?case using m(1) le_SucI by blast
next
  case (Suc k)
  then obtain m jobs where m: "n \<le> m" "takes f m" "t_queue (f m) = t_queue (f n) @ jobs"
    using next_take [OF assms(1-5), of n] by (metis length_0_conv not_less_zero)
  then have "t_queue (f (Suc m)) = tl (t_queue (f n)) @ jobs" "t_queue (f n) \<noteq> []"
    using Suc.prems by (cases "t_queue (f n)"; auto simp: takes_def)+
  then have "k < length (t_queue (f (Suc m)))" "t_queue (f (Suc m)) ! k = t_queue (f n) ! Suc k"
    using Suc.prems by (auto simp: nth_append nth_tl)
  from Suc.IH [OF this(1)] this(2) show ?case using m(1) by (metis Suc_leD le_trans)
qed


text \<open>The run of one request, after which nothing more arrives.\<close>

lemma example_run:
  obtains f where "f 0 = example_init ()" "infinite_run down_api f" "worker_fair f" "pool_fair f"
    "\<And>n. t_phase (f n) = Serving" "t_queue (f 1) = [example_job]"
proof -
  obtain t3 resp where t3: "tracker_step down_api (example_busy ()) t3" "t_phase t3 = Serving" "t_queue t3 = []"
      "t_act t3 = (\<lambda>_. Idle)(0 := Answering example_job resp)"
    using example_answering_step by blast
  define t4 where "t4 = t3\<lparr>t_act := (t_act t3)(0 := Idle), sent := sent t3 @ send_response example_job resp (si_other t3) (t_world t3)\<rparr>"
  have send: "tracker_step down_api t3 t4" unfolding t4_def by (rule tracker_step.send) (simp add: t3)
  have t4: "t_phase t4 = Serving" "t_queue t4 = []" "t_act t4 = (\<lambda>_. Idle)"
    by (simp_all add: t4_def t3 fun_eq_iff)
  have init: "t_phase (example_init ()) = Serving" "t_queue (example_init ()) = []" "t_act (example_init ()) = (\<lambda>_. Idle)"
    by (simp_all add: tracker_init_def)
  define f where "f = case_nat (example_init ()) (case_nat (example_received ()) (case_nat (example_busy ()) (case_nat t3 (\<lambda>_. t4))))"
  show thesis
  proof (rule that [of f])
    show "infinite_run down_api f"
      by (auto simp: infinite_run_def f_def send t3(1) t4 example_received_step example_busy_step tracker_step.recv_error split: nat.split)
    show "worker_fair f"
      unfolding worker_fair_def
    proof (intro allI impI)
      fix n i assume "t_act (f n) i \<noteq> Idle"
      then show "\<exists>m \<ge> n. t_act (f m) i \<noteq> t_act (f n) i" by (intro exI [of _ "n + 4"]) (simp add: f_def t4 numeral_eq_Suc)
    qed
    have "n = 1" if "t_queue (f n) \<noteq> []" for n using that by (auto simp: f_def init t3 t4 split: nat.splits)
    moreover have "takes f 1" by (simp add: takes_def f_def)
    ultimately show "pool_fair f" unfolding pool_fair_def by blast
    show "t_phase (f n) = Serving" for n by (simp add: f_def init t3 t4 split: nat.split)
  qed (simp_all add: f_def)
qed


end
