(* ===== verification/Bt_Session.thy ===== *)
theory Bt_Session
  imports Bt_Service
begin

text \<open>
  Announces from the datagrams of the clients to the datagrams they get back: what one client announces
  is what the next client of the torrent is told.
\<close>

declare str_simps [simp del]

section \<open>Complete answers\<close>

lemma distinct_covers: "distinct xs \<Longrightarrow> set xs \<subseteq> A \<Longrightarrow> finite A \<Longrightarrow> length xs = card A \<Longrightarrow> set xs = A"
  by (metis card_subset_eq distinct_card)

text \<open>A client that wants enough peers is told of every peer of the other role, or of all peers.\<close>

lemma answer_peers_complete:
  assumes "answer_peers sw b n peers" "\<And>c. finite (dom (sw c))" "sw c pid = Some a"
    "c \<noteq> b \<and> card (dom (sw c)) \<le> n \<or> card (dom (sw True)) + card (dom (sw False)) \<le> n"
  shows "a \<in> set peers"
proof -
  obtain others sibs where peers: "peers = map (\<lambda>pid. the (sw (\<not> b) pid)) others @ map (\<lambda>pid. the (sw b pid)) sibs"
    and o: "distinct others" "set others \<subseteq> dom (sw (\<not> b))" "length others = min (card (dom (sw (\<not> b)))) n"
    and s: "distinct sibs" "set sibs \<subseteq> dom (sw b)" "length sibs = min (card (dom (sw b))) (n - length others)"
    using assms(1) by (auto simp: answer_peers_def)
  show ?thesis
  proof (cases "c = b")
    case True
    then have "card (dom (sw b)) + card (dom (sw (\<not> b))) \<le> n" using assms(4) by (cases b) auto
    then have "length sibs = card (dom (sw b))" using o(3) s(3) by simp
    from distinct_covers [OF s(1,2) assms(2) this] have "pid \<in> set sibs" using True assms(3) by blast
    then show ?thesis using peers True assms(3) by (auto intro!: image_eqI [of _ _ pid])
  next
    case False
    then have c: "c = (\<not> b)" by blast
    then have "card (dom (sw (\<not> b))) \<le> n" using assms(4) by (cases b) auto
    then have "length others = card (dom (sw (\<not> b)))" using o(3) by simp
    from distinct_covers [OF o(1,2) assms(2) this] have "pid \<in> set others" using c assms(3) by blast
    then show ?thesis using peers c assms(3) by (auto intro!: image_eqI [of _ _ pid])
  qed
qed

section \<open>One announce\<close>

text \<open>A well-formed announce as a job.\<close>

definition announce_job :: "bt_announce_req_t \<Rightarrow> bt_job_params_t \<Rightarrow> bool" where
  "announce_job r params \<longleftrightarrow> length (info_hash r) = 20 \<and> length (peer_id r) = 20 \<and> action r = BT_ACTION_ANNOUNCE \<and>
     20 \<le> job_buflen params \<and> (\<exists>rest. job_buff params = encode_announce_request r @ rest)"

lemma announce_request_header:
  "bt_read_request_data (encode_announce_request r @ rest) = Inr (bt_req_t.truncate r)"
  using bt_read_request_data_encode [of r] by (simp add: encode_announce_request_def)

lemma announce_datagram:
  assumes "tracker_store api view pending config prefix" "pending redis (server w) = []"
    "db_ok prefix (view redis (server w))" "memory_available w" "rand_below_max w" "announce_job r params"
    "\<not> refused config (view redis (server w)) prefix (hex (info_hash r))"
    "\<And>b. card (dom (swarm (view redis (server w)) prefix (hex (info_hash r)) b)) < 2 ^ 22 - 1"
  shows "\<exists>peers w'. bt_request_processor api config params from_addr from_addr' (Some redis) w =
      Inr (([\<lparr>dg_sock = job_sock params, dg_data = announce_answer config prefix (bt_req_t.truncate r)
        (view redis (server w')) (hex (info_hash r)) peers, dg_to = from_addr'\<rparr>], Some redis), w') \<and>
    pending redis (server w') = [] \<and> db_ok prefix (view redis (server w')) \<and> same_env w w' \<and>
    refused config (view redis (server w')) prefix = refused config (view redis (server w)) prefix \<and>
    swarms_of prefix (view redis (server w')) = (swarms_of prefix (view redis (server w)))
      (hex (info_hash r) := announce_spec (event r) (left r = 0) (peer_id r) (announced_addr r from_addr)
         (swarms_of prefix (view redis (server w)) (hex (info_hash r)))) \<and>
    answer_peers (swarm (view redis (server w')) prefix (hex (info_hash r))) (left r = 0)
      (nat (sint (clamp_num_want config (num_want r)))) peers"
proof -
  let ?req = "bt_req_t.truncate r" and ?h = "hex (info_hash r)"
  obtain rest where job: "length (info_hash r) = 20" "length (peer_id r) = 20" "action ?req = BT_ACTION_ANNOUNCE"
      "20 \<le> job_buflen params" "job_buff params = encode_announce_request r @ rest"
    using assms(6) by (auto simp: announce_job_def bt_req_t.truncate_def)
  obtain w1 where 1: "process_request api config params from_addr (Some redis) w =
      bindE (dispatch api config params from_addr (Some redis) ?req None w1) (\<lambda>(resp, w2). Inr ((resp, Some redis), w2))"
      "pending redis (server w1) = []" "view redis (server w1) = view redis (server w)" "same_env w w1"
    using process_request_live [OF assms(1,2)] announce_request_header [of r rest] job(5) by metis
  note env = same_env_keeps(1,2) [OF 1(4)]
  have acc: "request_accepted prefix (view redis (server w1)) ?req (job_buflen params)"
    using job(3,4) db_ok_lists(3) [OF assms(3)] 1(3) by (auto simp: request_accepted_def)
  have rd: "bt_read_announce_request_data (job_buff params) = Inr r"
    using announce_request_decoded [OF job(1,2)] job(5) by auto
  obtain peers w' where w': "bt_handle_announce api ?req config (job_buff params) (job_buflen params) from_addr redis w1 =
      Inr (Some \<lparr>resp_length = 20 + 6 * length peers, resp_data = map Some
        (announce_answer config prefix ?req (view redis (server w')) ?h peers)\<rparr>, w')"
      "tracker_store.becomes view pending redis w1 (view redis (server w')) w'"
    and post: "db_ok prefix (view redis (server w'))"
      "refused config (view redis (server w')) prefix = refused config (view redis (server w)) prefix"
      "swarms_of prefix (view redis (server w')) = (swarms_of prefix (view redis (server w)))
        (?h := announce_spec (event r) (left r = 0) (peer_id r) (announced_addr r from_addr)
         (swarms_of prefix (view redis (server w)) ?h))"
      "answer_peers (swarm (view redis (server w')) prefix ?h) (left r = 0)
         (nat (sint (clamp_num_want config (num_want r)))) peers"
    using tracker_store.handle_announce_accepted [OF assms(1) _ _ _ _ _ job(3) acc rd job(1), of from_addr]
      1(2,3) assms(3-5,7,8) db_ok_lists(1,2) [OF assms(3)] env
    unfolding Let_def 1(3) by metis
  have "length (announce_answer config prefix ?req (view redis (server w')) ?h peers) = 20 + 6 * length peers"
    by (simp add: announce_answer_def)
  then have "bt_request_processor api config params from_addr from_addr' (Some redis) w =
      Inr (([\<lparr>dg_sock = job_sock params, dg_data = announce_answer config prefix ?req (view redis (server w')) ?h peers,
        dg_to = from_addr'\<rparr>], Some redis), w')"
    by (simp add: bt_request_processor_def 1(1) dispatch_def job(3) w'(1) send_response_def)
  then show ?thesis
    using post w'(2) same_env_trans [OF 1(4)] unfolding tracker_store.becomes_def [OF assms(1)] by blast
qed

text \<open>
  C20. An announce, received as raw bytes by a worker with a live connection, is answered by one datagram
  with the BEP 15 encoding of its transaction identifier, the configured interval, the numbers of
  leechers and seeders after the announce and a list of peers. The swarm of its torrent changes as the
  event says, under the address the datagram came from unless the request names another, and the
  worker keeps its connection.
\<close>

theorem announce_datagram_answered:
  assumes "tracker_store api view pending config prefix" "pending redis (server w) = []"
    "db_ok prefix (view redis (server w))" "memory_available w" "rand_below_max w"
    "job_buff params = encode_announce_request r @ rest" "98 \<le> job_buflen params"
    "length (info_hash r) = 20" "length (peer_id r) = 20" "action r = BT_ACTION_ANNOUNCE"
    "\<not> refused config (view redis (server w)) prefix (hex (info_hash r))"
    "\<forall>b. card (dom (swarm (view redis (server w)) prefix (hex (info_hash r)) b)) < 2 ^ 22 - 1"
  shows "\<exists>peers w'. bt_request_processor api config params from_addr from_addr' (Some redis) w =
      Inr (([\<lparr>dg_sock = job_sock params, dg_data = encode_announce_response
        \<lparr>resp_action = BT_ACTION_ANNOUNCE, resp_transaction_id = transaction_id r,
         interval = announce_wait_time config,
         leechers = of_nat (card (dom (swarm (view redis (server w')) prefix (hex (info_hash r)) False))),
         seeders = of_nat (card (dom (swarm (view redis (server w')) prefix (hex (info_hash r)) True)))\<rparr> peers,
        dg_to = from_addr'\<rparr>], Some redis), w') \<and>
    pending redis (server w') = [] \<and> db_ok prefix (view redis (server w')) \<and>
    swarms_of prefix (view redis (server w')) = (swarms_of prefix (view redis (server w)))
      (hex (info_hash r) := announce_spec (event r) (left r = 0) (peer_id r) (announced_addr r from_addr)
         (swarms_of prefix (view redis (server w)) (hex (info_hash r)))) \<and>
    answer_peers (swarm (view redis (server w')) prefix (hex (info_hash r))) (left r = 0)
      (nat (sint (clamp_num_want config (num_want r)))) peers"
proof -
  have "(20 :: 64 word) \<le> 98" by simp
  then have "20 \<le> job_buflen params" using assms(7) by (rule order_trans)
  then have job: "announce_job r params" using assms(6,8-10) by (auto simp: announce_job_def)
  have hd: "action (bt_req_t.truncate r) = BT_ACTION_ANNOUNCE" "transaction_id (bt_req_t.truncate r) = transaction_id r"
    using assms(10) by (simp_all add: bt_req_t.truncate_def)
  show ?thesis
    using announce_datagram [OF assms(1-5) job assms(11), of from_addr from_addr'] assms(12)
    unfolding announce_answer_def hd by blast
qed

section \<open>Two announces\<close>

lemma announce_spec_keeps_peer:
  assumes "ev1 = BT_EVENT_NONE \<or> ev1 = BT_EVENT_STARTED" "pid1 \<noteq> pid2"
  shows "sw_peers (announce_spec ev2 b2 pid2 a2 (announce_spec ev1 b1 pid1 a1 s)) b1 pid1 = Some a1"
proof -
  have "announce_spec ev1 b1 pid1 a1 s = add_peer b1 pid1 a1 s" using assms(1) by (auto simp: announce_spec_def)
  then show ?thesis
    using assms(2) by (auto simp: announce_spec_def add_peer_def drop_peer_def complete_peer_def split: option.split)
qed

text \<open>A worker that keeps its connection leaves it ready, and those of the other workers as they were.\<close>

context tracker_service
begin

lemma process_request_ready:
  assumes "process_request api config job addr (Some c) w = Inr ((resp, Some c), w')" "ready w c" "pending c (server w') = []"
  shows "ready w' c" "kept (Some c) w w'"
proof -
  obtain request redis request' err w1 where
    acq: "redis_acquire api config (Some c) request w = ((redis, request', err, Some c), w1)"
    and dis: "dispatch api config job addr redis request' err w1 = Inr (resp, w')"
    using assms(1) by (auto simp: process_request_def bindE_eq_Inr split_beta prod_eq_iff)
  have redis: "redis = Some c" using acquire_cases(1) [OF acq] by simp
  have 1: "ready w1 c" "kept (Some c) w w1"
    using acquire_effect [OF acq] assms(2) redis by auto
  have "calls_w api prefix c w1 w'"
    using dispatch_reaches [of api config c w1 job addr request' err] dis redis key_prefix(1) by simp
  from calls_ready [OF this 1(1) assms(3)] show "ready w' c" "kept (Some c) w w'"
    using kept_trans [OF 1(2)] by auto
qed

lemma request_processor_ready:
  assumes "bt_request_processor api config job addr addr' (Some c) w = Inr ((dgs, Some c), w')"
    "ready w c" "pending c (server w') = []"
  shows "view c (server w') = shared_db w'" "ready w d \<Longrightarrow> ready w' d"
proof -
  obtain resp where "process_request api config job addr (Some c) w = Inr ((resp, Some c), w')"
    using assms(1) by (auto simp: bt_request_processor_def bindE_eq_Inr)
  from process_request_ready [OF this assms(2,3)] show "view c (server w') = shared_db w'" "ready w d \<Longrightarrow> ready w' d"
    using ready_kept [of w d "Some c" w'] ready_view [of w' c] by (cases "d = c"; simp)+
qed

text \<open>An announce on the shared database.\<close>

lemma announce_datagram_shared:
  assumes "ready w c" "db_ok prefix (shared_db w)" "memory_available w" "rand_below_max w" "announce_job r params"
    "\<not> refused config (shared_db w) prefix (hex (info_hash r))"
    and size: "\<And>b. card (dom (swarm (shared_db w) prefix (hex (info_hash r)) b)) < 2 ^ 22 - 1"
  shows "\<exists>peers w'. bt_request_processor api config params from_addr from_addr' (Some c) w =
      Inr (([\<lparr>dg_sock = job_sock params, dg_data = announce_answer config prefix (bt_req_t.truncate r)
        (shared_db w') (hex (info_hash r)) peers, dg_to = from_addr'\<rparr>], Some c), w') \<and>
    (\<forall>d. ready w d \<longrightarrow> ready w' d) \<and> db_ok prefix (shared_db w') \<and> same_env w w' \<and>
    refused config (shared_db w') prefix = refused config (shared_db w) prefix \<and>
    swarms_of prefix (shared_db w') = (swarms_of prefix (shared_db w))
      (hex (info_hash r) := announce_spec (event r) (left r = 0) (peer_id r) (announced_addr r from_addr)
         (swarms_of prefix (shared_db w) (hex (info_hash r)))) \<and>
    answer_peers (swarm (shared_db w') prefix (hex (info_hash r))) (left r = 0)
      (nat (sint (clamp_num_want config (num_want r)))) peers"
proof -
  have c: "pending c (server w) = []" "view c (server w) = shared_db w"
    using assms(1) ready_view by (simp_all add: ready_def)
  note answer = announce_datagram [OF tracker, of c w r params from_addr from_addr', unfolded c(2), OF c(1) assms(2-6) size]
  then obtain dgs w' where eq: "bt_request_processor api config params from_addr from_addr' (Some c) w = Inr ((dgs, Some c), w')"
      and idle: "pending c (server w') = []"
    by blast
  note w' = request_processor_ready [OF eq assms(1) idle]
  from answer show ?thesis
    by (elim ex_forward) (use eq w' in auto)
qed

end


section \<open>Examples\<close>

text \<open>A leecher and then a seeder of one torrent.\<close>

definition example_seeder :: bt_announce_req_t where
  "example_seeder = example_announce\<lparr>peer_id := replicate 20 0x2E, left := 0\<rparr>"

definition announce_params :: "bt_announce_req_t \<Rightarrow> bt_job_params_t" where
  "announce_params r = \<lparr>job_buff = encode_announce_request r @ replicate 1398 0, job_buflen = 98, job_sock = 3,
     job_from_addr_len = 16\<rparr>"

lemma example_jobs [simp]:
  "announce_job example_announce (announce_params example_announce)"
  "announce_job example_seeder (announce_params example_seeder)"
  by (auto simp: announce_job_def announce_params_def example_seeder_def)

lemma example_not_refused: "\<not> refused test_config d prefix h"
  by (simp add: refused_def test_config_def)

theorem announce_datagram_answered_witness:
  "\<exists>peers w'. bt_request_processor ref_api test_config (announce_params example_announce)
      \<lparr>sin_port = 1, s_addr = 2\<rparr> \<lparr>sin_port = 1, s_addr = 2\<rparr> (Some 0) (quiet_world ref_empty) =
    Inr (([\<lparr>dg_sock = 3, dg_data = encode_announce_response
        \<lparr>resp_action = BT_ACTION_ANNOUNCE, resp_transaction_id = 77, interval = 1800, leechers = 1, seeders = 0\<rparr> peers,
      dg_to = \<lparr>sin_port = 1, s_addr = 2\<rparr>\<rparr>], Some 0), w')"
proof -
  let ?p = "str ''bttracker''" and ?h = "hex (replicate 20 0xA5)" and ?from = "\<lparr>sin_port = 1, s_addr = 2\<rparr>"
  obtain peers w' where w': "bt_request_processor ref_api test_config (announce_params example_announce) ?from ?from (Some 0)
      (quiet_world ref_empty) = Inr (([\<lparr>dg_sock = 3, dg_data = encode_announce_response
        \<lparr>resp_action = BT_ACTION_ANNOUNCE, resp_transaction_id = 77, interval = announce_wait_time test_config,
         leechers = of_nat (card (dom (swarm (ref_view 0 (server w')) ?p ?h False))),
         seeders = of_nat (card (dom (swarm (ref_view 0 (server w')) ?p ?h True)))\<rparr> peers, dg_to = ?from\<rparr>], Some 0), w')"
      "swarms_of ?p (ref_view 0 (server w')) = (swarms_of ?p Map.empty) (?h := announce_spec BT_EVENT_STARTED False
        (replicate 20 0x2D) (announced_addr example_announce ?from) (swarms_of ?p Map.empty ?h))"
    using announce_datagram_answered [OF ref_tracker, of 0 "quiet_world ref_empty" "announce_params example_announce"
        example_announce "replicate 1398 0" ?from ?from] example_not_refused
    by (auto simp: announce_params_def)
  have "swarm (ref_view 0 (server w')) ?p ?h b =
      (if b then Map.empty else [replicate 20 0x2D \<mapsto> announced_addr example_announce ?from])" for b
    using arg_cong [OF fun_cong [OF w'(2), of ?h], of sw_peers]
    by (simp add: swarms_of_def announce_spec_def add_peer_def fun_eq_iff)
  then show ?thesis using w'(1) by (auto simp: test_config_def)
qed

text \<open>A server with the connections of two workers.\<close>

definition ref_two :: ref_server where
  "ref_two = ref_empty\<lparr>ref_selected := (\<lambda>_. 1), ref_next := 2\<rparr>"


end
