(* ===== verification/Bt_Responses.thy ===== *)
theory Bt_Responses
  imports Bt_Tracker
begin

text \<open>
  The type of the answers: whatever Redis replies, also errors, nothing at all or replies of an unexpected
  type, and whatever \<open>malloc\<close> and \<open>rand\<close> do, a response that is produced is one of the packets of BEP 15
  for the request, with the length the buffer has. Nothing is assumed of hiredis here.
\<close>

declare str_simps [simp del]

section \<open>The packets\<close>

text \<open>
  The responses to a request. An error response ends with the 56 unwritten bytes; of the others
  every byte is written.
\<close>

inductive bep15_response :: "bt_config_t \<Rightarrow> bt_req_t \<Rightarrow> bt_response_buffer_t \<Rightarrow> bool"
  for config :: bt_config_t and request :: bt_req_t where
  connect: "action request = BT_ACTION_CONNECT \<Longrightarrow>
    bep15_response config request \<lparr>resp_length = 16, resp_data = map Some (encode_connection_response
      \<lparr>resp_action = BT_ACTION_CONNECT, resp_transaction_id = transaction_id request, resp_connection_id = cid\<rparr>)\<rparr>"
| announce: "action request = BT_ACTION_ANNOUNCE \<Longrightarrow> length peers \<le> unat (announce_max_numwant config) \<Longrightarrow>
    bep15_response config request \<lparr>resp_length = 20 + 6 * length peers, resp_data = map Some (encode_announce_response
      \<lparr>resp_action = BT_ACTION_ANNOUNCE, resp_transaction_id = transaction_id request,
       interval = announce_wait_time config, leechers = l, seeders = s\<rparr> peers)\<rparr>"
| scrape: "action request = BT_ACTION_SCRAPE \<Longrightarrow> length entries \<le> 8 \<Longrightarrow>
    bep15_response config request \<lparr>resp_length = 8 + 12 * length entries, resp_data = map Some (encode_scrape_response
      \<lparr>resp_action = BT_ACTION_SCRAPE, resp_transaction_id = transaction_id request, scrape_entries = entries\<rparr>)\<rparr>"
| error: "msg = storage_error \<or> msg = str ''Blacklisted info hash'' \<Longrightarrow>
    bep15_response config request \<lparr>resp_length = 65 + length msg,
      resp_data = map Some (encode_error_response (transaction_id request) msg) @ replicate 56 None\<rparr>"

section \<open>Serialisation\<close>

lemma malloc_Inr:
  "malloc_unchecked n w = Inr (b, w') \<Longrightarrow> b = replicate n None"
  "malloc_or_exit n w = Inr (b, w') \<Longrightarrow> b = replicate n None"
  by (auto simp: malloc_unchecked_def malloc_or_exit_def malloc_def split: if_splits)

lemma bt_send_error_Inr:
  assumes "bt_send_error request (Some msg) w = Inr (resp, w')"
  shows "resp = \<lparr>resp_length = 65 + length msg,
      resp_data = map Some (encode_error_response (transaction_id request) msg) @ replicate 56 None\<rparr>"
proof -
  let ?req = "\<lparr>connection_id = connection_id request, action = BT_ACTION_ERROR, transaction_id = transaction_id request\<rparr>"
  obtain req' where "bt_write_error_data (replicate (65 + length msg) None) ?req msg =
      Inr (map Some (encode_error_response (transaction_id request) msg) @ replicate 56 None, req')"
    using bt_write_error_data_eq [of msg "65 + length msg" ?req] by auto
  then show ?thesis using assms by (auto simp: bt_send_error_def Let_def bindE_eq_Inr dest!: malloc_Inr)
qed

lemma bt_serialize_connection_response_Inr:
  assumes "bt_serialize_connection_response r w = Inr (resp, w')"
  shows "resp = \<lparr>resp_length = 16, resp_data = map Some (encode_connection_response r)\<rparr>"
  using assms bt_write_connection_data_eq [of r]
  by (auto simp: bt_serialize_connection_response_def bindE_eq_Inr dest!: malloc_Inr)

lemma bt_serialize_announce_response_Inr:
  assumes "bt_serialize_announce_response r (length peers) peers w = Inr (resp, w')"
  shows "resp = \<lparr>resp_length = 20 + 6 * length peers, resp_data = map Some (encode_announce_response r peers)\<rparr>"
  using assms bt_write_announce_data_eq [of peers r]
  by (auto simp: bt_serialize_announce_response_def Let_def bindE_eq_Inr mult.commute dest!: malloc_Inr)

lemma bt_serialize_scrape_response_Inr:
  assumes "bt_serialize_scrape_response r w = Inr (resp, w')"
  shows "resp = \<lparr>resp_length = 8 + 12 * length (scrape_entries r), resp_data = map Some (encode_scrape_response r)\<rparr>"
  using assms bt_write_scrape_response_data_eq [of "8 + length (scrape_entries r) * 12" r]
  by (auto simp: bt_serialize_scrape_response_def Let_def bindE_eq_Inr dest!: malloc_Inr)

section \<open>Peer lists of any server\<close>

lemma fetch_loop_count:
  "fetch_loop api c n lst k w = Inr ((lst', k'), w') \<Longrightarrow> k = length lst \<Longrightarrow> k' = length lst' \<and> k' \<le> k + n"
proof (induction n arbitrary: lst k w)
  case (Suc n)
  obtain reply w1 where "get_reply api c w = (reply, w1)" by fastforce
  then show ?case
    using Suc.prems by (auto simp: bindE_eq_Inr split: option.splits dest!: Suc.IH)
qed auto

text \<open>However many keys the server lists, and even where the comparison wraps around.\<close>

lemma upper_index_of_le:
  assumes "0 \<le> sint want"
  shows "upper_index_of n want \<le> nat (sint want)"
proof (cases "(of_nat n :: 64 word) > scast want")
  case True
  then show ?thesis by (simp add: upper_index_of_def)
next
  case False
  have want: "uint (scast want :: 64 word) = sint want" "sint want < 2 ^ 31"
    using assms sint_lt [of want] uint_word_of_int_eq [of "sint want", where 'a = 64]
    by (simp_all add: take_bit_int_eq_self)
  then have "int (n mod 2 ^ 64) \<le> sint want"
    using False by (simp add: word_less_def not_less unsigned_of_nat take_bit_eq_mod zmod_int)
  moreover have "(of_nat n :: 32 word) = of_nat (n mod 2 ^ 64)"
    by (rule unsigned_word_eqI [where 'a = nat]) (simp add: unsigned_of_nat take_bit_eq_mod mod_mod_cancel)
  ultimately have "sint (of_nat n :: 32 word) = int (n mod 2 ^ 64)"
    using want(2) by (simp add: signed_of_nat signed_take_bit_int_eq_self)
  then show ?thesis
    using False \<open>int (n mod 2 ^ 64) \<le> sint want\<close> by (simp add: upper_index_of_def nat_mono)
qed

lemma bt_peer_list_count:
  assumes "bt_peer_list api c config h want 0 b w = Inr ((peers, k), w')" "0 \<le> sint want"
  shows "k = length peers \<and> int k \<le> sint want"
proof -
  obtain prefix reply w0 where "redis_key_prefix config = Some prefix" and
    "redis_command api c (KEYS (swarm_prefix prefix h (peer_prefix_of b) @ str ''*'')) w = (reply, w0)"
    using assms(1) by (auto simp: bt_peer_list_def bindE_eq_Inr intro: prod.exhaust)
  then have "peers = [] \<and> k = 0 \<or> (\<exists>n w1. fetch_loop api c (upper_index_of n want) [] 0 w1 = Inr ((peers, k), w'))"
    using assms(1) by (auto simp: bt_peer_list_def Let_def bindE_eq_Inr split: option.splits if_splits)
  then show ?thesis
  proof (elim disjE exE)
    fix n w1 assume "fetch_loop api c (upper_index_of n want) [] 0 w1 = Inr ((peers, k), w')"
    from fetch_loop_count [OF this] show ?thesis using upper_index_of_le [OF assms(2), of n] assms(2) by auto
  qed (use assms(2) in simp)
qed

lemma collect_peers_count:
  assumes "collect_peers api c config h want b w = Inr ((peers, k), w')" "0 \<le> sint want"
  shows "k = length peers \<and> int k \<le> sint want"
proof -
  obtain peers1 k1 w1 where 1: "bt_peer_list api c config h want 0 (\<not> b) w = Inr ((peers1, k1), w1)"
      and rest: "(if int k1 < sint want then
         bindE (bt_peer_list api c config h (want - of_nat k1) 0 b w1) (\<lambda>((complement, complement_count), w).
           if complement \<noteq> [] \<and> complement_count > 0
           then Inr ((peers1 @ complement, k1 + complement_count), w) else Inr ((peers1, k1), w))
       else Inr ((peers1, k1), w1)) = Inr ((peers, k), w')"
    using assms(1) by (auto simp: collect_peers_def bindE_eq_Inr)
  note k1 = bt_peer_list_count [OF 1 assms(2)]
  show ?thesis
  proof (cases "int k1 < sint want")
    case True
    then obtain peers2 k2 w2 where 2: "bt_peer_list api c config h (want - of_nat k1) 0 b w1 = Inr ((peers2, k2), w2)"
        "peers = (if peers2 \<noteq> [] \<and> k2 > 0 then peers1 @ peers2 else peers1)"
        "k = (if peers2 \<noteq> [] \<and> k2 > 0 then k1 + k2 else k1)"
      using rest by (auto simp: bindE_eq_Inr split: if_splits)
    have "k2 = length peers2 \<and> int k2 \<le> sint want - int k1"
      using bt_peer_list_count [OF 2(1)] sint_diff_of_nat [OF True] True by simp
    then show ?thesis using 2(2,3) k1 by auto
  next
    case False
    then show ?thesis using rest k1 by auto
  qed
qed

section \<open>Scrapes of any server\<close>

lemma read_block_bound: "read_block buf off n = Inr bs \<Longrightarrow> off + n \<le> length buf"
  by (auto simp: read_block_def split: if_splits)

text \<open>The loop ends with an error response or with as many entries as there are info hashes, eight at most.\<close>

lemma scrape_loop_Inr:
  "scrape_loop api request config r c i entries w = Inr (outcome, w') \<Longrightarrow>
   i = length entries \<Longrightarrow> length entries \<le> 8 \<Longrightarrow> length (scrape_info_hash r) = scrape_info_hash_size \<Longrightarrow>
   (case outcome of Inl resp \<Rightarrow> resp = refusal (transaction_id request) | Inr es \<Rightarrow> length es \<le> 8)"
proof (induction "unat (info_hash_len r) - i" arbitrary: i entries w)
  case 0
  then show ?case by (subst (asm) scrape_loop.simps) auto
next
  case (Suc n)
  have lt: "i < unat (info_hash_len r)" "n = unat (info_hash_len r) - (i + 1)" using Suc(2) by simp_all
  note IH = Suc(1) [OF lt(2)]
  obtain ih where ih: "read_block (scrape_info_hash r) (i * 20) 20 = Inr ih"
    and loop: "(\<exists>resp w1. bt_send_error request (Some (str ''Blacklisted info hash'')) w1 = Inr (resp, w') \<and> outcome = Inl resp) \<or>
      (\<exists>stats w1. scrape_loop api request config r c (i + 1) (stats # entries) w1 = Inr (outcome, w'))"
    using Suc.prems(1) lt(1) by (subst (asm) scrape_loop.simps) (auto simp: bindE_eq_Inr Let_def split: if_splits)
  have "Suc (length entries) \<le> 8"
    using read_block_bound [OF ih] Suc.prems(2,4) by (simp add: scrape_info_hash_size_def)
  then show ?case
    using loop Suc.prems(2,4) IH [where entries = "_ # entries"] by (auto simp: refusal_def dest: bt_send_error_Inr)
qed

section \<open>The handlers\<close>

lemma bt_handle_connection_response:
  assumes "bt_handle_connection api request config len c w = Inr (Some resp, w')" "action request = BT_ACTION_CONNECT"
  shows "bep15_response config request resp"
  using assms bep15_response.connect [of request config]
  by (auto simp: bt_handle_connection_def bindE_eq_Inr Let_def split: if_splits prod.splits
      dest!: bt_serialize_connection_response_Inr)

lemma refusal_response: "bep15_response config request (refusal (transaction_id request))"
  using bep15_response.error [of "str ''Blacklisted info hash''" config request] by (simp add: refusal_def)

lemma bt_handle_announce_response:
  assumes "bt_handle_announce api request config buff len a c w = Inr (Some resp, w')" "action request = BT_ACTION_ANNOUNCE"
  shows "bep15_response config request resp"
proof -
  consider (refused) w1 where "bt_send_error request (Some (str ''Blacklisted info hash'')) w1 = Inr (resp, w')"
    | (peers) h want b w1 peers n w2 l s w3 where
        "collect_peers api c config h (clamp_num_want config want) b w1 = Inr ((peers, n), w2)"
        "bt_serialize_announce_response \<lparr>resp_action = BT_ACTION_ANNOUNCE, resp_transaction_id = transaction_id request,
           interval = announce_wait_time config, leechers = l, seeders = s\<rparr> n peers w3 = Inr (resp, w')"
    using assms by (auto simp: bt_handle_announce_def bindE_eq_Inr Let_def split: if_splits)
  then show ?thesis
  proof cases
    case refused
    then show ?thesis using refusal_response [of config request] by (auto simp: refusal_def dest!: bt_send_error_Inr)
  next
    case peers
    note n = collect_peers_count [OF peers(1) clamp_num_want_bounds(1)]
    then have "int (length peers) \<le> uint (announce_max_numwant config)"
      using clamp_num_want_bounds(2) [of config want] by simp
    then have "length peers \<le> unat (announce_max_numwant config)" by (subst zle_int [symmetric]) simp
    from bep15_response.announce [OF assms(2) this, of l s] show ?thesis
      using peers(2) n by (auto dest!: bt_serialize_announce_response_Inr)
  qed
qed

lemma bt_read_scrape_request_data_size:
  "bt_read_scrape_request_data buf len = Inr r \<Longrightarrow> length (scrape_info_hash r) = scrape_info_hash_size"
  by (auto simp: bt_read_scrape_request_data_def bindE_eq_Inr dest: memcpy_to_length)

lemma bt_handle_scrape_response:
  assumes "bt_handle_scrape api request config buff len c w = Inr (Some resp, w')" "action request = BT_ACTION_SCRAPE"
  shows "bep15_response config request resp"
proof -
  obtain r w1 outcome w2 where r: "bt_read_scrape_request_data buff len = Inr r"
    and loop: "scrape_loop api request config r c 0 [] w1 = Inr (outcome, w2)"
    and out: "(case outcome of Inl resp \<Rightarrow> Inr (Some resp, w2)
       | Inr es \<Rightarrow> let response_header = \<lparr>resp_action = action request,
           resp_transaction_id = transaction_id request, scrape_entries = rev es\<rparr>
         in bindE (bt_serialize_scrape_response response_header w2) (\<lambda>(resp, w). Inr (Some resp, w))) = Inr (Some resp, w')"
    using assms(1) by (auto simp: bt_handle_scrape_def bindE_eq_Inr split: if_splits)
  note bound = scrape_loop_Inr [OF loop _ _ bt_read_scrape_request_data_size [OF r]]
  show ?thesis
  proof (cases outcome)
    case (Inl resp')
    then show ?thesis using bound out refusal_response [of config request] by auto
  next
    case (Inr es)
    then have "length (rev es) \<le> 8" using bound by simp
    then show ?thesis
      using bep15_response.scrape [OF assms(2), of "rev es" config] out Inr assms(2)
      by (auto simp: bindE_eq_Inr dest!: bt_serialize_scrape_response_Inr)
  qed
qed

lemma dispatch_response:
  assumes "dispatch api config params a redis request err w = Inr (Some resp, w')"
    "err = None \<or> err = Some storage_error"
  shows "bep15_response config request resp"
  using assms bep15_response.error [of storage_error config request] bt_send_error_null [of request w]
  by (auto simp: dispatch_def bindE_eq_Inr bt_handle_connection_response bt_handle_announce_response
      bt_handle_scrape_response split: if_splits dest!: bt_send_error_Inr)

text \<open>An error response does not depend on the action it replaces.\<close>

lemma bep15_response_error_action:
  "bep15_response config (request\<lparr>action := BT_ACTION_ERROR\<rparr>) resp \<Longrightarrow> bep15_response config request resp"
  by (induction rule: bep15_response.induct) (auto intro: bep15_response.error)

lemma process_request_response:
  assumes "process_request api config params a tls w = Inr ((Some resp, tls'), w')"
  shows "\<exists>request. bt_read_request_data (job_buff params) = Inr request \<and> bep15_response config request resp"
proof -
  obtain request redis request' err w1 where rd: "bt_read_request_data (job_buff params) = Inr request"
    and acq: "redis_acquire api config tls request w = ((redis, request', err, tls'), w1)"
    and dis: "dispatch api config params a redis request' err w1 = Inr (Some resp, w')"
    using assms by (auto simp: process_request_def bindE_eq_Inr split_beta prod_eq_iff)
  have "bep15_response config request' resp"
    using dispatch_response [OF dis] acquire_cases [OF acq] by (cases redis) auto
  then have "bep15_response config request resp"
    using acquire_cases [OF acq] bep15_response_error_action by (cases redis) auto
  then show ?thesis using rd by blast
qed

section \<open>All that is ever sent\<close>

lemma bep15_response_length:
  assumes "bep15_response config request resp"
  shows "resp_length resp = length (resp_data resp)"
    "resp_length resp \<le> max 125 (20 + 6 * unat (announce_max_numwant config))"
  using assms
  by (induction rule: bep15_response.induct)
    (auto simp: encode_connection_response_def encode_error_response_def storage_error_def str_simps)

text \<open>A response for a job, and a packet with such a response.\<close>

definition answers_job :: "bt_config_t \<Rightarrow> bt_job_params_t \<Rightarrow> bt_response_buffer_t \<Rightarrow> bool" where
  "answers_job config job resp \<longleftrightarrow>
     (\<exists>request. bt_read_request_data (job_buff job) = Inr request \<and> bep15_response config request resp)"

definition typed_packet :: "('c, 's) tracker \<Rightarrow> bytes \<Rightarrow> bool" where
  "typed_packet t packet \<longleftrightarrow> (\<exists>job resp w. faithful t job \<and> answers_job (t_config t) job resp \<and>
     packet = sent_bytes (w :: 's world) (resp_data resp))"

definition answers_inv :: "('c, 's) tracker \<Rightarrow> bool" where
  "answers_inv t \<longleftrightarrow> (\<forall>i job resp. t_act t i = Answering job (Some resp) \<longrightarrow> answers_job (t_config t) job resp) \<and>
     (\<forall>dg \<in> set (sent t). typed_packet t (dg_data dg))"

lemma typed_packet_step: "tracker_step api t t' \<Longrightarrow> typed_packet t packet \<Longrightarrow> typed_packet t' packet"
  using faithful_step [of api t t'] tracker_step_constant [of api t t'] by (fastforce simp: typed_packet_def)

lemma typed_packet_send:
  fixes t :: "('c, 's) tracker" and w :: "'s world"
  assumes "faithful t job" "answers_job (t_config t) job resp" "dg \<in> set (send_response job (Some resp) addr w)"
  shows "typed_packet t (dg_data dg)"
  using assms bep15_response_length(1) by (fastforce simp: typed_packet_def answers_job_def send_response_def)

lemma answers_inv_step:
  assumes "tracker_step api t t'" "answers_inv t" "jobs_inv t"
  shows "answers_inv t'"
proof -
  have old: "\<forall>dg \<in> set (sent t). typed_packet t' (dg_data dg)"
    using assms(2) typed_packet_step [OF assms(1)] by (simp add: answers_inv_def)
  show ?thesis
    using assms old
  proof (induction rule: tracker_step.induct)
    case (handle t i job resp tls w)
    then show ?case
      using process_request_response [of api "t_config t" job "si_other t" "t_tls t i" "t_world t"]
      by (fastforce simp: answers_inv_def answers_job_def)
  next
    case (send t i job resp)
    let ?t = "t\<lparr>t_act := (t_act t)(i := Idle), sent := sent t @ send_response job resp (si_other t) (t_world t)\<rparr>"
    have "typed_packet ?t (dg_data dg)" if "dg \<in> set (send_response job resp (si_other t) (t_world t))" for dg
    proof (cases resp)
      case (Some r)
      have "faithful t job" using send(1,3) by (force simp: jobs_inv_def jobs_of_def)
      then have "faithful ?t job" by (simp add: faithful_def)
      moreover have "answers_job (t_config ?t) job r" using send(1,2) Some by (simp add: answers_inv_def)
      ultimately show ?thesis using typed_packet_send that Some by blast
    qed (use that in \<open>simp add: send_response_def\<close>)
    then show ?case using send(2,4) by (auto simp: answers_inv_def)
  qed (auto simp: answers_inv_def)
qed

lemma answers_inv_reachable: "reachable api (tracker_init st w) t \<Longrightarrow> answers_inv t"
proof (induction rule: reachable.induct)
  case start
  then show ?case by (simp add: answers_inv_def tracker_init_def)
next
  case (step t t')
  then show ?case
    using answers_inv_step [of api t t'] tracker_inv_reachable [OF step(1) tracker_inv_init] by (simp add: tracker_inv_def)
qed

lemma t_config_reachable: "reachable api (tracker_init st w) t \<Longrightarrow> t_config t = st_config st"
  by (induction rule: reachable.induct) (auto simp: tracker_init_def dest: tracker_step_constant)

text \<open>
  C6. Every datagram the tracker ever sends is a packet of BEP 15 that answers a datagram it received,
  whatever the Redis server replies, whatever \<open>rand\<close> and \<open>malloc\<close> return and however the threads are
  interleaved: it has the format of a connect, announce or scrape response of the action the request
  asked for, or of an error response with one of the two messages, carries the transaction identifier of the
  request, and is as long as the buffer it was sent from; it lists at most the configured number of
  peers, or at most eight torrents.
\<close>

theorem sent_packets_well_typed:
  fixes api :: "('c, 's) hiredis_api"
  assumes "reachable api (tracker_init st w) t" "dg \<in> set (sent t)"
  shows "\<exists>dat addr buff request resp w'. (dat, addr) \<in> set (received t) \<and>
    length buff = BT_RECV_BUFLEN \<and> take (length dat) buff = dat \<and>
    bt_read_request_data buff = Inr request \<and> bep15_response (st_config st) request resp \<and>
    dg_data dg = sent_bytes (w' :: 's world) (resp_data resp) \<and> length (dg_data dg) = resp_length resp \<and>
    resp_length resp \<le> max 125 (20 + 6 * unat (announce_max_numwant (st_config st)))"
proof -
  have "typed_packet t (dg_data dg)"
    using answers_inv_reachable [OF assms(1)] assms(2) by (simp add: answers_inv_def)
  then obtain job resp and w' :: "'s world" where "faithful t job" and ans: "answers_job (t_config t) job resp"
      and dat: "dg_data dg = sent_bytes w' (resp_data resp)"
    by (auto simp: typed_packet_def)
  from this(1) obtain dat addr where "(dat, addr) \<in> set (received t)" "length (job_buff job) = BT_RECV_BUFLEN"
      "take (length dat) (job_buff job) = dat"
    by (auto simp: faithful_def)
  moreover obtain request where "bt_read_request_data (job_buff job) = Inr request"
      "bep15_response (st_config st) request resp"
    using ans t_config_reachable [OF assms(1)] by (auto simp: answers_job_def)
  moreover note bep15_response_length [OF this(2)]
  ultimately show ?thesis
    using dat by (intro exI [of _ dat] exI [of _ addr] exI [of _ "job_buff job"] exI [of _ request]
      exI [of _ resp] exI [of _ w']) simp
qed

theorem sent_packets_well_typed_witness:
  "\<exists>t dg request resp. reachable down_api (example_init ()) t \<and> sent t = [dg] \<and>
     bep15_response test_config request resp \<and> length (dg_data dg) = resp_length resp \<and> length (dg_data dg) = 125"
proof -
  obtain t where t: "reachable down_api (example_init ()) t" "sent t = []"
     "t_act t 0 = Answering example_job (Some \<lparr>resp_length = 125,
       resp_data = map Some (encode_error_response 77 storage_error) @ replicate 56 None\<rparr>)"
    using example_answering by blast
  let ?t = "t\<lparr>t_act := (t_act t)(0 := Idle), sent := sent t @ send_response example_job (Some \<lparr>resp_length = 125,
       resp_data = map Some (encode_error_response 77 storage_error) @ replicate 56 None\<rparr>) (si_other t) (t_world t)\<rparr>"
  have r: "reachable down_api (example_init ()) ?t" by (rule reachable.step [OF t(1) tracker_step.send [OF t(3)]])
  obtain dg where dg: "sent ?t = [dg]" "length (dg_data dg) = 125"
    using t(2) by (simp add: send_response_def encode_error_response_def storage_error_def str_simps)
  moreover have "st_config example_started = test_config" by (simp add: example_started_def)
  ultimately have "\<exists>request resp. bep15_response test_config request resp \<and> length (dg_data dg) = resp_length resp"
    using sent_packets_well_typed [OF r, of dg] by auto
  with r dg show ?thesis by blast
qed

end
