(* ===== verification/Spec2Isabelle.thy ===== *)
theory Spec2Isabelle
  imports Bt_Interleaving Bt_Liveness Bt_Session Bt_Responses
begin

text \<open>
  A verification of \<open>bttracker\<close>, a BitTorrent tracker that speaks the UDP tracker protocol (BEP 15)
  and keeps its data in Redis.

  \<^bold>\<open>The program.\<close> \<open>main\<close> (\<open>src/bttracker.c\<close>) loads a configuration (\<open>src/conf.c\<close>), binds a UDP socket
  (\<open>src/net.c\<close>) and starts a thread pool (\<open>src/pool.c\<close>). It then receives datagrams and pushes each,
  with a clone of the receive buffer, to the pool. A worker reads the header of the request, makes
  sure it has a connection to Redis and calls the handler of the action: \<open>src/connect.c\<close> issues
  connection identifiers, \<open>src/announce.c\<close> updates the swarm of a torrent and tells the client about
  other peers, \<open>src/scrape.c\<close> reports statistics. The handlers check a request with \<open>src/handshake.c\<close>,
  read and write packets with \<open>src/net.c\<close> and \<open>src/byteorder.h\<close>, answer errors with \<open>src/error.c\<close> and keep
  all data through \<open>src/data.c\<close>, which sends commands to Redis. A worker sends the response to the
  client.

  \<^bold>\<open>How C is modelled.\<close> A function that can fail returns a \<open>result\<close>: \<open>Inl\<close> a \<open>fault\<close> (a null
  dereference, an access out of bounds, the use of an indeterminate value, or \<open>exit\<close> with a code) or
  \<open>Inr\<close> its value. State is passed explicitly in a \<open>world\<close>: the server behind hiredis, the values of
  \<open>rand()\<close>, the outcomes of \<open>malloc()\<close> and the contents of unwritten memory, each of which is arbitrary.
  Integers have the width they have in C. Heap blocks are lists of optional bytes, \<open>None\<close> where nothing
  has been written. The host is a little-endian 64-bit one with glibc. Releasing memory and writing
  to the log change nothing the model can see, and are left out.

  \<^bold>\<open>What is a parameter.\<close> hiredis and Redis, GLib's key files, and the socket calls are not part of the
  repository; they are records of functions (\<open>hiredis_api\<close>, \<open>gkeyfile_api\<close>, \<open>socket_api\<close>). What the
  tracker relies on of Redis is the locale \<open>redis_connection\<close>, which states the documented effect of
  each command (\<open>redis_ok\<close>), and \<open>redis_service\<close>, which states how connections are opened, select a
  database and leave each other alone; \<open>Bt_Redis_Reference\<close> has a server that satisfies both. They leave
  out that a key may expire, or another client may write, between two commands of one request; the
  contract \<open>shared_redis\<close> allows both, and two servers satisfying it are in \<open>Bt_Interleaving\<close>.

  \<^bold>\<open>The theories.\<close>
  \<^item> \<open>Bt_Prelude\<close>: bytes, faults, memory, the process state; the locale \<open>simulation\<close>.
  \<^item> \<open>Bt_Byteorder\<close> (\<open>byteorder.h\<close>): the conversions between host and network byte order; the locale
    \<open>fixed_codec\<close>, interpreted for fields of 16, 32 and 64 bits.
  \<^item> \<open>Bt_Random\<close> (\<open>random.c\<close>): connection identifiers and \<open>randr\<close> with the rounding of \<open>double\<close>.
  \<^item> \<open>Bt_Conf\<close> (\<open>conf.c\<close>, \<open>conf.h\<close>): loading the configuration.
  \<^item> \<open>Bt_Redis\<close>: hiredis, the commands of Redis and the contract \<open>redis_connection\<close>.
  \<^item> \<open>Bt_Types\<close> (\<open>data.h\<close>): the structures and their layout in memory.
  \<^item> \<open>Bt_Data\<close> (\<open>data.c\<close>): all operations on the data in Redis.
  \<^item> \<open>Bt_Store\<close>: keys, decimal text, the shuffle, the invariant \<open>db_ok\<close> of the database and its abstract
    view (\<open>swarm\<close>, \<open>downloads_of\<close>).
  \<^item> \<open>Bt_Swarm\<close>: the locale \<open>tracker_store\<close>, in which the effect of every operation of \<open>data.c\<close> on the
    database is proved.
  \<^item> \<open>Bt_Peers\<close>: abstract swarms and the contract \<open>peer_store\<close> that \<open>announce.c\<close> needs, which the
    operations of \<open>data.c\<close> satisfy (a sublocale of \<open>tracker_store\<close>).
  \<^item> \<open>Bt_Redis_Reference\<close>: the reference server. \<open>Bt_Store_Props\<close>: the properties of \<open>data.c\<close>.
  \<^item> \<open>Bt_Net\<close> (\<open>net.c\<close>): packets; the functions \<open>encode_\<dots>\<close> are the encodings of BEP 15. \<open>Bt_Socket\<close>: the
    socket function of \<open>net.c\<close>.
  \<^item> \<open>Bt_Error\<close>, \<open>Bt_Handshake\<close>, \<open>Bt_Connect\<close>, \<open>Bt_Announce\<close>, \<open>Bt_Scrape\<close>: the C files of these names.
  \<^item> \<open>Bt_Pool\<close> (\<open>pool.c\<close>): the worker. \<open>Bt_Tracker\<close> (\<open>bttracker.c\<close>): the startup, and the receive loop,
    the workers and the signal handler as the step relation \<open>tracker_step\<close>.
  \<^item> \<open>Bt_Frame\<close>: whatever a worker does to the server, it does through its own connection, and by commands
    of the kinds \<open>tracker_command\<close> names.
    \<open>Bt_Service\<close>: the whole program over one server (locale \<open>tracker_service\<close>), with the invariants of the
    shared database and of the connections of the workers.
  \<^item> \<open>Bt_Interleaving\<close>: the contract \<open>shared_redis\<close> of a server on which other workers, the expiry of keys and
    edits of the lists interfere between any two calls of a worker. \<open>Bt_Liveness\<close>: fair runs.
  \<^item> \<open>Bt_Session\<close>: announces from the datagrams of the clients to the datagrams they get back.
    \<open>Bt_Responses\<close>: the type of everything the program sends, whatever the server behind hiredis does.

  \<^bold>\<open>What is shown.\<close> The operations of \<open>data.c\<close> refine abstract swarms and keep \<open>db_ok\<close>; sequences of
  announces refine their specification. Each handler gives the response BEP 15 asks for, on every
  branch, and has exactly the stated effect. Packets are decoded as they are encoded. A worker
  handles every request, apart from those named below, without undefined behaviour. In every reachable
  state of the program the outstanding jobs carry the datagrams that were received, and shutting down
  terminates. Along runs in which workers take such requests only, the shared database keeps its
  invariant, no two workers share a connection and no thread faults. The invariant of the database
  holds in every reachable state also under interference, whatever the requests and the replies; and
  in a fair run every queued job is answered. A peer that has announced itself is found by the next
  client that wants enough peers. Every datagram ever sent is a packet of BEP 15 of the right format, length
  and transaction identifier; nothing is assumed of Redis for this. The theorems about defects are part of
  this: identifiers that were never issued are accepted, the action \<open>ERROR\<close> sent by a client dereferences \<open>NULL\<close>, scrape requests of fewer than 16 or
  more than 176 bytes leave their buffers, a response can go to the wrong client, an error response
  carries memory that was never written, \<open>randr\<close> can exceed its bound, a short announce is completed
  from earlier datagrams, a peer can be listed in both roles, a database number the server does
  not have silently means database 0, a configuration without a restriction or a log level dereferences
  \<open>NULL\<close>, and a peer that expires between \<open>KEYS\<close> and \<open>GET\<close> crashes the tracker.

  \<^bold>\<open>Bounds and termination.\<close> All loops of the model are total functions: the recursions over lists are
  structural, the shuffle and the scrape loop have a measure. Peer lists are proved for swarms of
  fewer than \<open>2\<^sup>2\<^sup>2\<close> peers, for which the rounding of \<open>randr\<close> is proved harmless, and for outcomes of
  \<open>rand()\<close> other than \<open>RAND_MAX\<close>. The receive loop never ends by itself; it is a relation.

  \<^bold>\<open>Not modelled.\<close> The \<open>syslog\<close> calls (of \<open>bt_log_announce_request\<close> the message is modelled); \<open>allheads.h\<close>, which only includes
  headers; the Apple branch of \<open>byteorder.h\<close>; the tests. Handling a request is one step of
  \<open>tracker_step\<close>: the functional theorems describe a worker whose commands are not interleaved with those
  of another. What the commands of others may do in between is described by \<open>shared_redis\<close>, for the
  invariant of the database. The signal is taken between two steps of the main thread: that \<open>on_sigterm\<close>
  calls functions which are not safe in a signal handler has no counterpart in the model.
\<close>

end
